(* ===== verification/Prelude.thy ===== *)
theory Prelude
  imports Main "HOL-Library.Sublist"
begin

text \<open>
  Shared vocabulary of the development: Python exceptions as values, the result type that
  carries them, and generic lemmas on lists and association lists (the model of Python's
  insertion-ordered dictionaries).

  \<^item> \<open>py_exn\<close> lists the exception classes the modelled code raises; an operation that can
    raise returns \<open>'a res\<close>, with \<open>Inl\<close> for the exception that leaves it.
  \<^item> \<open>res_bind\<close> and \<open>require\<close> sequence such operations; the collection \<open>res_simps\<close>
    turns an assumption "the sequence returned" into the facts about its steps.
  \<^item> \<open>assoc_put\<close> is \<open>d[k] = v\<close> on an insertion-ordered dictionary.
\<close>

section \<open>Exceptions and results\<close>

datatype py_exn =
    ValueError string
  | TypeError string
  | KeyError string
  | RuntimeError string
  | AssertionError string
  | IntegrityError string
  | AttemptChangedError string
  | ModelUnavailableError string
  | ConfigError string
  | PreflightFailure string string
  | AdapterDiagnostic string string
  | SupervisorError string string "string list"
  | AuthSetupError string string
  | CLINotFoundError string
  | FileNotFoundError string
  | ProcessError string
  | BrokenPipeError string
  | ConnectionResetError string
  | EOFError string
  | TimeoutError string
  | CancelledError
  | OtherError string string

text \<open>\<open>AuthSetupError\<close> stands for the three authentication errors of the SDK, which the code
  treats alike (class name and message, as in \<open>OtherError\<close>); \<open>CancelledError\<close> is the only one that \<open>except Exception\<close> does not catch.\<close>

type_synonym 'a res = "py_exn + 'a"

text \<open>\<open>str(error)\<close> and \<open>type(error).__name__\<close>.\<close>

fun exn_message :: "py_exn \<Rightarrow> string" where
  "exn_message (ValueError m) = m"
| "exn_message (TypeError m) = m"
| "exn_message (KeyError m) = m"
| "exn_message (RuntimeError m) = m"
| "exn_message (AssertionError m) = m"
| "exn_message (IntegrityError m) = m"
| "exn_message (AttemptChangedError m) = m"
| "exn_message (ModelUnavailableError m) = m"
| "exn_message (ConfigError m) = m"
| "exn_message (PreflightFailure c m) = m"
| "exn_message (AdapterDiagnostic c m) = m"
| "exn_message (SupervisorError c m ws) = m"
| "exn_message (AuthSetupError n m) = m"
| "exn_message (CLINotFoundError m) = m"
| "exn_message (FileNotFoundError m) = m"
| "exn_message (ProcessError m) = m"
| "exn_message (BrokenPipeError m) = m"
| "exn_message (ConnectionResetError m) = m"
| "exn_message (EOFError m) = m"
| "exn_message (TimeoutError m) = m"
| "exn_message CancelledError = []"
| "exn_message (OtherError n m) = m"

fun exn_class :: "py_exn \<Rightarrow> string" where
  "exn_class (ValueError m) = ''ValueError''"
| "exn_class (TypeError m) = ''TypeError''"
| "exn_class (KeyError m) = ''KeyError''"
| "exn_class (RuntimeError m) = ''RuntimeError''"
| "exn_class (AssertionError m) = ''AssertionError''"
| "exn_class (IntegrityError m) = ''IntegrityError''"
| "exn_class (AttemptChangedError m) = ''AttemptChangedError''"
| "exn_class (ModelUnavailableError m) = ''ModelUnavailableError''"
| "exn_class (ConfigError m) = ''ConfigError''"
| "exn_class (PreflightFailure c m) = ''PreflightFailure''"
| "exn_class (AdapterDiagnostic c m) = ''AdapterDiagnostic''"
| "exn_class (SupervisorError c m ws) = ''SupervisorError''"
| "exn_class (AuthSetupError n m) = n"
| "exn_class (CLINotFoundError m) = ''CLINotFoundError''"
| "exn_class (FileNotFoundError m) = ''FileNotFoundError''"
| "exn_class (ProcessError m) = ''ProcessError''"
| "exn_class (BrokenPipeError m) = ''BrokenPipeError''"
| "exn_class (ConnectionResetError m) = ''ConnectionResetError''"
| "exn_class (EOFError m) = ''EOFError''"
| "exn_class (TimeoutError m) = ''TimeoutError''"
| "exn_class CancelledError = ''CancelledError''"
| "exn_class (OtherError n m) = n"

definition exn_text :: "py_exn \<Rightarrow> string" where
  "exn_text e = (if exn_message e = [] then exn_class e else exn_message e)"

named_theorems res_simps \<open>inversion of sequences of fallible operations\<close>

definition res_bind :: "('e + 'a) \<Rightarrow> ('a \<Rightarrow> 'e + 'b) \<Rightarrow> 'e + 'b" where
  "res_bind m f = (case m of Inl e \<Rightarrow> Inl e | Inr x \<Rightarrow> f x)"

definition require :: "bool \<Rightarrow> 'e \<Rightarrow> 'e + unit" where
  "require b e = (if b then Inr () else Inl e)"

lemma res_bind_Inl [simp]: "res_bind (Inl e) f = Inl e"
  by (simp add: res_bind_def)

lemma res_bind_Inr [simp]: "res_bind (Inr x) f = f x"
  by (simp add: res_bind_def)

lemma require_simps [simp]:
  "require True e = Inr ()" "require False e = Inl e"
  by (simp_all add: require_def)

lemma res_bind_eq_Inr [res_simps]: "res_bind m f = Inr y \<longleftrightarrow> (\<exists>x. m = Inr x \<and> f x = Inr y)"
  by (cases m) auto

lemma require_eq_Inr [res_simps]: "require b e = Inr u \<longleftrightarrow> b"
  by (simp add: require_def)

lemma res_bind_eq_Inl:
  "res_bind m f = Inl e \<longleftrightarrow> m = Inl e \<or> (\<exists>x. m = Inr x \<and> f x = Inl e)"
  by (cases m) auto

lemma require_eq_Inl: "require b e = Inl e' \<longleftrightarrow> \<not> b \<and> e' = e"
  by (auto simp: require_def)

lemma res_bind_cong [fundef_cong]:
  "m = m' \<Longrightarrow> (\<And>x. m' = Inr x \<Longrightarrow> f x = f' x) \<Longrightarrow> res_bind m f = res_bind m' f'"
  by (cases m') auto

section \<open>Insertion-ordered dictionaries\<close>

fun assoc_put :: "'k \<Rightarrow> 'v \<Rightarrow> ('k \<times> 'v) list \<Rightarrow> ('k \<times> 'v) list" where
  "assoc_put k v [] = [(k, v)]"
| "assoc_put k v ((k', v') # d) = (if k' = k then (k, v) # d else (k', v') # assoc_put k v d)"

definition assoc_pop :: "'k \<Rightarrow> ('k \<times> 'v) list \<Rightarrow> ('k \<times> 'v) list" where
  "assoc_pop k d = filter (\<lambda>(k', _). k' \<noteq> k) d"

definition has_key :: "'k \<Rightarrow> ('k \<times> 'v) list \<Rightarrow> bool" where
  "has_key k d = (k \<in> set (map fst d))"

lemma map_of_assoc_put [simp]: "map_of (assoc_put k v d) = (map_of d)(k \<mapsto> v)"
  by (induction k v d rule: assoc_put.induct) (auto simp: fun_eq_iff)

lemma fst_assoc_put:
  "map fst (assoc_put k v d) = (if k \<in> fst ` set d then map fst d else map fst d @ [k])"
  by (induction k v d rule: assoc_put.induct) auto

lemma keys_assoc_put [simp]: "fst ` set (assoc_put k v d) = insert k (fst ` set d)"
  by (induction k v d rule: assoc_put.induct) auto

lemma distinct_assoc_put [simp]:
  "distinct (map fst d) \<Longrightarrow> distinct (map fst (assoc_put k v d))"
  by (auto simp: fst_assoc_put)

lemma length_assoc_put:
  "length (assoc_put k v d) = (if k \<in> fst ` set d then length d else Suc (length d))"
  by (induction k v d rule: assoc_put.induct) auto

lemma assoc_put_new: "k \<notin> fst ` set d \<Longrightarrow> assoc_put k v d = d @ [(k, v)]"
  by (induction k v d rule: assoc_put.induct) auto

lemma set_assoc_put_subset: "set (assoc_put k v d) \<subseteq> insert (k, v) (set d)"
  by (induction k v d rule: assoc_put.induct) auto

lemma map_of_assoc_pop [simp]: "map_of (assoc_pop k d) = (map_of d)(k := None)"
  by (induction d) (auto simp: assoc_pop_def fun_eq_iff)

lemma distinct_assoc_pop: "distinct (map fst d) \<Longrightarrow> distinct (map fst (assoc_pop k d))"
  by (induction d) (auto simp: assoc_pop_def)

lemma has_key_map_of: "has_key k d \<longleftrightarrow> map_of d k \<noteq> None"
  by (auto simp: has_key_def map_of_eq_None_iff)

lemma has_key_simps [simp]:
  "\<not> has_key k []"
  "has_key k ((k', v) # d) \<longleftrightarrow> k = k' \<or> has_key k d"
  by (auto simp: has_key_def)

section \<open>Lists without repetition, in first-seen order\<close>

definition add_once :: "'a \<Rightarrow> 'a list \<Rightarrow> 'a list" where
  "add_once x xs = (if x \<in> set xs then xs else xs @ [x])"

lemma set_add_once [simp]: "set (add_once x xs) = insert x (set xs)"
  by (auto simp: add_once_def)

lemma distinct_add_once [simp]: "distinct (add_once x xs) = distinct xs"
  by (auto simp: add_once_def)

lemma prefix_add_once [simp]: "prefix xs (add_once x xs)"
  by (simp add: add_once_def)

text \<open>\<open>tuple(dict.fromkeys(xs))\<close>: the elements of \<open>xs\<close> in the order they first occur.\<close>

definition dedup :: "'a list \<Rightarrow> 'a list" where
  "dedup xs = fold add_once xs []"

lemma fold_add_once_distinct: "distinct ys \<Longrightarrow> distinct (fold add_once xs ys)"
  by (induction xs arbitrary: ys) auto

lemma fold_add_once_set: "set (fold add_once xs ys) = set xs \<union> set ys"
  by (induction xs arbitrary: ys) auto

lemma fold_add_once_fresh:
  "distinct (ys @ xs) \<Longrightarrow> fold add_once xs ys = ys @ xs"
  by (induction xs arbitrary: ys) (auto simp: add_once_def)

lemma fold_add_once_known: "set xs \<subseteq> set ys \<Longrightarrow> fold add_once xs ys = ys"
  by (induction xs arbitrary: ys) (auto simp: add_once_def)

lemma distinct_dedup [simp]: "distinct (dedup xs)"
  by (simp add: dedup_def fold_add_once_distinct)

lemma set_dedup [simp]: "set (dedup xs) = set xs"
  by (simp add: dedup_def fold_add_once_set)

lemma dedup_id: "distinct xs \<Longrightarrow> dedup xs = xs"
  by (simp add: dedup_def fold_add_once_fresh)

lemma dedup_append: "dedup (xs @ ys) = fold add_once ys (dedup xs)"
  by (simp add: dedup_def)

section \<open>First occurrences\<close>

lemma split_first_Cons:
  "(\<exists>pre t post. x # xs = pre @ t # post \<and> P pre t \<and> (\<forall>u \<in> set pre. Q u)) \<longleftrightarrow>
   P [] x \<or> (Q x \<and> (\<exists>pre t post. xs = pre @ t # post \<and> P (x # pre) t \<and> (\<forall>u \<in> set pre. Q u)))"
  (is "?l \<longleftrightarrow> ?r")
proof
  assume ?l
  then obtain pre t post where l: "x # xs = pre @ t # post" "P pre t" "\<forall>u \<in> set pre. Q u" by blast
  show ?r
  proof (cases pre)
    case (Cons y ys)
    with l have "y = x" "xs = ys @ t # post" "Q x" "\<forall>u \<in> set ys. Q u" by auto
    with l(2) Cons show ?thesis by blast
  qed (use l in simp)
next
  assume ?r
  then show ?l
  proof
    assume "P [] x"
    then show ?l by (intro exI [of _ "[]"] exI [of _ x] exI [of _ xs]) simp
  next
    assume "Q x \<and> (\<exists>pre t post. xs = pre @ t # post \<and> P (x # pre) t \<and> (\<forall>u \<in> set pre. Q u))"
    then obtain pre t post where "Q x" "xs = pre @ t # post" "P (x # pre) t" "\<forall>u \<in> set pre. Q u"
      by blast
    then show ?l by (intro exI [of _ "x # pre"] exI [of _ t] exI [of _ post]) simp
  qed
qed

lemma split_rev:
  "(\<exists>pre t post. rev xs = pre @ t # post \<and> P t \<and> (\<forall>u \<in> set pre. Q u)) \<longleftrightarrow>
   (\<exists>pre t post. xs = pre @ t # post \<and> P t \<and> (\<forall>u \<in> set post. Q u))" (is "?l \<longleftrightarrow> ?r")
proof
  assume ?l
  then obtain pre t post where "rev xs = pre @ t # post" "P t" "\<forall>u \<in> set pre. Q u" by blast
  moreover from this(1) have "xs = rev post @ t # rev pre" by (simp add: rev_swap)
  ultimately show ?r by (metis set_rev)
next
  assume ?r
  then obtain pre t post where "xs = pre @ t # post" "P t" "\<forall>u \<in> set post. Q u" by blast
  moreover from this(1) have "rev xs = rev post @ t # rev pre" by simp
  ultimately show ?l by (metis set_rev)
qed

end
