(* ===== verification/Py_Text.thy ===== *)
theory Py_Text
  imports Prelude
begin

text \<open>
  Python's string operations as the code uses them, over \<open>string\<close>. A character of the model
  is one code point below U+0100; \<open>length\<close> is Python's \<open>len\<close>.

  The second half is the library of redaction: \<open>masks u v\<close> says that \<open>v\<close> is \<open>u\<close> with some
  slices replaced by the redaction mark, whatever chose the slices. A text that does not
  contain a maskable secret does not get to contain it by masking (\<open>masks_keeps_clean\<close>),
  and \<open>str.replace\<close> by the mark removes the secret it looks for (\<open>py_replace_removes\<close>).
\<close>

section \<open>Searching, replacing, splitting\<close>

fun starts_with :: "string \<Rightarrow> string \<Rightarrow> bool" where
  "starts_with [] s = True"
| "starts_with (p # ps) [] = False"
| "starts_with (p # ps) (c # s) = (p = c \<and> starts_with ps s)"

definition ends_with :: "string \<Rightarrow> string \<Rightarrow> bool" where
  "ends_with p s = starts_with (rev p) (rev s)"

text \<open>\<open>sub in s\<close>.\<close>

fun contains :: "string \<Rightarrow> string \<Rightarrow> bool" where
  "contains sub [] = (sub = [])"
| "contains sub (c # s) = (starts_with sub (c # s) \<or> contains sub s)"

text \<open>\<open>s.replace(old, new)\<close>; an empty \<open>old\<close> matches between all characters.\<close>

function py_replace :: "string \<Rightarrow> string \<Rightarrow> string \<Rightarrow> string" where
  "py_replace old new s =
     (if old = [] then concat (map (\<lambda>c. new @ [c]) s) @ new
      else case s of
        [] \<Rightarrow> []
      | c # t \<Rightarrow> if starts_with old s then new @ py_replace old new (drop (length old) s)
                 else c # py_replace old new t)"
  by pat_completeness auto
termination
  by (relation "measure (\<lambda>(old, new, s). length s)") (auto simp: neq_Nil_conv)

declare py_replace.simps [simp del]

text \<open>\<open>s.count(sub)\<close> for a non-empty \<open>sub\<close>: occurrences that do not overlap.\<close>

function py_count :: "string \<Rightarrow> string \<Rightarrow> nat" where
  "py_count sub s =
     (if sub = [] then Suc (length s)
      else case s of
        [] \<Rightarrow> 0
      | c # t \<Rightarrow> if starts_with sub s then Suc (py_count sub (drop (length sub) s))
                 else py_count sub t)"
  by pat_completeness auto
termination
  by (relation "measure (\<lambda>(sub, s). length s)") (auto simp: neq_Nil_conv)

declare py_count.simps [simp del]

text \<open>\<open>str.isspace\<close> of one character: the blanks and the separators U+001C to U+001F, and the
  Latin-1 blanks U+0085 and U+00A0.\<close>

definition is_py_space :: "char \<Rightarrow> bool" where
  "is_py_space c = (let n = of_char c :: nat in
     (9 \<le> n \<and> n \<le> 13) \<or> (28 \<le> n \<and> n \<le> 32) \<or> n = 133 \<or> n = 160)"

definition py_strip :: "string \<Rightarrow> string" where
  "py_strip s = rev (dropWhile is_py_space (rev (dropWhile is_py_space s)))"

text \<open>\<open>s.split()\<close> on runs of white space, and \<open>sep.join(parts)\<close>.\<close>

function py_split :: "string \<Rightarrow> string list" where
  "py_split s = (case dropWhile is_py_space s of
      [] \<Rightarrow> []
    | c # t \<Rightarrow> (c # takeWhile (\<lambda>x. \<not> is_py_space x) t)
               # py_split (dropWhile (\<lambda>x. \<not> is_py_space x) t))"
  by pat_completeness auto
termination
proof (relation "measure length")
  fix s c t assume "dropWhile is_py_space s = c # t"
  then have "length (c # t) \<le> length s"
    by (metis length_dropWhile_le)
  then show "(dropWhile (\<lambda>x. \<not> is_py_space x) t, s) \<in> measure length"
    using length_dropWhile_le [of "\<lambda>x. \<not> is_py_space x" t] by simp
qed simp

declare py_split.simps [simp del]

fun py_join :: "string \<Rightarrow> string list \<Rightarrow> string" where
  "py_join sep [] = []"
| "py_join sep [x] = x"
| "py_join sep (x # y # xs) = x @ sep @ py_join sep (y # xs)"

text \<open>\<open>s.split("/")\<close> on a one-character separator keeps the empty parts.\<close>

fun split_on :: "char \<Rightarrow> string \<Rightarrow> string list" where
  "split_on d [] = [[]]"
| "split_on d (c # s) =
     (if c = d then [] # split_on d s
      else case split_on d s of [] \<Rightarrow> [[c]] | p # ps \<Rightarrow> (c # p) # ps)"

lemma split_on_not_Nil [simp]: "split_on d s \<noteq> []"
  by (induction s) (auto split: list.splits)

lemma join_split_on: "py_join [d] (split_on d s) = s"
proof (induction s)
  case (Cons c s)
  obtain p ps where ps: "split_on d s = p # ps"
    by (cases "split_on d s") auto
  with Cons show ?case
    by (cases ps) auto
qed simp

section \<open>Occurrences\<close>

lemma starts_with_iff: "starts_with p s \<longleftrightarrow> (\<exists>t. s = p @ t)"
  by (induction p s rule: starts_with.induct) auto

lemma starts_with_Nil2 [simp]: "starts_with p [] \<longleftrightarrow> p = []"
  by (cases p) auto

lemma starts_with_append [simp]: "starts_with p (p @ t)"
  by (auto simp: starts_with_iff)

lemma contains_iff: "contains sub s \<longleftrightarrow> (\<exists>a b. s = a @ sub @ b)"
proof (induction s)
  case (Cons c s)
  show ?case
  proof
    assume "contains sub (c # s)"
    then consider "starts_with sub (c # s)" | "contains sub s"
      by auto
    then show "\<exists>a b. c # s = a @ sub @ b"
    proof cases
      case 1
      then show ?thesis by (metis append_Nil starts_with_iff)
    next
      case 2
      then show ?thesis using Cons by (metis append_Cons)
    qed
  next
    assume "\<exists>a b. c # s = a @ sub @ b"
    then obtain a b where ab: "c # s = a @ sub @ b" by blast
    show "contains sub (c # s)"
    proof (cases a)
      case Nil
      with ab show ?thesis by (metis append_Nil contains.simps(2) starts_with_append)
    next
      case (Cons a' as)
      with ab have "s = as @ sub @ b" by simp
      then show ?thesis using Cons.IH by auto
    qed
  qed
qed auto

lemma contains_refl [simp]: "contains s s"
  unfolding contains_iff by (metis append_Nil append_Nil2)

lemma contains_mono: "contains s u \<Longrightarrow> contains s (a @ u @ b)"
  unfolding contains_iff by (metis append.assoc)

lemma contains_append1 [intro]: "contains s u \<Longrightarrow> contains s (u @ b)"
  using contains_mono [of s u "[]" b] by simp

lemma contains_append2 [intro]: "contains s u \<Longrightarrow> contains s (a @ u)"
  using contains_mono [of s u a "[]"] by simp

lemma contains_set: "contains s u \<Longrightarrow> set s \<subseteq> set u"
  by (auto simp: contains_iff)

lemma contains_trans: "contains r s \<Longrightarrow> contains s t \<Longrightarrow> contains r t"
  unfolding contains_iff by (metis append.assoc)

text \<open>A character that the searched text does not have separates its occurrences.\<close>

lemma starts_with_separator:
  "d \<notin> set s \<Longrightarrow> starts_with s (a @ d # b) \<longleftrightarrow> starts_with s a"
  by (induction s a rule: starts_with.induct) auto

lemma contains_separator:
  "d \<notin> set s \<Longrightarrow> contains s (a @ d # b) \<longleftrightarrow> contains s a \<or> contains s b"
proof (induction a)
  case Nil
  then have "starts_with s (d # b) \<longleftrightarrow> s = []"
    by (cases s) auto
  then show ?case by auto
next
  case (Cons c a)
  then show ?case
    using starts_with_separator [of d s "c # a" b] by auto
qed

lemma starts_with_snoc:
  "s \<noteq> [] \<Longrightarrow> last s \<noteq> d \<Longrightarrow> starts_with s (a @ [d]) \<longleftrightarrow> starts_with s a"
  by (induction s a rule: starts_with.induct) (auto split: if_splits)

lemma contains_snoc:
  "s \<noteq> [] \<Longrightarrow> last s \<noteq> d \<Longrightarrow> contains s (a @ [d]) \<longleftrightarrow> contains s a"
proof (induction a)
  case Nil
  then show ?case using starts_with_snoc [of s d "[]"] by simp
next
  case (Cons c a)
  then show ?case using starts_with_snoc [of s d "c # a"] by simp
qed

lemma contains_snoc_block:
  "s \<noteq> [] \<Longrightarrow> last s \<noteq> d \<Longrightarrow> set b \<subseteq> {d} \<Longrightarrow> contains s (a @ b) \<longleftrightarrow> contains s a"
proof (induction b rule: rev_induct)
  case (snoc c b)
  then have "contains s ((a @ b) @ [c]) \<longleftrightarrow> contains s (a @ b)"
    by (intro contains_snoc) auto
  with snoc show ?case by simp
qed simp

lemma contains_take: "contains s (take n u) \<Longrightarrow> contains s u"
  by (metis append_take_drop_id contains_append1)

section \<open>Masking\<close>

definition redaction_mark :: string where
  "redaction_mark = ''[REDACTED]''"

text \<open>The secrets that a mark cannot hide by accident: not part of the mark's own text.\<close>

definition maskable :: "string \<Rightarrow> bool" where
  "maskable s = (s \<noteq> [] \<and> CHR ''['' \<notin> set s \<and> CHR '']'' \<notin> set s \<and> \<not> contains s ''REDACTED'')"

inductive masks :: "string \<Rightarrow> string \<Rightarrow> bool" where
  masks_Nil: "masks [] []"
| masks_keep: "masks u v \<Longrightarrow> masks (c # u) (c # v)"
| masks_slice: "masks u v \<Longrightarrow> masks (x @ u) (redaction_mark @ v)"

lemma masks_refl [simp]: "masks u u"
  by (induction u) (auto intro: masks.intros)

lemma contains_mark:
  assumes "maskable s"
  shows "contains s (a @ redaction_mark @ b) \<longleftrightarrow> contains s a \<or> contains s b"
proof -
  have eq: "a @ redaction_mark @ b = a @ CHR ''['' # (''REDACTED'' @ CHR '']'' # b)"
    by (simp add: redaction_mark_def)
  show ?thesis
    using assms unfolding eq maskable_def
    using contains_separator [of "CHR ''[''" s a] contains_separator [of "CHR '']''" s "''REDACTED''" b]
    by blast
qed

lemma masks_keeps_clean_aux:
  assumes "masks u v" and "maskable s"
  shows "\<not> contains s (a @ u) \<Longrightarrow> \<not> contains s (a @ v)"
  using assms(1)
proof (induction arbitrary: a rule: masks.induct)
  case (masks_keep u v c)
  from masks_keep.IH [of "a @ [c]"] masks_keep.prems show ?case by simp
next
  case (masks_slice u v x)
  from masks_slice.prems have "\<not> contains s a" and "\<not> contains s u"
    by (auto dest: contains_append1 contains_append2)
  moreover from masks_slice.IH [of "[]"] \<open>\<not> contains s u\<close> have "\<not> contains s v" by simp
  ultimately show ?case by (simp add: contains_mark [OF assms(2)])
qed simp

lemma masks_keeps_clean:
  "masks u v \<Longrightarrow> maskable s \<Longrightarrow> \<not> contains s u \<Longrightarrow> \<not> contains s v"
  using masks_keeps_clean_aux [of u v s "[]"] by simp

lemma py_replace_masks: "old \<noteq> [] \<Longrightarrow> masks u (py_replace old redaction_mark u)"
proof (induction old redaction_mark u rule: py_replace.induct)
  case (1 old s)
  show ?case
  proof (cases s)
    case Nil
    with "1.prems" show ?thesis by (simp add: py_replace.simps masks_Nil)
  next
    case (Cons c t)
    show ?thesis
    proof (cases "starts_with old s")
      case True
      with 1 Cons have "masks (drop (length old) s)
          (py_replace old redaction_mark (drop (length old) s))" by simp
      then have "masks (take (length old) s @ drop (length old) s)
          (redaction_mark @ py_replace old redaction_mark (drop (length old) s))"
        by (rule masks_slice)
      with True Cons "1.prems" show ?thesis
        by (subst py_replace.simps) simp
    next
      case False
      with 1 Cons show ?thesis
        by (subst py_replace.simps) (auto intro: masks_keep)
    qed
  qed
qed

lemma py_replace_removes_aux:
  assumes "maskable s"
  shows "(\<And>i. i < length a \<Longrightarrow> \<not> starts_with s (drop i (a @ u))) \<Longrightarrow>
         \<not> contains s (a @ py_replace s redaction_mark u)"
proof (induction u arbitrary: a rule: length_induct)
  case (1 u)
  have ne: "s \<noteq> []" using assms by (simp add: maskable_def)
  have clean: "\<not> contains s a"
  proof
    assume "contains s a"
    then obtain x y where "a = x @ s @ y" by (auto simp: contains_iff)
    then have "starts_with s (drop (length x) (a @ u))" "length x < length a"
      using ne by auto
    with "1.prems" show False by blast
  qed
  show ?case
  proof (cases u)
    case Nil
    with clean ne show ?thesis by (simp add: py_replace.simps)
  next
    case (Cons c t)
    show ?thesis
    proof (cases "starts_with s u")
      case True
      have "\<not> contains s ([] @ py_replace s redaction_mark (drop (length s) u))"
        using "1.IH" Cons ne by (intro allI impI "1.IH" [rule_format]) auto
      with clean have "\<not> contains s (a @ redaction_mark
          @ py_replace s redaction_mark (drop (length s) u))"
        by (simp add: contains_mark [OF assms])
      with True Cons ne show ?thesis by (subst py_replace.simps) simp
    next
      case False
      have "\<not> contains s ((a @ [c]) @ py_replace s redaction_mark t)"
      proof (rule "1.IH" [rule_format])
        show "length t < length u" using Cons by simp
        fix i assume "i < length (a @ [c])"
        then consider "i < length a" | "i = length a" by fastforce
        then show "\<not> starts_with s (drop i ((a @ [c]) @ t))"
        proof cases
          case 1
          with "1.prems" Cons show ?thesis by simp
        next
          case 2
          with False Cons show ?thesis by simp
        qed
      qed
      with False Cons ne show ?thesis by (subst py_replace.simps) simp
    qed
  qed
qed

lemma py_replace_removes: "maskable s \<Longrightarrow> \<not> contains s (py_replace s redaction_mark u)"
  using py_replace_removes_aux [of s "[]" u] by simp

end
