(* ===== verification/Py_Regex.thy ===== *)
theory Py_Regex
  imports Py_Text
begin

text \<open>
  The fragment of Python's \<open>re\<close> that the patterns of the code use, as a backtracking matcher.

  \<open>rx_match r prev s\<close> lists, in the order the engine tries them, the ways in which \<open>r\<close>
  matches at the front of \<open>s\<close>; \<open>prev\<close> is the character before \<open>s\<close> (for look-behind and
  \<open>\b\<close>), and each result is the last consumed character and the text left. The first entry
  is the match \<open>re\<close> returns, so \<open>rx_sub\<close> replaces the leftmost match, at the extent the
  engine chooses, again and again. Repetitions are greedy; the bodies that are repeated
  without a bound consume at least one character in every pattern of the code, so the number
  of rounds is bounded by the length of the text.

  \<open>rx_sub_masks\<close>: substituting the redaction mark only replaces slices.
\<close>

section \<open>Character classes\<close>

definition code_point :: "char \<Rightarrow> nat" where
  "code_point c = of_char c"

definition is_digit :: "char \<Rightarrow> bool" where
  "is_digit c = (48 \<le> code_point c \<and> code_point c \<le> 57)"

definition is_upper :: "char \<Rightarrow> bool" where
  "is_upper c = (65 \<le> code_point c \<and> code_point c \<le> 90)"

definition is_lower :: "char \<Rightarrow> bool" where
  "is_lower c = (97 \<le> code_point c \<and> code_point c \<le> 122)"

definition is_alnum :: "char \<Rightarrow> bool" where
  "is_alnum c = (is_digit c \<or> is_upper c \<or> is_lower c)"

definition alnum_or :: "string \<Rightarrow> char \<Rightarrow> bool" where
  "alnum_or extra c = (is_alnum c \<or> List.member extra c)"

text \<open>Case-insensitive comparison with a lower-case letter.\<close>

definition to_lower :: "char \<Rightarrow> char" where
  "to_lower c = (if is_upper c then char_of (code_point c + 32) else c)"

text \<open>\<open>\w\<close> on code points below U+0100.\<close>

definition is_word :: "char \<Rightarrow> bool" where
  "is_word c = (is_alnum c \<or> (let n = code_point c in
     n = 95 \<or> n = 170 \<or> n = 178 \<or> n = 179 \<or> n = 181 \<or> n = 185 \<or> n = 186
     \<or> (188 \<le> n \<and> n \<le> 190) \<or> (192 \<le> n \<and> n \<noteq> 215 \<and> n \<noteq> 247)))"

section \<open>Patterns and matching\<close>

datatype rx =
    RxEps
  | RxChar "char \<Rightarrow> bool"
  | RxSeq rx rx
  | RxAlt rx rx
  | RxRep nat "nat option" rx
  | RxNotBehind "char \<Rightarrow> bool"
  | RxNotAhead "char \<Rightarrow> bool"
  | RxBoundary
  | RxStart
  | RxEnd

type_synonym rx_pos = "char option \<times> string"

text \<open>\<open>rx_repeat m lo k\<close>: at most \<open>k\<close> more rounds of \<open>m\<close>, at least \<open>lo\<close>; longest first.\<close>

primrec rx_repeat ::
  "(char option \<Rightarrow> string \<Rightarrow> rx_pos list) \<Rightarrow> nat \<Rightarrow> nat \<Rightarrow> char option \<Rightarrow> string \<Rightarrow> rx_pos list" where
  "rx_repeat m 0 lo prev s = (if lo = 0 then [(prev, s)] else [])"
| "rx_repeat m (Suc k) lo prev s =
     concat (map (\<lambda>(p, t). rx_repeat m k (lo - 1) p t) (m prev s))
     @ (if lo = 0 then [(prev, s)] else [])"

definition opt_holds :: "(char \<Rightarrow> bool) \<Rightarrow> char option \<Rightarrow> bool" where
  "opt_holds p c = (case c of None \<Rightarrow> False | Some x \<Rightarrow> p x)"

definition head_opt :: "string \<Rightarrow> char option" where
  "head_opt s = (case s of [] \<Rightarrow> None | c # _ \<Rightarrow> Some c)"

primrec rx_match :: "rx \<Rightarrow> char option \<Rightarrow> string \<Rightarrow> rx_pos list" where
  "rx_match RxEps = (\<lambda>prev s. [(prev, s)])"
| "rx_match (RxChar p) = (\<lambda>prev s. case s of [] \<Rightarrow> [] | c # t \<Rightarrow> if p c then [(Some c, t)] else [])"
| "rx_match (RxSeq a b) =
     (\<lambda>prev s. concat (map (\<lambda>(p, t). rx_match b p t) (rx_match a prev s)))"
| "rx_match (RxAlt a b) = (\<lambda>prev s. rx_match a prev s @ rx_match b prev s)"
| "rx_match (RxRep lo hi r) =
     (\<lambda>prev s. rx_repeat (rx_match r) (case hi of None \<Rightarrow> length s | Some h \<Rightarrow> h) lo prev s)"
| "rx_match (RxNotBehind p) = (\<lambda>prev s. if opt_holds p prev then [] else [(prev, s)])"
| "rx_match (RxNotAhead p) = (\<lambda>prev s. if opt_holds p (head_opt s) then [] else [(prev, s)])"
| "rx_match RxBoundary =
     (\<lambda>prev s. if opt_holds is_word prev \<noteq> opt_holds is_word (head_opt s) then [(prev, s)] else [])"
| "rx_match RxStart = (\<lambda>prev s. if prev = None then [(prev, s)] else [])"
| "rx_match RxEnd = (\<lambda>prev s. if s = [] then [(prev, s)] else [])"

text \<open>\<open>pattern.fullmatch\<close>, \<open>pattern.match\<close>, \<open>pattern.search\<close> as truth values.\<close>

definition rx_fullmatch :: "rx \<Rightarrow> string \<Rightarrow> bool" where
  "rx_fullmatch r s = list_ex (\<lambda>(p, t). t = []) (rx_match r None s)"

fun rx_search_from :: "rx \<Rightarrow> char option \<Rightarrow> string \<Rightarrow> bool" where
  "rx_search_from r prev [] = (rx_match r prev [] \<noteq> [])"
| "rx_search_from r prev (c # s) = (rx_match r prev (c # s) \<noteq> [] \<or> rx_search_from r (Some c) s)"

definition rx_search :: "rx \<Rightarrow> string \<Rightarrow> bool" where
  "rx_search r s = rx_search_from r None s"

text \<open>
  \<open>pattern.sub(mark, text)\<close> for patterns that match no empty text; the guard on the length
  of the rest holds for them.
\<close>

function rx_sub_from :: "rx \<Rightarrow> char option \<Rightarrow> string \<Rightarrow> string" where
  "rx_sub_from r prev [] = []"
| "rx_sub_from r prev (c # s) =
     (case rx_match r prev (c # s) of
        (p, t) # _ \<Rightarrow> if length t < Suc (length s) then redaction_mark @ rx_sub_from r p t
                      else c # rx_sub_from r (Some c) s
      | [] \<Rightarrow> c # rx_sub_from r (Some c) s)"
  by pat_completeness auto
termination
  by (relation "measure (\<lambda>(r, prev, s). length s)") auto

definition rx_sub :: "rx \<Rightarrow> string \<Rightarrow> string" where
  "rx_sub r s = rx_sub_from r None s"

section \<open>Pattern notation\<close>

fun rx_seq :: "rx list \<Rightarrow> rx" where
  "rx_seq [] = RxEps"
| "rx_seq [r] = r"
| "rx_seq (r # q # rs) = RxSeq r (rx_seq (q # rs))"

fun rx_alt :: "rx list \<Rightarrow> rx" where
  "rx_alt [] = RxChar (\<lambda>_. False)"
| "rx_alt [r] = r"
| "rx_alt (r # q # rs) = RxAlt r (rx_alt (q # rs))"

definition rx_lit :: "string \<Rightarrow> rx" where
  "rx_lit s = rx_seq (map (\<lambda>x. RxChar (\<lambda>c. c = x)) s)"

text \<open>A literal under \<open>re.IGNORECASE\<close>, given in lower case.\<close>

definition rx_lit_ci :: "string \<Rightarrow> rx" where
  "rx_lit_ci s = rx_seq (map (\<lambda>x. RxChar (\<lambda>c. to_lower c = x)) s)"

definition rx_class :: "string \<Rightarrow> rx" where
  "rx_class s = RxChar (\<lambda>c. List.member s c)"

definition rx_opt :: "rx \<Rightarrow> rx" where
  "rx_opt r = RxRep 0 (Some 1) r"

section \<open>Every match leaves a suffix\<close>

lemma rx_repeat_suffix:
  assumes "\<And>p t prev s. (p, t) \<in> set (m prev s) \<Longrightarrow> suffix t s"
  shows "(p, t) \<in> set (rx_repeat m k lo prev s) \<Longrightarrow> suffix t s"
proof (induction k arbitrary: lo prev s)
  case (Suc k)
  then consider "(p, t) = (prev, s)"
    | p' t' where "(p', t') \<in> set (m prev s)" "(p, t) \<in> set (rx_repeat m k (lo - 1) p' t')"
    by (auto split: if_splits)
  then show ?case
  proof cases
    case 2
    with Suc.IH assms show ?thesis by (blast intro: suffix_order.trans)
  qed simp
qed (auto split: if_splits)

lemma rx_match_suffix: "(p, t) \<in> set (rx_match r prev s) \<Longrightarrow> suffix t s"
proof (induction r arbitrary: p t prev s)
  case (RxSeq a b)
  then obtain p' t' where "(p', t') \<in> set (rx_match a prev s)" "(p, t) \<in> set (rx_match b p' t')"
    by auto
  with RxSeq.IH show ?case by (blast intro: suffix_order.trans)
next
  case (RxRep lo hi r)
  from RxRep.prems show ?case
    by (auto dest!: rx_repeat_suffix [rotated] dest: RxRep.IH)
qed (auto split: list.splits if_splits intro: suffix_ConsI)

lemma rx_sub_from_masks: "masks s (rx_sub_from r prev s)"
proof (induction r prev s rule: rx_sub_from.induct)
  case (2 r prev c s)
  have keep: "masks s (rx_sub_from r (Some c) s) \<Longrightarrow> masks (c # s) (c # rx_sub_from r (Some c) s)"
    by (rule masks_keep)
  show ?case
  proof (cases "rx_match r prev (c # s)")
    case Nil
    with 2 show ?thesis by (auto intro: keep)
  next
    case (Cons m ms)
    obtain p t where m: "m = (p, t)" by force
    with Cons have "(p, t) \<in> set (rx_match r prev (c # s))" by simp
    then have "suffix t (c # s)" by (rule rx_match_suffix)
    then obtain x where x: "c # s = x @ t" by (auto simp: suffix_def)
    show ?thesis
    proof (cases "length t < Suc (length s)")
      case True
      with 2 Cons m have "masks t (rx_sub_from r p t)" by simp
      then have "masks (x @ t) (redaction_mark @ rx_sub_from r p t)" by (rule masks_slice)
      then have "masks (c # s) (redaction_mark @ rx_sub_from r p t)" by (simp only: x)
      with True Cons m show ?thesis by simp
    next
      case False
      with 2 Cons m show ?thesis by (auto intro: keep)
    qed
  qed
qed (simp add: masks_Nil)

lemma rx_sub_masks: "masks s (rx_sub r s)"
  by (simp add: rx_sub_def rx_sub_from_masks)

lemma rx_fullmatch_seq_end:
  "rx_fullmatch (RxSeq r RxEnd) s \<longleftrightarrow> rx_fullmatch r s"
  by (auto simp: rx_fullmatch_def list_ex_iff split: if_splits)

end
