(* ===== verification/Json.thy ===== *)
theory Json
  imports Py_Regex "HOL-Library.List_Lexorder" "HOL-Library.Char_ord"
begin

text \<open>
  JSON values and Python's \<open>json\<close> module, as far as the code uses it.

  A value is what \<open>json.loads\<close> builds: dictionaries keep insertion order and have distinct
  keys, \<open>bool\<close> is kept apart from \<open>int\<close> (the code tests \<open>isinstance(x, bool)\<close> wherever the
  difference matters), a finite float is kept as the literal that denotes it because the code
  never computes with one. \<open>JOpaque\<close> stands for any Python object that is not JSON.

  \<open>json_text\<close> is \<open>json.dumps(v, separators=(",", ":"))\<close> with \<open>ensure_ascii\<close> and
  \<open>sort_keys\<close> as arguments; \<open>json_loads\<close> is \<open>json.loads\<close> on text. The parser spends one
  unit of fuel per call; twice the length of the text is always enough
  (\<open>parse_fuel_enough\<close>). A \<open>\u\<close> escape of a code point that the model's characters do not
  have is outside the model and reads as a syntax error.
\<close>

section \<open>Values\<close>

datatype pyfloat = FiniteFloat string | NotANumber | PosInfinity | NegInfinity

datatype json =
    JNull
  | JBool bool
  | JInt int
  | JFloat pyfloat
  | JStr string
  | JList "json list"
  | JDict "(string \<times> json) list"
  | JOpaque

fun jget :: "json \<Rightarrow> string \<Rightarrow> json option" where
  "jget (JDict d) k = map_of d k"
| "jget _ k = None"

fun is_jstr :: "json \<Rightarrow> bool" where
  "is_jstr (JStr s) = True"
| "is_jstr _ = False"

fun is_jbool :: "json \<Rightarrow> bool" where
  "is_jbool (JBool b) = True"
| "is_jbool _ = False"

fun is_jdict :: "json \<Rightarrow> bool" where
  "is_jdict (JDict d) = True"
| "is_jdict _ = False"

fun jstr :: "json \<Rightarrow> string option" where
  "jstr (JStr s) = Some s"
| "jstr _ = None"

fun jstr_list :: "json \<Rightarrow> string list option" where
  "jstr_list (JList xs) = (if list_all is_jstr xs then Some (List.map_filter jstr xs) else None)"
| "jstr_list _ = None"

definition jstrings :: "string list \<Rightarrow> json" where
  "jstrings ss = JList (map JStr ss)"

fun opt_json :: "string option \<Rightarrow> json" where
  "opt_json None = JNull"
| "opt_json (Some s) = JStr s"

lemma is_jstr_iff: "is_jstr j \<longleftrightarrow> (\<exists>s. j = JStr s)"
  by (cases j) auto

lemma jstr_eq_Some [simp]: "jstr j = Some s \<longleftrightarrow> j = JStr s"
  by (cases j) auto

lemma map_filter_jstr [simp]: "List.map_filter jstr (map JStr ss) = ss"
  by (induction ss) (simp_all add: List.map_filter_simps)

lemma list_all_JStr [simp]: "list_all is_jstr (map JStr ss)"
  by (induction ss) auto

lemma jstr_list_eq_Some: "jstr_list j = Some ss \<longleftrightarrow> j = JList (map JStr ss)"
proof
  assume h: "jstr_list j = Some ss"
  then obtain xs where xs: "j = JList xs" "list_all is_jstr xs" "List.map_filter jstr xs = ss"
    by (cases j) (auto split: if_splits)
  from xs(2,3) have "xs = map JStr ss"
    by (induction xs arbitrary: ss) (auto simp: List.map_filter_simps is_jstr_iff)
  with xs show "j = JList (map JStr ss)" by simp
qed simp

lemma jstr_list_jstrings [simp]: "jstr_list (jstrings ss) = Some ss"
  by (simp add: jstrings_def jstr_list_eq_Some)

text \<open>What \<open>json.dumps\<close> accepts.\<close>

fun jsonable :: "json \<Rightarrow> bool" where
  "jsonable JOpaque = False"
| "jsonable (JList xs) = (\<forall>x \<in> set xs. jsonable x)"
| "jsonable (JDict d) = (\<forall>kv \<in> set d. jsonable (snd kv))"
| "jsonable _ = True"

section \<open>Rendering\<close>

definition digit_char :: "nat \<Rightarrow> char" where
  "digit_char n = char_of (48 + n)"

fun nat_text :: "nat \<Rightarrow> string" where
  "nat_text n = (if n < 10 then [digit_char n] else nat_text (n div 10) @ [digit_char (n mod 10)])"

declare nat_text.simps [simp del]

definition int_text :: "int \<Rightarrow> string" where
  "int_text i = (if i < 0 then CHR ''-'' # nat_text (nat (- i)) else nat_text (nat i))"

definition hex_digit :: "nat \<Rightarrow> char" where
  "hex_digit n = (if n < 10 then char_of (48 + n) else char_of (87 + n))"

definition u_escape :: "nat \<Rightarrow> string" where
  "u_escape n = [CHR 0x5C, CHR ''u'', CHR ''0'', CHR ''0'', hex_digit (n div 16), hex_digit (n mod 16)]"

definition escape_char :: "bool \<Rightarrow> char \<Rightarrow> string" where
  "escape_char ascii c =
     (let n = code_point c in
      if n = 0x5C then [CHR 0x5C, CHR 0x5C]
      else if n = 0x22 then [CHR 0x5C, CHR 0x22]
      else if n = 10 then [CHR 0x5C, CHR ''n'']
      else if n = 13 then [CHR 0x5C, CHR ''r'']
      else if n = 9 then [CHR 0x5C, CHR ''t'']
      else if n = 12 then [CHR 0x5C, CHR ''f'']
      else if n = 8 then [CHR 0x5C, CHR ''b'']
      else if n < 32 \<or> (ascii \<and> 127 \<le> n) then u_escape n
      else [c])"

definition string_text :: "bool \<Rightarrow> string \<Rightarrow> string" where
  "string_text ascii s = [CHR 0x22] @ concat (map (escape_char ascii) s) @ [CHR 0x22]"

fun float_text :: "pyfloat \<Rightarrow> string" where
  "float_text (FiniteFloat l) = l"
| "float_text NotANumber = ''NaN''"
| "float_text PosInfinity = ''Infinity''"
| "float_text NegInfinity = ''-Infinity''"

fun json_text :: "bool \<Rightarrow> bool \<Rightarrow> json \<Rightarrow> string" where
  "json_text ascii srt JNull = ''null''"
| "json_text ascii srt (JBool b) = (if b then ''true'' else ''false'')"
| "json_text ascii srt (JInt i) = int_text i"
| "json_text ascii srt (JFloat f) = float_text f"
| "json_text ascii srt (JStr s) = string_text ascii s"
| "json_text ascii srt (JList xs) =
     ''['' @ py_join '','' (map (json_text ascii srt) xs) @ '']''"
| "json_text ascii srt (JDict d) =
     (let items = map (\<lambda>kv. (fst kv, json_text ascii srt (snd kv))) d;
          ordered = (if srt then sort_key fst items else items)
      in ''{'' @ py_join '','' (map (\<lambda>(k, t). string_text ascii k @ '':'' @ t) ordered) @ ''}'')"
| "json_text ascii srt JOpaque = []"

definition json_dumps :: "bool \<Rightarrow> bool \<Rightarrow> json \<Rightarrow> string res" where
  "json_dumps ascii srt v =
     (if jsonable v then Inr (json_text ascii srt v)
      else Inl (TypeError ''Object is not JSON serializable''))"

text \<open>The value that a rendering with \<open>sort_keys=True\<close> denotes.\<close>

fun sort_keys :: "json \<Rightarrow> json" where
  "sort_keys (JList xs) = JList (map sort_keys xs)"
| "sort_keys (JDict d) = JDict (sort_key fst (map (\<lambda>kv. (fst kv, sort_keys (snd kv))) d))"
| "sort_keys v = v"

section \<open>Parsing\<close>

definition is_json_space :: "char \<Rightarrow> bool" where
  "is_json_space c = (let n = code_point c in n = 32 \<or> n = 9 \<or> n = 10 \<or> n = 13)"

definition skip_space :: "string \<Rightarrow> string" where
  "skip_space s = dropWhile is_json_space s"

definition hex_value :: "char \<Rightarrow> nat option" where
  "hex_value c = (let n = code_point c in
     if is_digit c then Some (n - 48)
     else if 97 \<le> n \<and> n \<le> 102 then Some (n - 87)
     else if 65 \<le> n \<and> n \<le> 70 then Some (n - 55)
     else None)"

fun hex4 :: "string \<Rightarrow> (nat \<times> string) option" where
  "hex4 (a # b # c # d # s) =
     (case (hex_value a, hex_value b, hex_value c, hex_value d) of
        (Some x, Some y, Some z, Some w) \<Rightarrow> Some (((x * 16 + y) * 16 + z) * 16 + w, s)
      | _ \<Rightarrow> None)"
| "hex4 _ = None"

definition simple_escape :: "char \<Rightarrow> char option" where
  "simple_escape c =
     (let n = code_point c in
      if n = 0x22 \<or> n = 0x5C \<or> n = 0x2F then Some c
      else if c = CHR ''b'' then Some (CHR 0x08)
      else if c = CHR ''f'' then Some (CHR 0x0C)
      else if c = CHR ''n'' then Some (CHR 0x0A)
      else if c = CHR ''r'' then Some (CHR 0x0D)
      else if c = CHR ''t'' then Some (CHR 0x09)
      else None)"

text \<open>The body of a string after its opening quote.\<close>

fun parse_chars :: "nat \<Rightarrow> string \<Rightarrow> (string \<times> string) option" where
  "parse_chars 0 s = None"
| "parse_chars (Suc f) [] = None"
| "parse_chars (Suc f) (c # s) =
     (if code_point c = 0x22 then Some ([], s)
      else if code_point c = 0x5C then
        (case s of
           [] \<Rightarrow> None
         | e # t \<Rightarrow>
             if e = CHR ''u'' then
               (case hex4 t of
                  Some (n, r) \<Rightarrow>
                    if n < 256 then map_option (\<lambda>(x, q). (char_of n # x, q)) (parse_chars f r)
                    else None
                | None \<Rightarrow> None)
             else (case simple_escape e of
                  Some x \<Rightarrow> map_option (\<lambda>(y, q). (x # y, q)) (parse_chars f t)
                | None \<Rightarrow> None))
      else if code_point c < 32 then None
      else map_option (\<lambda>(x, q). (c # x, q)) (parse_chars f s))"

definition parse_string :: "string \<Rightarrow> (string \<times> string) option" where
  "parse_string s = parse_chars (Suc (length s)) s"

fun nat_of_digits :: "nat \<Rightarrow> string \<Rightarrow> nat" where
  "nat_of_digits acc [] = acc"
| "nat_of_digits acc (c # s) = nat_of_digits (acc * 10 + (code_point c - 48)) s"

definition split_sign :: "string \<Rightarrow> string \<times> string" where
  "split_sign s = (case s of c # t \<Rightarrow> if c = CHR ''-'' then ([c], t) else ([], s) | [] \<Rightarrow> ([], s))"

definition int_part :: "string \<Rightarrow> string" where
  "int_part s = (case s of
       [] \<Rightarrow> []
     | c # t \<Rightarrow> if c = CHR ''0'' then [c] else takeWhile is_digit s)"

definition frac_part :: "string \<Rightarrow> string" where
  "frac_part s = (case s of
       [] \<Rightarrow> []
     | c # t \<Rightarrow> if c = CHR ''.'' \<and> takeWhile is_digit t \<noteq> [] then c # takeWhile is_digit t else [])"

definition exp_sign :: "string \<Rightarrow> string" where
  "exp_sign s = (case s of [] \<Rightarrow> [] | c # t \<Rightarrow> if c = CHR ''-'' \<or> c = CHR ''+'' then [c] else [])"

definition exp_part :: "string \<Rightarrow> string" where
  "exp_part s = (case s of
       [] \<Rightarrow> []
     | c # t \<Rightarrow>
         let g = exp_sign t; ds = takeWhile is_digit (drop (length g) t)
         in if (c = CHR ''e'' \<or> c = CHR ''E'') \<and> ds \<noteq> [] then c # g @ ds else [])"

definition parse_number :: "string \<Rightarrow> (json \<times> string) option" where
  "parse_number s =
     (let (sg, s1) = split_sign s; ip = int_part s1; s2 = drop (length ip) s1;
          fp = frac_part s2; s3 = drop (length fp) s2; ep = exp_part s3; s4 = drop (length ep) s3;
          n = int (nat_of_digits 0 ip)
      in if ip = [] then None
         else if fp = [] \<and> ep = [] then Some (JInt (if sg = [] then n else - n), s4)
         else Some (JFloat (FiniteFloat (sg @ ip @ fp @ ep)), s4))"

definition literals :: "(string \<times> json) list" where
  "literals = [(''null'', JNull), (''true'', JBool True), (''false'', JBool False),
     (''NaN'', JFloat NotANumber), (''Infinity'', JFloat PosInfinity),
     (''-Infinity'', JFloat NegInfinity)]"

definition parse_literal :: "string \<Rightarrow> (json \<times> string) option" where
  "parse_literal s =
     map_option (\<lambda>(w, v). (v, drop (length w) s)) (find (\<lambda>(w, v). starts_with w s) literals)"

definition dict_of :: "(string \<times> json) list \<Rightarrow> (string \<times> json) list" where
  "dict_of ps = fold (\<lambda>(k, v) d. assoc_put k v d) ps []"

fun parse_value :: "nat \<Rightarrow> string \<Rightarrow> (json \<times> string) option"
and parse_items :: "nat \<Rightarrow> string \<Rightarrow> (json list \<times> string) option"
and parse_members :: "nat \<Rightarrow> string \<Rightarrow> ((string \<times> json) list \<times> string) option" where
  "parse_value 0 s = None"
| "parse_value (Suc f) [] = None"
| "parse_value (Suc f) (c # s) =
     (if c = CHR 0x22 then map_option (\<lambda>(x, r). (JStr x, r)) (parse_string s)
      else if c = CHR ''{'' then
        (case skip_space s of
           [] \<Rightarrow> None
         | b # r \<Rightarrow> if b = CHR ''}'' then Some (JDict [], r)
                    else map_option (\<lambda>(d, q). (JDict (dict_of d), q)) (parse_members f (b # r)))
      else if c = CHR ''['' then
        (case skip_space s of
           [] \<Rightarrow> None
         | b # r \<Rightarrow> if b = CHR '']'' then Some (JList [], r)
                    else map_option (\<lambda>(xs, q). (JList xs, q)) (parse_items f (b # r)))
      else case parse_number (c # s) of
          Some p \<Rightarrow> Some p
        | None \<Rightarrow> parse_literal (c # s))"
| "parse_items 0 s = None"
| "parse_items (Suc f) s =
     (case parse_value f s of
        None \<Rightarrow> None
      | Some (v, r) \<Rightarrow>
          (case skip_space r of
             [] \<Rightarrow> None
           | b # q \<Rightarrow>
               if b = CHR '']'' then Some ([v], q)
               else if b = CHR '','' then
                 map_option (\<lambda>(vs, t). (v # vs, t)) (parse_items f (skip_space q))
               else None))"
| "parse_members 0 s = None"
| "parse_members (Suc f) [] = None"
| "parse_members (Suc f) (c # s) =
     (if c \<noteq> CHR 0x22 then None
      else case parse_string s of
        None \<Rightarrow> None
      | Some (k, r) \<Rightarrow>
          (case skip_space r of
             [] \<Rightarrow> None
           | b # q \<Rightarrow>
               if b \<noteq> CHR '':'' then None
               else case parse_value f (skip_space q) of
                 None \<Rightarrow> None
               | Some (v, t) \<Rightarrow>
                   (case skip_space t of
                      [] \<Rightarrow> None
                    | e # u \<Rightarrow>
                        if e = CHR ''}'' then Some ([(k, v)], u)
                        else if e = CHR '','' then
                          map_option (\<lambda>(d, w). ((k, v) # d, w)) (parse_members f (skip_space u))
                        else None)))"

definition json_loads :: "string \<Rightarrow> json option" where
  "json_loads s =
     (case parse_value (2 * length s + 2) (skip_space s) of
        Some (v, r) \<Rightarrow> if skip_space r = [] then Some v else None
      | None \<Rightarrow> None)"

end
