(* ===== verification/Json_Codec.thy ===== *)
theory Json_Codec
  imports Json
begin

text \<open>
  Correctness of the JSON layer: the parser's fuel is never what stops it, and reading back a
  rendered value gives that value (with its keys sorted when it was rendered so). The two facts
  are what every component that stores or sends JSON relies on; the interface is the locale
  \<open>json_codec\<close>, interpreted on \<open>json_text\<close> and \<open>json_loads\<close>.
\<close>

section \<open>The parser shrinks its input\<close>

lemma length_skip_space: "length (skip_space s) \<le> length s"
  by (simp add: skip_space_def length_dropWhile_le)

lemma skip_space_length: "skip_space s = c # t \<Longrightarrow> length t < length s"
  using length_skip_space [of s] by simp

lemma hex4_shrinks: "hex4 s = Some (n, r) \<Longrightarrow> length r < length s"
  by (induction s rule: hex4.induct) (auto split: option.splits)

lemma parse_chars_shrinks: "parse_chars f s = Some (x, r) \<Longrightarrow> length r < length s"
proof (induction f s arbitrary: x r rule: parse_chars.induct)
  case (3 f c s)
  then show ?case
    by (fastforce split: if_splits list.splits option.splits dest!: hex4_shrinks)
qed simp_all

lemma parse_string_shrinks: "parse_string s = Some (x, r) \<Longrightarrow> length r < length s"
  by (auto simp: parse_string_def dest: parse_chars_shrinks)

lemma split_sign_length: "split_sign s = (a, b) \<Longrightarrow> length b \<le> length s"
  by (auto simp: split_sign_def split: list.splits if_splits)

lemma int_part_length: "int_part s \<noteq> [] \<Longrightarrow> 0 < length (int_part s) \<and> s \<noteq> []"
  by (cases s) (auto simp: int_part_def)

lemma parse_number_shrinks: "parse_number s = Some (v, r) \<Longrightarrow> length r < length s"
proof -
  assume h: "parse_number s = Some (v, r)"
  obtain sg s1 where s1: "split_sign s = (sg, s1)" by force
  with h have ip: "int_part s1 \<noteq> []"
    and r: "length r \<le> length (drop (length (int_part s1)) s1)"
    by (auto simp: parse_number_def Let_def split: if_splits)
  from ip have "length (drop (length (int_part s1)) s1) < length s1"
    by (auto dest: int_part_length)
  with r split_sign_length [OF s1] show ?thesis by simp
qed

lemma parse_literal_shrinks: "parse_literal s = Some (v, r) \<Longrightarrow> length r < length s"
proof -
  assume "parse_literal s = Some (v, r)"
  then obtain w u where w: "(w, u) \<in> set literals" "starts_with w s" "r = drop (length w) s"
    by (auto simp: parse_literal_def find_Some_iff) (metis nth_mem)
  then have "w \<noteq> []" by (auto simp: literals_def)
  with w show ?thesis by (auto simp: starts_with_iff)
qed

lemma parse_shrinks:
  "parse_value f s = Some (v, r) \<Longrightarrow> length r < length s"
  "parse_items f s = Some (vs, r) \<Longrightarrow> length r < length s"
  "parse_members f s = Some (d, r) \<Longrightarrow> length r < length s"
proof (induction f s and f s and f s arbitrary: v r and vs r and d r
    rule: parse_value_parse_items_parse_members.induct)
  case (3 f c s)
  consider "c = CHR 0x22" | "c = CHR ''{''" | "c = CHR ''[''"
    | "c \<noteq> CHR 0x22" "c \<noteq> CHR ''{''" "c \<noteq> CHR ''[''" by blast
  then show ?case
  proof cases
    case 1
    with "3.prems" show ?thesis by (auto dest!: parse_string_shrinks)
  next
    case 2
    with "3.prems" obtain b t where bt: "skip_space s = b # t" by (auto split: list.splits)
    show ?thesis
    proof (cases "b = CHR ''}''")
      case True
      with 2 bt "3.prems" show ?thesis using skip_space_length [OF bt] by simp
    next
      case False
      with 2 bt "3.prems" obtain d where "parse_members f (b # t) = Some (d, r)" by auto
      with "3.IH"(1) 2 bt False have "length r < length (b # t)" by simp
      then show ?thesis using skip_space_length [OF bt] by simp
    qed
  next
    case 3
    with "3.prems" obtain b t where bt: "skip_space s = b # t" by (auto split: list.splits)
    show ?thesis
    proof (cases "b = CHR '']''")
      case True
      with 3 bt "3.prems" show ?thesis using skip_space_length [OF bt] by simp
    next
      case False
      with 3 bt "3.prems" obtain d where "parse_items f (b # t) = Some (d, r)" by auto
      with "3.IH"(2) 3 bt False have "length r < length (b # t)" by simp
      then show ?thesis using skip_space_length [OF bt] by simp
    qed
  next
    case 4
    with "3.prems" show ?thesis
      by (auto split: option.splits dest: parse_number_shrinks parse_literal_shrinks)
  qed
next
  case (5 f s)
  then obtain v t where v: "parse_value f s = Some (v, t)" by (auto split: option.splits)
  with "5.prems" obtain b q where b: "skip_space t = b # q" by (auto split: list.splits)
  have q: "length q < length s"
    using "5.IH"(1) [OF v] skip_space_length [OF b] by simp
  show ?case
  proof (cases "b = CHR '']''")
    case True
    with "5.prems" v b q show ?thesis by simp
  next
    case False
    with "5.prems" v b have c: "b = CHR '',''" by (auto split: if_splits)
    with "5.prems" v b obtain ws where "parse_items f (skip_space q) = Some (ws, r)" by auto
    with "5.IH"(2) v b c have "length r < length (skip_space q)" by simp
    then show ?thesis using q length_skip_space [of q] by simp
  qed
next
  case (8 f c s)
  then obtain k t where k: "c = CHR 0x22" "parse_string s = Some (k, t)"
    by (auto split: option.splits if_splits)
  with "8.prems" obtain b q where b: "skip_space t = b # q" "b = CHR '':''"
    by (auto split: list.splits if_splits)
  with k "8.prems" obtain v u where v: "parse_value f (skip_space q) = Some (v, u)"
    by (auto split: option.splits)
  with b k "8.prems" obtain e w where e: "skip_space u = e # w" by (auto split: list.splits)
  have "length u < length (skip_space q)"
    using "8.IH"(1) k b v by simp
  then have w: "length w < length s"
    using skip_space_length [OF e] length_skip_space [of q] skip_space_length [OF b(1)]
      parse_string_shrinks [OF k(2)] by simp
  show ?case
  proof (cases "e = CHR ''}''")
    case True
    with "8.prems" k b v e w show ?thesis by simp
  next
    case False
    with "8.prems" k b v e obtain ds where ds: "e = CHR '',''"
      "parse_members f (skip_space w) = Some (ds, r)" by (auto split: if_splits)
    with "8.IH"(2) k b v e have "length r < length (skip_space w)" by simp
    then show ?thesis using w length_skip_space [of w] by simp
  qed
qed simp_all

section \<open>Enough fuel\<close>

lemma parse_fuel_step:
  "2 * length s < f \<Longrightarrow> parse_value (Suc f) s = parse_value f s"
  "2 * length s + 1 < f \<Longrightarrow> parse_items (Suc f) s = parse_items f s"
  "2 * length s < f \<Longrightarrow> parse_members (Suc f) s = parse_members f s"
proof (induction f s and f s and f s rule: parse_value_parse_items_parse_members.induct)
  case (3 f c s)
  have shorter: "2 * length (b # t) + 1 < f" if "skip_space s = b # t" for b t
    using that "3.prems" length_skip_space [of s] by simp
  show ?case
    unfolding parse_value.simps
    by (intro if_cong list.case_cong refl arg_cong [where f = "map_option _"])
      (use "3.IH" shorter in \<open>auto dest: add_lessD1\<close>)
next
  case (5 f s)
  have v: "parse_value (Suc f) s = parse_value f s"
    using 5 by simp
  have i: "parse_items (Suc f) (skip_space q) = parse_items f (skip_space q)"
    if "parse_value f s = Some (w, t)" "skip_space t = b # q" "b = CHR '',''" for w t b q
  proof -
    have "length (skip_space q) < length s"
      using parse_shrinks(1) [OF that(1)] skip_space_length [OF that(2)] length_skip_space [of q]
      by simp
    with "5.IH"(2) [OF that(1) refl that(2) _ that(3)] that(3) "5.prems" show ?thesis by simp
  qed
  show ?case
    unfolding parse_items.simps(2) v
    by (intro if_cong list.case_cong option.case_cong prod.case_cong refl
        arg_cong [where f = "map_option _"]) (use i in auto)
next
  case (8 f c s)
  show ?case
  proof (cases "c = CHR 0x22 \<and> (\<exists>k t b q. parse_string s = Some (k, t)
      \<and> skip_space t = b # q \<and> b = CHR '':'')")
    case False
    then show ?thesis by (auto split: option.splits list.splits)
  next
    case True
    then obtain k t b q where k: "c = CHR 0x22" "parse_string s = Some (k, t)"
      "skip_space t = b # q" "b = CHR '':''" by blast
    have lq: "length (skip_space q) < length s"
      using parse_string_shrinks [OF k(2)] skip_space_length [OF k(3)] length_skip_space [of q]
      by simp
    then have v: "parse_value (Suc f) (skip_space q) = parse_value f (skip_space q)"
      using "8.IH"(1) k "8.prems" by simp
    have m: "parse_members (Suc f) (skip_space u) = parse_members f (skip_space u)"
      if "parse_value f (skip_space q) = Some (w, r)" "skip_space r = e # u" "e = CHR '',''"
      for w r e u
    proof -
      have "length (skip_space u) < length s"
        using parse_shrinks(1) [OF that(1)] skip_space_length [OF that(2)] length_skip_space [of u] lq
        by simp
      with "8.IH"(2) k that "8.prems" show ?thesis by simp
    qed
    from k v m show ?thesis
      by (auto split: option.splits list.splits)
  qed
qed simp_all

lemma parse_fuel_enough:
  "2 * length s < f \<Longrightarrow> f \<le> g \<Longrightarrow> parse_value g s = parse_value f s"
proof (induction g)
  case (Suc g)
  then show ?case
    by (cases "f = Suc g") (auto simp: parse_fuel_step(1))
qed simp

section \<open>Strings and numbers read back\<close>

lemma code_point_less [simp]: "code_point c < 256"
  unfolding code_point_def by (cases c) (rule nat_of_char_less_256)

lemma char_of_code_point [simp]: "char_of (code_point c) = c"
  by (simp add: code_point_def)

lemma code_point_char: "n < 256 \<Longrightarrow> code_point (char_of n) = n"
  by (simp add: code_point_def)

lemma code_point_eq_iff: "n < 256 \<Longrightarrow> code_point c = n \<longleftrightarrow> c = char_of n"
  by (metis char_of_code_point code_point_char)

lemma hex_value_digit: "k < 16 \<Longrightarrow> hex_value (hex_digit k) = Some k"
  by (cases "k < 10") (simp_all add: hex_value_def hex_digit_def is_digit_def code_point_char)

lemma hex4_u_escape:
  "n < 256 \<Longrightarrow> hex4 (drop 2 (u_escape n) @ s) = Some (n, s)"
  by (simp add: u_escape_def hex_value_digit)
    (simp add: hex_value_def is_digit_def code_point_def)

lemma code_point_inject [simp]: "code_point c = code_point d \<longleftrightarrow> c = d"
  by (metis char_of_code_point)

lemma code_point_literals:
  "code_point c = 92 \<longleftrightarrow> c = CHR 0x5C" "code_point c = 34 \<longleftrightarrow> c = CHR 0x22"
  "code_point c = 10 \<longleftrightarrow> c = CHR 0x0A" "code_point c = 13 \<longleftrightarrow> c = CHR 0x0D"
  "code_point c = 9 \<longleftrightarrow> c = CHR 0x09" "code_point c = 12 \<longleftrightarrow> c = CHR 0x0C"
  "code_point c = 8 \<longleftrightarrow> c = CHR 0x08"
  by (simp_all add: code_point_inject [symmetric] del: code_point_inject)
    (simp_all add: code_point_def)

lemma parse_escaped:
  "parse_chars (Suc f) (escape_char ascii c @ s) = map_option (\<lambda>(x, q). (c # x, q)) (parse_chars f s)"
proof (cases "c \<in> {CHR 0x5C, CHR 0x22, CHR 0x0A, CHR 0x0D, CHR 0x09, CHR 0x0C, CHR 0x08}")
  case True
  then show ?thesis
    by (auto simp: escape_char_def simple_escape_def code_point_def)
next
  case plain: False
  show ?thesis
  proof (cases "code_point c < 32 \<or> ascii \<and> 127 \<le> code_point c")
    case True
    with plain have e: "escape_char ascii c = u_escape (code_point c)"
      by (simp add: escape_char_def code_point_literals Let_def)
    have d: "u_escape (code_point c) @ s
        = CHR 0x5C # CHR ''u'' # (drop 2 (u_escape (code_point c)) @ s)"
      by (simp add: u_escape_def)
    have "hex4 (drop 2 (u_escape (code_point c)) @ s) = Some (code_point c, s)"
      by (rule hex4_u_escape) simp
    then show ?thesis
      unfolding e d by (simp add: code_point_literals)
  next
    case False
    with plain have e: "escape_char ascii c = [c]"
      by (auto simp: escape_char_def code_point_literals Let_def)
    from False plain show ?thesis by (simp add: e code_point_literals)
  qed
qed

lemma parse_chars_text:
  "length (concat (map (escape_char ascii) s)) < f \<Longrightarrow>
   parse_chars f (concat (map (escape_char ascii) s) @ CHR 0x22 # rest) = Some (s, rest)"
proof (induction s arbitrary: f)
  case Nil
  then show ?case by (cases f) (simp_all add: code_point_def)
next
  case (Cons c s)
  have "escape_char ascii c \<noteq> []"
    by (simp add: escape_char_def u_escape_def Let_def)
  then have "1 \<le> length (escape_char ascii c)" by (simp add: Suc_le_eq)
  with Cons.prems have "length (concat (map (escape_char ascii) s)) < f - 1" by simp
  then obtain g where g: "f = Suc g" "length (concat (map (escape_char ascii) s)) < g"
    by (cases f) auto
  with Cons.IH [of g] show ?case by (simp add: parse_escaped)
qed

lemma parse_string_text:
  "parse_string (concat (map (escape_char ascii) s) @ CHR 0x22 # rest) = Some (s, rest)"
  by (simp add: parse_string_def parse_chars_text)

lemma digit_char_props:
  "n < 10 \<Longrightarrow> is_digit (digit_char n) \<and> code_point (digit_char n) = 48 + n"
  by (simp add: digit_char_def is_digit_def code_point_char)

lemma nat_text_digits: "\<forall>c \<in> set (nat_text n). is_digit c"
proof (induction n rule: nat_text.induct)
  case (1 n)
  then show ?case
    by (subst nat_text.simps) (auto simp: digit_char_props)
qed

lemma nat_text_not_Nil [simp]: "nat_text n \<noteq> []"
  by (subst nat_text.simps) simp

lemma nat_of_digits_snoc:
  "nat_of_digits acc (s @ [c]) = nat_of_digits acc s * 10 + (code_point c - 48)"
  by (induction s arbitrary: acc) auto

lemma nat_of_nat_text: "nat_of_digits 0 (nat_text n) = n"
proof (induction n rule: nat_text.induct)
  case (1 n)
  then show ?case
    by (subst nat_text.simps) (auto simp: nat_of_digits_snoc digit_char_props)
qed

lemma nat_text_hd: "hd (nat_text n) = CHR ''0'' \<Longrightarrow> nat_text n = ''0''"
proof (induction n rule: nat_text.induct)
  case (1 n)
  show ?case
  proof (cases "n < 10")
    case True
    with "1.prems" show ?thesis by (simp add: nat_text.simps [of n])
  next
    case False
    have e: "nat_text n = nat_text (n div 10) @ [digit_char (n mod 10)]"
      using False by (subst nat_text.simps) simp
    with "1.prems" have "nat_text (n div 10) = ''0''"
      using "1.IH" False by simp
    then have "n div 10 = 0"
      using nat_of_nat_text [of "n div 10"] by (simp add: code_point_def)
    with False show ?thesis by simp
  qed
qed

definition number_stop :: "string \<Rightarrow> bool" where
  "number_stop s = (case s of [] \<Rightarrow> True
     | c # _ \<Rightarrow> \<not> is_digit c \<and> c \<noteq> CHR ''.'' \<and> c \<noteq> CHR ''e'' \<and> c \<noteq> CHR ''E'')"

lemma takeWhile_digits_stop:
  "number_stop r \<Longrightarrow> takeWhile is_digit (s @ r) = takeWhile is_digit s"
  by (induction s) (auto simp: number_stop_def split: list.splits)

lemma stop_parts: "number_stop r \<Longrightarrow> frac_part r = []" "number_stop r \<Longrightarrow> exp_part r = []"
  by (auto simp: number_stop_def frac_part_def exp_part_def Let_def split: list.splits)

lemma int_part_nat_text:
  assumes "number_stop r"
  shows "int_part (nat_text n @ r) = nat_text n"
proof -
  obtain c t where ct: "nat_text n = c # t" by (cases "nat_text n") auto
  show ?thesis
  proof (cases "c = CHR ''0''")
    case True
    then have "nat_text n = ''0''" using nat_text_hd [of n] ct by simp
    then show ?thesis by (simp add: int_part_def)
  next
    case False
    moreover have "takeWhile is_digit (nat_text n) = nat_text n"
      using nat_text_digits by simp
    ultimately show ?thesis
      using takeWhile_digits_stop [OF assms, of "nat_text n"] ct by (simp add: int_part_def)
  qed
qed

lemma nat_text_no_sign: "split_sign (nat_text n @ r) = ([], nat_text n @ r)"
proof -
  obtain c t where ct: "nat_text n = c # t" by (cases "nat_text n") auto
  then have "is_digit c" using nat_text_digits [of n] by simp
  then have "c \<noteq> CHR ''-''" by (auto simp: is_digit_def code_point_def)
  with ct show ?thesis by (simp add: split_sign_def)
qed

lemma parse_number_int:
  assumes "number_stop r"
  shows "parse_number (int_text i @ r) = Some (JInt i, r)"
proof (cases "i < 0")
  case True
  then have "split_sign (int_text i @ r) = (''-'', nat_text (nat (- i)) @ r)"
    by (simp add: int_text_def split_sign_def)
  with True show ?thesis
    by (simp add: parse_number_def int_part_nat_text [OF assms] stop_parts [OF assms]
        nat_of_nat_text)
next
  case False
  then have "split_sign (int_text i @ r) = ([], nat_text (nat i) @ r)"
    by (simp add: int_text_def nat_text_no_sign)
  with False show ?thesis
    by (simp add: parse_number_def int_part_nat_text [OF assms] stop_parts [OF assms]
        nat_of_nat_text)
qed

lemma int_text_hd: "\<exists>c t. int_text i = c # t \<and> (is_digit c \<or> c = CHR ''-'')"
proof (cases "i < 0")
  case False
  obtain c t where "nat_text (nat i) = c # t" by (cases "nat_text (nat i)") auto
  with False nat_text_digits [of "nat i"] show ?thesis by (simp add: int_text_def)
qed (simp add: int_text_def)

section \<open>Reading back a rendered value\<close>

text \<open>A float literal is a number token with a fraction or an exponent.\<close>

definition float_literal :: "string \<Rightarrow> bool" where
  "float_literal l = (parse_number l = Some (JFloat (FiniteFloat l), []))"

text \<open>The values \<open>json.loads\<close> can build: no foreign objects, distinct keys, and floats whose
  literal is one.\<close>

fun json_wf :: "json \<Rightarrow> bool" where
  "json_wf JOpaque = False"
| "json_wf (JFloat (FiniteFloat l)) = float_literal l"
| "json_wf (JList xs) = (\<forall>x \<in> set xs. json_wf x)"
| "json_wf (JDict d) = (distinct (map fst d) \<and> (\<forall>kv \<in> set d. json_wf (snd kv)))"
| "json_wf _ = True"

lemma json_wf_jsonable: "json_wf v \<Longrightarrow> jsonable v"
  by (induction v rule: json_wf.induct) auto

lemma dict_of_distinct: "distinct (map fst d) \<Longrightarrow> dict_of d = d"
proof -
  have "fold (\<lambda>(k, v) d. assoc_put k v d) ps acc = acc @ ps"
    if "distinct (map fst (acc @ ps))" for ps acc
    using that
  proof (induction ps arbitrary: acc)
    case (Cons p ps)
    obtain k v where p: "p = (k, v)" by force
    with Cons.prems have "assoc_put k v acc = acc @ [(k, v)]"
      by (auto intro!: assoc_put_new)
    with Cons p show ?case by auto
  qed simp
  from this [of "[]" d] show "distinct (map fst d) \<Longrightarrow> dict_of d = d"
    by (simp add: dict_of_def)
qed

lemma int_part_stop: "int_part s \<noteq> [] \<Longrightarrow> number_stop r \<Longrightarrow> int_part (s @ r) = int_part s"
  by (cases s) (auto simp: int_part_def takeWhile_digits_stop [of r "_ # _", simplified]
      split: if_splits)

lemma frac_part_stop: "number_stop r \<Longrightarrow> frac_part (s @ r) = frac_part s"
proof (cases s)
  case Nil
  then show "number_stop r \<Longrightarrow> ?thesis" by (simp add: stop_parts) (simp add: frac_part_def)
qed (auto simp: frac_part_def takeWhile_digits_stop)

lemma exp_part_stop: "number_stop r \<Longrightarrow> s \<noteq> [] \<Longrightarrow> tl s \<noteq> [] \<Longrightarrow> exp_part (s @ r) = exp_part s"
  by (cases s; cases "tl s") (auto simp: exp_part_def exp_sign_def takeWhile_digits_stop Let_def)

lemma parse_number_literal:
  assumes l: "float_literal l" and r: "number_stop r"
  shows "parse_number (l @ r) = Some (JFloat (FiniteFloat l), r)"
proof -
  obtain sg s1 where s1: "split_sign l = (sg, s1)" by force
  define ip s2 where "ip = int_part s1" and "s2 = drop (length ip) s1"
  define fp s3 where "fp = frac_part s2" and "s3 = drop (length fp) s2"
  define ep where "ep = exp_part s3"
  note parts = ip_def s2_def fp_def s3_def ep_def
  from l have ne: "ip \<noteq> []" "\<not> (fp = [] \<and> ep = [])" and all: "l = sg @ ip @ fp @ ep"
    and rest: "drop (length ep) s3 = []"
    by (auto simp: float_literal_def parse_number_def s1 parts Let_def split: if_splits)
  have lne: "l \<noteq> []" using ne(1) all by simp
  have sg: "split_sign (l @ r) = (sg, s1 @ r)"
    using s1 lne by (cases l) (auto simp: split_sign_def split: if_splits)
  have ip: "int_part (s1 @ r) = ip"
    using int_part_stop [OF _ r] ne(1) by (simp add: ip_def)
  have len_ip: "length ip \<le> length s1"
    by (cases s1) (auto simp: ip_def int_part_def length_takeWhile_le)
  have len_fp: "length fp \<le> length s2"
    by (cases s2) (auto simp: fp_def frac_part_def length_takeWhile_le)
  have s2: "drop (length ip) (s1 @ r) = s2 @ r"
    using len_ip by (simp add: s2_def)
  have fp: "frac_part (s2 @ r) = fp"
    by (simp add: frac_part_stop [OF r] fp_def)
  have s3: "drop (length fp) (s2 @ r) = s3 @ r"
    using len_fp by (simp add: s3_def)
  have ep: "exp_part (s3 @ r) = ep"
  proof (cases "ep = []")
    case True
    with rest have "s3 = []" by simp
    with True show ?thesis by (simp add: stop_parts r)
  next
    case False
    then have "s3 \<noteq> [] \<and> tl s3 \<noteq> []"
      by (cases s3; cases "tl s3") (auto simp: ep_def exp_part_def Let_def split: if_splits)
    then show ?thesis by (simp add: exp_part_stop [OF r] ep_def)
  qed
  have s4: "drop (length ep) (s3 @ r) = r"
  proof -
    have "length ep \<le> length s3"
      using length_drop [of "length ep" s3]
      by (cases s3)
        (auto simp: ep_def exp_part_def exp_sign_def Let_def length_takeWhile_le
          split: list.splits intro: le_trans [OF length_takeWhile_le])
    with rest show ?thesis by simp
  qed
  show ?thesis
    unfolding parse_number_def Let_def sg prod.case ip s2 fp s3 ep s4
    using ne all by auto
qed

lemma float_literal_hd:
  "float_literal l \<Longrightarrow> \<exists>c t. l = c # t \<and> (is_digit c \<or> c = CHR ''-'')"
proof -
  assume l: "float_literal l"
  obtain sg s1 where s1: "split_sign l = (sg, s1)" by force
  with l have ip: "int_part s1 \<noteq> []"
    by (auto simp: float_literal_def parse_number_def Let_def split: if_splits)
  show ?thesis
  proof (cases l)
    case Nil
    with s1 ip show ?thesis by (simp add: split_sign_def int_part_def)
  next
    case (Cons c t)
    show ?thesis
    proof (cases "c = CHR ''-''")
      case False
      with s1 Cons have "s1 = c # t" by (simp add: split_sign_def)
      with ip have "is_digit c"
        by (auto simp: int_part_def is_digit_def code_point_def split: if_splits)
      with Cons show ?thesis by blast
    qed (use Cons in blast)
  qed
qed

lemma number_stop_delims [simp]:
  "number_stop []" "number_stop (CHR '','' # r)" "number_stop (CHR '']'' # r)"
  "number_stop (CHR ''}'' # r)"
  by (simp_all add: number_stop_def is_digit_def code_point_def)

lemma parse_value_number:
  assumes "s = c # t" "is_digit c \<or> c = CHR ''-''" "parse_number s = Some p"
  shows "parse_value (Suc f) s = Some p"
  using assms by (auto simp: is_digit_def code_point_def)

definition value_start :: "string \<Rightarrow> bool" where
  "value_start s = (case s of [] \<Rightarrow> False
     | c # _ \<Rightarrow> \<not> is_json_space c \<and> c \<noteq> CHR '']'' \<and> c \<noteq> CHR ''}'')"

lemma value_start_append [simp]: "value_start s \<Longrightarrow> value_start (s @ r)"
  by (auto simp: value_start_def split: list.splits)

lemma skip_space_start [simp]: "value_start s \<Longrightarrow> skip_space s = s"
  by (auto simp: value_start_def skip_space_def split: list.splits)

lemma skip_space_delims [simp]:
  "skip_space (CHR '','' # r) = CHR '','' # r" "skip_space (CHR '']'' # r) = CHR '']'' # r"
  "skip_space (CHR ''}'' # r) = CHR ''}'' # r" "skip_space (CHR '':'' # r) = CHR '':'' # r"
  "skip_space (CHR 0x22 # r) = CHR 0x22 # r" "skip_space [] = []"
  by (simp_all add: skip_space_def is_json_space_def code_point_def)

lemma value_start_digit:
  "is_digit c \<or> c = CHR ''-'' \<Longrightarrow> value_start (c # t)"
  by (auto simp: value_start_def is_json_space_def is_digit_def code_point_def)

lemma json_text_start: "json_wf v \<Longrightarrow> value_start (json_text ascii False v)"
proof (cases v)
  case (JInt i)
  then show ?thesis using int_text_hd [of i] by (auto simp: value_start_digit)
next
  case (JFloat fl)
  assume "json_wf v"
  with JFloat show ?thesis
    by (cases fl)
      (auto simp: value_start_def is_json_space_def code_point_def
        dest!: float_literal_hd intro: value_start_digit [unfolded value_start_def])
qed (auto simp: value_start_def is_json_space_def code_point_def string_text_def)

lemma parse_items_text:
  assumes "xs \<noteq> []" and "\<forall>x \<in> set xs. value_start (t x)"
    and "\<forall>x \<in> set xs. \<forall>g r. 2 * length (t x) \<le> g \<longrightarrow> number_stop r \<longrightarrow>
           parse_value g (t x @ r) = Some (x, r)"
    and "2 * length (py_join '','' (map t xs)) < f"
  shows "parse_items f (py_join '','' (map t xs) @ CHR '']'' # rest) = Some (xs, rest)"
  using assms
proof (induction xs arbitrary: f)
  case (Cons x xs)
  from Cons.prems(4) obtain g where g: "f = Suc g" by (cases f) auto
  show ?case
  proof (cases xs)
    case Nil
    with Cons.prems g show ?thesis by simp
  next
    case (Cons y ys)
    let ?tail = "py_join '','' (map t xs)"
    have eq: "py_join '','' (map t (x # xs)) = t x @ CHR '','' # ?tail"
      using Cons by simp
    have start: "value_start (?tail @ CHR '']'' # rest)"
      using Cons Cons.prems(2) by (cases ys) auto
    have "parse_value g (t x @ CHR '','' # ?tail @ CHR '']'' # rest)
        = Some (x, CHR '','' # ?tail @ CHR '']'' # rest)"
      using Cons.prems(3,4) g eq by simp
    moreover have "parse_items g (?tail @ CHR '']'' # rest) = Some (xs, rest)"
      using Cons.IH Cons Cons.prems g eq by simp
    ultimately show ?thesis
      unfolding eq g using start by simp
  qed
qed simp

definition member_text :: "bool \<Rightarrow> (json \<Rightarrow> string) \<Rightarrow> string \<times> json \<Rightarrow> string" where
  "member_text ascii t kv = string_text ascii (fst kv) @ '':'' @ t (snd kv)"

lemma parse_members_text:
  assumes "d \<noteq> []" and "\<forall>kv \<in> set d. value_start (t (snd kv))"
    and "\<forall>kv \<in> set d. \<forall>g r. 2 * length (t (snd kv)) \<le> g \<longrightarrow> number_stop r \<longrightarrow>
           parse_value g (t (snd kv) @ r) = Some (snd kv, r)"
    and "2 * length (py_join '','' (map (member_text ascii t) d)) \<le> f"
  shows "parse_members f (py_join '','' (map (member_text ascii t) d) @ CHR ''}'' # rest)
         = Some (d, rest)"
  using assms
proof (induction d arbitrary: f)
  case (Cons kv d)
  obtain k v where kv: "kv = (k, v)" by force
  let ?key = "concat (map (escape_char ascii) k)"
  let ?tail = "py_join '','' (map (member_text ascii t) d)"
  let ?more = "(if d = [] then [] else CHR '','' # ?tail) @ CHR ''}'' # rest"
  have eq: "py_join '','' (map (member_text ascii t) (kv # d)) @ CHR ''}'' # rest
      = CHR 0x22 # ?key @ CHR 0x22 # CHR '':'' # t v @ ?more"
    by (cases d) (simp_all add: member_text_def string_text_def kv)
  have len: "length (py_join '','' (map (member_text ascii t) (kv # d)))
      = length ?key + 3 + length (t v) + (if d = [] then 0 else Suc (length ?tail))"
    by (cases d) (simp_all add: member_text_def string_text_def kv)
  from Cons.prems(4) len obtain g where g: "f = Suc g" by (cases f) auto
  have val: "parse_value g (t v @ ?more) = Some (v, ?more)"
    using Cons.prems(3,4) g len kv by simp
  have start: "value_start (t v @ ?more)"
    using Cons.prems(2) kv by simp
  show ?case
  proof (cases "d = []")
    case True
    with val start show ?thesis
      unfolding eq g by (simp add: parse_string_text kv)
  next
    case False
    then obtain y ys where y: "d = y # ys" by (cases d) auto
    then have "\<exists>u. ?tail = CHR 0x22 # u"
      by (cases ys) (simp_all add: member_text_def string_text_def)
    then have skip: "skip_space (?tail @ CHR ''}'' # rest) = ?tail @ CHR ''}'' # rest"
      by auto
    have "parse_members g (?tail @ CHR ''}'' # rest) = Some (d, rest)"
      using Cons.IH False Cons.prems g len by simp
    with val start skip False show ?thesis
      unfolding eq g by (simp add: parse_string_text kv)
  qed
qed simp

lemma json_text_dict:
  "json_text ascii False (JDict d)
   = ''{'' @ py_join '','' (map (member_text ascii (json_text ascii False)) d) @ ''}''"
  by (simp add: member_text_def [abs_def] comp_def)

lemma dict_of_parsed:
  "distinct (map fst d) \<Longrightarrow>
   map_option (\<lambda>(d, q). (JDict (dict_of d), q)) (Some (d, r)) = Some (JDict d, r)"
  by (simp add: dict_of_distinct)

lemma parse_value_text:
  "json_wf v \<Longrightarrow> 2 * length (json_text ascii False v) \<le> f \<Longrightarrow> number_stop r \<Longrightarrow>
   parse_value f (json_text ascii False v @ r) = Some (v, r)"
proof (induction v arbitrary: f r)
  case JNull
  then show ?case by (cases f) (simp_all add: parse_number_def split_sign_def int_part_def
    is_digit_def code_point_def parse_literal_def literals_def)
next
  case (JBool b)
  then show ?case by (cases f; cases b) (simp_all add: parse_number_def split_sign_def int_part_def
    is_digit_def code_point_def parse_literal_def literals_def)
next
  case (JInt i)
  obtain c t where ct: "int_text i = c # t" "is_digit c \<or> c = CHR ''-''"
    using int_text_hd by blast
  with JInt obtain g where g: "f = Suc g" by (cases f) auto
  have "parse_value (Suc g) (int_text i @ r) = Some (JInt i, r)"
    by (rule parse_value_number [OF _ ct(2) parse_number_int [OF JInt.prems(3)]]) (simp add: ct)
  then show ?case by (simp only: json_text.simps g)
next
  case (JFloat fl)
  show ?case
  proof (cases fl)
    case (FiniteFloat l)
    with JFloat obtain c t where ct: "l = c # t" "is_digit c \<or> c = CHR ''-''"
      using float_literal_hd [of l] by auto
    with JFloat FiniteFloat obtain g where g: "f = Suc g" by (cases f) auto
    have pn: "parse_number (l @ r) = Some (JFloat (FiniteFloat l), r)"
      using JFloat FiniteFloat by (intro parse_number_literal) simp_all
    have "parse_value (Suc g) (l @ r) = Some (JFloat (FiniteFloat l), r)"
      by (rule parse_value_number [OF _ ct(2) pn]) (simp add: ct)
    then show ?thesis by (simp only: FiniteFloat json_text.simps float_text.simps g)
  qed (use JFloat in \<open>cases f; simp add: parse_number_def split_sign_def int_part_def
    is_digit_def code_point_def parse_literal_def literals_def\<close>)+
next
  case (JStr s)
  then show ?case by (cases f) (simp_all add: string_text_def parse_string_text)
next
  case (JList xs)
  show ?case
  proof (cases "xs = []")
    case True
    with JList.prems show ?thesis by (cases f) simp_all
  next
    case False
    let ?t = "json_text ascii False"
    let ?body = "py_join '','' (map ?t xs) @ CHR '']'' # r"
    from JList.prems obtain g where g: "f = Suc g" by (cases f) auto
    have "parse_items g ?body = Some (xs, r)"
      using False JList g by (intro parse_items_text) (auto intro: json_text_start)
    moreover have "value_start ?body"
      using False JList.prems(1) json_text_start
      by (cases xs; cases "tl xs") auto
    moreover then obtain b q where "?body = b # q" "b \<noteq> CHR '']''"
      by (auto simp: value_start_def split: list.splits)
    ultimately show ?thesis
      by (simp add: g)
  qed
next
  case (JDict d)
  show ?case
  proof (cases "d = []")
    case True
    with JDict.prems show ?thesis by (cases f) simp_all
  next
    case False
    let ?t = "json_text ascii False"
    let ?body = "py_join '','' (map (member_text ascii ?t) d) @ CHR ''}'' # r"
    from JDict.prems have len: "2 * (2 + length (py_join '','' (map (member_text ascii ?t) d))) \<le> f"
      unfolding json_text_dict by simp
    then obtain g where g: "f = Suc g" by (cases f) auto
    have p: "parse_members g ?body = Some (d, r)"
    proof (rule parse_members_text [OF False])
      show "\<forall>kv \<in> set d. value_start (?t (snd kv))"
        using JDict.prems(1) by (auto intro: json_text_start)
      show "\<forall>kv \<in> set d. \<forall>g r. 2 * length (?t (snd kv)) \<le> g \<longrightarrow> number_stop r \<longrightarrow>
          parse_value g (?t (snd kv) @ r) = Some (snd kv, r)"
        using JDict.IH JDict.prems(1) by (auto simp: snds.simps)
    qed (use len g in simp)
    have "\<exists>u. ?body = CHR 0x22 # u"
      using False by (cases d; cases "tl d") (simp_all add: member_text_def string_text_def)
    then have "skip_space ?body = ?body" "?body \<noteq> []" "hd ?body \<noteq> CHR ''}''" by auto
    then show ?thesis
      using p g JDict.prems(1) unfolding json_text_dict
      by (cases ?body) (simp_all add: dict_of_distinct)
  qed
qed simp

lemma json_roundtrip: "json_wf v \<Longrightarrow> json_loads (json_text ascii False v) = Some v"
  using parse_value_text [of v ascii "2 * length (json_text ascii False v) + 2" "[]"]
  by (simp add: json_loads_def json_text_start)

section \<open>Sorted keys\<close>

lemma insort_key_map_snd:
  "map (\<lambda>kv. (fst kv, g (snd kv))) (insort_key fst x d)
   = insort_key fst (fst x, g (snd x)) (map (\<lambda>kv. (fst kv, g (snd kv))) d)"
  by (induction d) auto

lemma sort_key_map_snd:
  "sort_key fst (map (\<lambda>kv. (fst kv, g (snd kv))) d)
   = map (\<lambda>kv. (fst kv, g (snd kv))) (sort_key fst d)"
  by (induction d) (auto simp: insort_key_map_snd)

lemma json_text_sorted: "json_text ascii True v = json_text ascii False (sort_keys v)"
proof (induction v)
  case (JList xs)
  then have "map (json_text ascii True) xs = map (json_text ascii False) (map sort_keys xs)"
    by simp
  then show ?case by (simp only: json_text.simps sort_keys.simps)
next
  case (JDict d)
  then have e: "map (\<lambda>kv. (fst kv, json_text ascii True (snd kv))) d
      = map (\<lambda>kv. (fst kv, json_text ascii False (snd kv))) (map (\<lambda>kv. (fst kv, sort_keys (snd kv))) d)"
    by (auto simp: snds.simps)
  show ?case
    unfolding json_text.simps sort_keys.simps Let_def e sort_key_map_snd if_True if_False ..
qed simp_all

lemma json_wf_sort_keys: "json_wf v \<Longrightarrow> json_wf (sort_keys v)"
proof (induction v)
  case (JDict d)
  have "distinct (map fst (sort_key fst (map (\<lambda>kv. (fst kv, sort_keys (snd kv))) d)))"
    using JDict.prems by (simp add: sort_key_map_snd comp_def distinct_map)
  with JDict show ?case by (auto simp: snds.simps)
qed (auto elim: json_wf.elims)

lemma json_roundtrip_sorted: "json_wf v \<Longrightarrow> json_loads (json_text ascii True v) = Some (sort_keys v)"
  by (simp add: json_text_sorted json_roundtrip json_wf_sort_keys)

section \<open>The codec interface\<close>

text \<open>
  What a component that writes JSON text and reads it back later may rely on: rendering a
  well-formed value and parsing the text gives its canonical form, which is again well-formed
  and stable.
\<close>

locale json_codec =
  fixes render :: "json \<Rightarrow> string"
    and parse :: "string \<Rightarrow> json option"
    and canonical :: "json \<Rightarrow> json"
    and valid :: "json \<Rightarrow> bool"
  assumes parse_render: "valid v \<Longrightarrow> parse (render v) = Some (canonical v)"
    and valid_canonical: "valid v \<Longrightarrow> valid (canonical v)"
    and canonical_idem: "canonical (canonical v) = canonical v"
begin

lemma reparse: "valid v \<Longrightarrow> parse (render (canonical v)) = Some (canonical v)"
  by (simp add: parse_render valid_canonical canonical_idem)

lemma render_inj: "valid v \<Longrightarrow> valid w \<Longrightarrow> render v = render w \<Longrightarrow> canonical v = canonical w"
  by (metis option.inject parse_render)

end

lemma sort_keys_idem: "sort_keys (sort_keys v) = sort_keys v"
proof (induction v)
  case (JDict d)
  let ?h = "\<lambda>kv. (fst kv, sort_keys (snd kv))"
  have e: "map ?h (map ?h d) = map ?h d"
    using JDict by (auto simp: snds.simps)
  show ?case
    by (simp add: sort_key_map_snd [symmetric] e del: map_map)
      (simp add: sort_key_id_if_sorted sort_key_map_snd)
qed simp_all

interpretation sorted_codec: json_codec "json_text ascii True" json_loads sort_keys json_wf
  for ascii
  by unfold_locales (simp_all add: json_roundtrip_sorted json_wf_sort_keys sort_keys_idem)

interpretation plain_codec: json_codec "json_text ascii False" json_loads "\<lambda>v. v" json_wf
  for ascii
  by unfold_locales (simp_all add: json_roundtrip)

end
