(* ===== verification/Audit_Report.thy ===== *)
theory Audit_Report
  imports Json_Codec "HOL-Library.Monad_Syntax"
begin

text \<open>
  \<open>src/qworker/audit_report.py\<close> and the audit types of \<open>src/qworker/domain.py\<close>: the strict
  contract of an auditor's report, its parser on decoded values and on text, and the capture
  object behind the \<open>submit_audit\<close> tool.
\<close>

section \<open>Report types\<close>

record audit_finding =
  severity :: string
  evidence :: string
  affected :: "string option"

datatype outcome = OutCompleted | OutPartial | OutBlocked | OutFailed

fun outcome_name :: "outcome \<Rightarrow> string" where
  "outcome_name OutCompleted = ''completed''"
| "outcome_name OutPartial = ''partial''"
| "outcome_name OutBlocked = ''blocked''"
| "outcome_name OutFailed = ''failed''"

record parsed_report =
  p_outcome :: outcome
  p_summary :: string
  p_files :: "string list"
  p_validation :: "string list"
  p_risks :: "string list"
  p_verdict :: string
  p_confirmed :: "string list"
  p_findings :: "audit_finding list"
  p_required_changes :: "string list"

text \<open>\<open>AUDIT_REPORT_OUTCOMES\<close>: what a report may claim; \<open>failed\<close> is the host's alone.\<close>

definition report_outcome :: "string \<Rightarrow> outcome option" where
  "report_outcome s =
     (if s = ''completed'' then Some OutCompleted
      else if s = ''partial'' then Some OutPartial
      else if s = ''blocked'' then Some OutBlocked
      else None)"

definition audit_report_keys :: "string list" where
  "audit_report_keys = [''outcome'', ''summary'', ''files'', ''validation'', ''risks'', ''verdict'',
     ''confirmed'', ''findings'', ''required_changes'']"

definition audit_finding_keys :: "string list" where
  "audit_finding_keys = [''severity'', ''evidence'', ''affected_requirement_or_location'']"

section \<open>Parsing decoded values\<close>

definition same_keys :: "json \<Rightarrow> string list \<Rightarrow> bool" where
  "same_keys j ks = (case j of JDict d \<Rightarrow> set (map fst d) = set ks | _ \<Rightarrow> False)"

fun opt_str :: "json \<Rightarrow> string option option" where
  "opt_str JNull = Some None"
| "opt_str (JStr s) = Some (Some s)"
| "opt_str _ = None"

text \<open>\<open>payload.get(k)\<close> with the type test of the field.\<close>

definition field_str :: "json \<Rightarrow> string \<Rightarrow> string option" where
  "field_str j k = Option.bind (jget j k) jstr"

definition field_strs :: "json \<Rightarrow> string \<Rightarrow> string list option" where
  "field_strs j k = Option.bind (jget j k) jstr_list"

definition field_opt :: "json \<Rightarrow> string \<Rightarrow> string option option" where
  "field_opt j k = Option.bind (jget j k) opt_str"

definition field_outcome :: "json \<Rightarrow> string \<Rightarrow> outcome option" where
  "field_outcome j k = Option.bind (field_str j k) report_outcome"

definition parse_finding :: "json \<Rightarrow> audit_finding option" where
  "parse_finding item =
     (if \<not> same_keys item audit_finding_keys then None
      else do {
        sev \<leftarrow> field_str item ''severity'';
        ev \<leftarrow> field_str item ''evidence'';
        aff \<leftarrow> field_opt item ''affected_requirement_or_location'';
        Some \<lparr>severity = sev, evidence = ev, affected = aff\<rparr>
      })"

fun traverse :: "('a \<Rightarrow> 'b option) \<Rightarrow> 'a list \<Rightarrow> 'b list option" where
  "traverse f [] = Some []"
| "traverse f (x # xs) =
     (case f x of None \<Rightarrow> None | Some y \<Rightarrow> map_option (\<lambda>ys. y # ys) (traverse f xs))"

definition parse_findings :: "json \<Rightarrow> audit_finding list option" where
  "parse_findings v = (case v of JList items \<Rightarrow> traverse parse_finding items | _ \<Rightarrow> None)"

definition field_findings :: "json \<Rightarrow> string \<Rightarrow> audit_finding list option" where
  "field_findings j k = Option.bind (jget j k) parse_findings"

definition parse_audit_report_payload :: "json \<Rightarrow> parsed_report option" where
  "parse_audit_report_payload payload =
     (if \<not> same_keys payload audit_report_keys then None
      else do {
        oc \<leftarrow> field_outcome payload ''outcome'';
        su \<leftarrow> field_str payload ''summary'';
        fi \<leftarrow> field_strs payload ''files'';
        va \<leftarrow> field_strs payload ''validation'';
        ri \<leftarrow> field_strs payload ''risks'';
        ve \<leftarrow> field_str payload ''verdict'';
        co \<leftarrow> field_strs payload ''confirmed'';
        fs \<leftarrow> field_findings payload ''findings'';
        rc \<leftarrow> field_strs payload ''required_changes'';
        Some \<lparr>p_outcome = oc, p_summary = su, p_files = fi, p_validation = va, p_risks = ri,
              p_verdict = ve, p_confirmed = co, p_findings = fs, p_required_changes = rc\<rparr>
      })"

section \<open>Parsing text\<close>

definition fence :: string where
  "fence = ''```''"

definition fence_prefix :: string where
  "fence_prefix = fence @ ''json'' @ [CHR 0x0A]"

definition fence_suffix :: string where
  "fence_suffix = [CHR 0x0A] @ fence"

text \<open>The candidate text: stripped, and out of a single \<open>json\<close> fence. Where the two fences
  overlap the slice is empty.\<close>

definition unfence :: "string \<Rightarrow> string" where
  "unfence text =
     (let c = py_strip text in
      if starts_with fence_prefix c \<and> ends_with fence_suffix c \<and> py_count fence c = 2
      then take (length c - length fence_suffix - length fence_prefix) (drop (length fence_prefix) c)
      else c)"

definition parse_audit_report_text :: "string option \<Rightarrow> parsed_report option" where
  "parse_audit_report_text result_text =
     (case result_text of
        None \<Rightarrow> None
      | Some text \<Rightarrow> Option.bind (json_loads (unfence text)) parse_audit_report_payload)"

section \<open>The capture behind \<open>submit_audit\<close>\<close>

record report_capture =
  report_text :: "string option"

definition new_capture :: report_capture where
  "new_capture = \<lparr>report_text = None\<rparr>"

definition record_report :: "report_capture \<Rightarrow> json \<Rightarrow> report_capture \<times> bool" where
  "record_report cap payload =
     (if parse_audit_report_payload payload = None then (cap, False)
      else (cap\<lparr>report_text := Some (json_text False True payload)\<rparr>, True))"

section \<open>Acceptance is exactly the contract\<close>

definition finding_json :: "audit_finding \<Rightarrow> json" where
  "finding_json f = JDict
     [(''severity'', JStr (severity f)), (''evidence'', JStr (evidence f)),
      (''affected_requirement_or_location'', opt_json (affected f))]"

definition report_fields :: "parsed_report \<Rightarrow> (string \<times> json) list" where
  "report_fields r =
     [(''outcome'', JStr (outcome_name (p_outcome r))), (''summary'', JStr (p_summary r)),
      (''files'', jstrings (p_files r)), (''validation'', jstrings (p_validation r)),
      (''risks'', jstrings (p_risks r)), (''verdict'', JStr (p_verdict r)),
      (''confirmed'', jstrings (p_confirmed r)),
      (''findings'', JList (map finding_json (p_findings r))),
      (''required_changes'', jstrings (p_required_changes r))]"

lemma opt_str_eq_Some: "opt_str j = Some a \<longleftrightarrow> j = opt_json a"
  by (cases j; cases a) auto

lemma report_outcome_eq_Some:
  "report_outcome s = Some oc \<longleftrightarrow> oc \<noteq> OutFailed \<and> s = outcome_name oc"
  by (cases oc) (auto simp: report_outcome_def)

lemma traverse_eq_Some: "traverse f xs = Some ys \<longleftrightarrow> map f xs = map Some ys"
proof (induction xs arbitrary: ys)
  case (Cons x xs)
  then show ?case by (cases ys) (auto split: option.splits)
qed auto

definition finding_of :: "audit_finding \<Rightarrow> json \<Rightarrow> bool" where
  "finding_of f j = (same_keys j audit_finding_keys
     \<and> jget j ''severity'' = Some (JStr (severity f))
     \<and> jget j ''evidence'' = Some (JStr (evidence f))
     \<and> jget j ''affected_requirement_or_location'' = Some (opt_json (affected f)))"

lemma field_str_eq_Some: "field_str j k = Some s \<longleftrightarrow> jget j k = Some (JStr s)"
  by (auto simp: field_str_def bind_eq_Some_conv)

lemma field_strs_eq_Some: "field_strs j k = Some ss \<longleftrightarrow> jget j k = Some (jstrings ss)"
  by (auto simp: field_strs_def bind_eq_Some_conv jstr_list_eq_Some jstrings_def)

lemma field_opt_eq_Some: "field_opt j k = Some a \<longleftrightarrow> jget j k = Some (opt_json a)"
  by (auto simp: field_opt_def bind_eq_Some_conv opt_str_eq_Some)

lemma field_outcome_eq_Some:
  "field_outcome j k = Some oc \<longleftrightarrow> oc \<noteq> OutFailed \<and> jget j k = Some (JStr (outcome_name oc))"
  by (auto simp: field_outcome_def bind_eq_Some_conv report_outcome_eq_Some field_str_eq_Some)

lemmas field_eq_Some =
  field_str_eq_Some field_strs_eq_Some field_opt_eq_Some field_outcome_eq_Some

lemma parse_finding_eq_Some: "parse_finding j = Some f \<longleftrightarrow> finding_of f j"
  unfolding parse_finding_def finding_of_def
  by (cases f) (auto simp: bind_eq_Some_conv field_eq_Some)

lemma parse_findings_eq_Some:
  "parse_findings v = Some fs \<longleftrightarrow> (\<exists>items. v = JList items \<and> list_all2 finding_of fs items)"
proof -
  have "map parse_finding items = map Some fs \<longleftrightarrow> list_all2 finding_of fs items" for items
    by (induction items arbitrary: fs)
      (auto simp: list_all2_Cons2 parse_finding_eq_Some Cons_eq_map_conv map_eq_Cons_conv)
  then show ?thesis
    by (cases v) (auto simp: parse_findings_def traverse_eq_Some)
qed

text \<open>What it means for a decoded value to be the report \<open>r\<close>.\<close>

definition report_of :: "parsed_report \<Rightarrow> json \<Rightarrow> bool" where
  "report_of r j = (same_keys j audit_report_keys \<and> p_outcome r \<noteq> OutFailed
     \<and> jget j ''outcome'' = Some (JStr (outcome_name (p_outcome r)))
     \<and> jget j ''summary'' = Some (JStr (p_summary r))
     \<and> jget j ''files'' = Some (jstrings (p_files r))
     \<and> jget j ''validation'' = Some (jstrings (p_validation r))
     \<and> jget j ''risks'' = Some (jstrings (p_risks r))
     \<and> jget j ''verdict'' = Some (JStr (p_verdict r))
     \<and> jget j ''confirmed'' = Some (jstrings (p_confirmed r))
     \<and> (\<exists>items. jget j ''findings'' = Some (JList items)
          \<and> list_all2 finding_of (p_findings r) items)
     \<and> jget j ''required_changes'' = Some (jstrings (p_required_changes r)))"

lemma field_findings_eq_Some:
  "field_findings j k = Some fs \<longleftrightarrow>
   (\<exists>items. jget j k = Some (JList items) \<and> list_all2 finding_of fs items)"
  by (auto simp: field_findings_def bind_eq_Some_conv parse_findings_eq_Some)

text \<open>A decoded payload is accepted as a report exactly when it is an object with exactly the nine contract
  keys, each of the contracted type, findings included, and an outcome other than \<open>failed\<close>.\<close>

lemma parse_payload_iff: "parse_audit_report_payload j = Some r \<longleftrightarrow> report_of r j"
  unfolding parse_audit_report_payload_def report_of_def
  by (cases r) (auto simp: bind_eq_Some_conv field_eq_Some field_findings_eq_Some)

section \<open>Reports survive the trip through text\<close>

lemma map_of_sort_key: "distinct (map fst d) \<Longrightarrow> map_of (sort_key fst d) = map_of d"
  by (subst map_of_inject_set) (simp_all add: distinct_map)

lemma map_of_map_snd: "map_of (map (\<lambda>kv. (fst kv, g (snd kv))) d) k = map_option g (map_of d k)"
  by (induction d) auto

lemma jget_sort_keys: "json_wf j \<Longrightarrow> jget (sort_keys j) k = map_option sort_keys (jget j k)"
  by (cases j) (simp_all add: sort_key_map_snd map_of_map_snd map_of_sort_key)

lemma same_keys_sort_keys [simp]: "same_keys (sort_keys j) ks = same_keys j ks"
  by (cases j) (simp_all add: same_keys_def image_image)

lemma sort_keys_leaves [simp]: "sort_keys (jstrings ss) = jstrings ss" "sort_keys (opt_json a) = opt_json a"
  by (simp_all add: jstrings_def) (cases a, simp_all)

lemma finding_of_sorted: "json_wf j \<Longrightarrow> finding_of f j \<Longrightarrow> finding_of f (sort_keys j)"
  by (simp add: finding_of_def jget_sort_keys)

lemma report_of_sorted:
  assumes "json_wf j" and "report_of r j"
  shows "report_of r (sort_keys j)"
proof -
  from assms(2) obtain items where items: "jget j ''findings'' = Some (JList items)"
    "list_all2 finding_of (p_findings r) items"
    by (auto simp: report_of_def)
  have "\<forall>x \<in> set items. json_wf x"
    using assms(1) items(1) by (cases j) (auto dest!: map_of_SomeD)
  with items(2) have "list_all2 finding_of (p_findings r) (map sort_keys items)"
    by (auto simp: list_all2_conv_all_nth finding_of_sorted)
  with assms items(1) show ?thesis
    by (auto simp: report_of_def jget_sort_keys)
qed

lemma dict_text_shape:
  "is_jdict j \<Longrightarrow> \<exists>u. json_text ascii srt j = CHR ''{'' # u @ ''}''"
  by (cases j) (auto simp: Let_def)

lemma py_strip_id:
  "\<not> is_py_space a \<Longrightarrow> \<not> is_py_space b \<Longrightarrow> py_strip (a # u @ [b]) = a # u @ [b]"
  by (simp add: py_strip_def)

lemma brace_not_space [simp]: "\<not> is_py_space CHR ''{''" "\<not> is_py_space CHR ''}''"
    "\<not> is_py_space CHR ''`''"
  by (simp_all add: is_py_space_def)

lemma unfence_dict_text: "is_jdict j \<Longrightarrow> unfence (json_text ascii srt j) = json_text ascii srt j"
  using dict_text_shape [of j ascii srt]
  by (auto simp: unfence_def py_strip_id fence_prefix_def fence_def Let_def)

lemma report_of_dict: "report_of r j \<Longrightarrow> is_jdict j"
  by (cases j) (simp_all add: report_of_def same_keys_def)

lemma parse_rendered_report:
  assumes "json_wf j" and "parse_audit_report_payload j = Some r"
  shows "Option.bind (json_loads (json_text ascii True j)) parse_audit_report_payload = Some r"
proof -
  from assms have "report_of r (sort_keys j)"
    by (simp add: parse_payload_iff report_of_sorted)
  then show ?thesis
    using sorted_codec.parse_render [OF assms(1), of ascii] by (simp add: parse_payload_iff)
qed

text \<open>What \<open>submit_audit\<close> accepts is what the reducer later reads: after a payload is
  recorded, parsing the captured text gives the report that was validated; a rejected payload
  leaves the captured report as it was.\<close>

lemma captured_report_reads_back:
  assumes "json_wf payload"
  shows "case record_report cap payload of
           (cap', True) \<Rightarrow>
             parse_audit_report_payload payload \<noteq> None
             \<and> parse_audit_report_text (report_text cap') = parse_audit_report_payload payload
         | (cap', False) \<Rightarrow> parse_audit_report_payload payload = None \<and> cap' = cap"
proof (cases "parse_audit_report_payload payload")
  case None
  then show ?thesis by (simp add: record_report_def)
next
  case (Some r)
  then have "is_jdict payload" by (auto simp: parse_payload_iff dest: report_of_dict)
  with Some assms show ?thesis
    by (simp add: record_report_def parse_audit_report_text_def unfence_dict_text
        parse_rendered_report)
qed

definition sample_report :: json where
  "sample_report = JDict
     [(''outcome'', JStr ''partial''), (''summary'', JStr ''s''), (''files'', jstrings [''a.py'']),
      (''validation'', jstrings []), (''risks'', jstrings []), (''verdict'', JStr ''v''),
      (''confirmed'', jstrings []),
      (''findings'', JList [JDict [(''severity'', JStr ''low''), (''evidence'', JStr ''e''),
         (''affected_requirement_or_location'', JNull)]]),
      (''required_changes'', jstrings [])]"

section \<open>The legacy fence\<close>

lemma py_count_clean: "sub \<noteq> [] \<Longrightarrow> \<not> contains sub s \<Longrightarrow> py_count sub s = 0"
  by (induction s) (subst py_count.simps; simp)+

lemma py_count_match: "sub \<noteq> [] \<Longrightarrow> py_count sub (sub @ z) = Suc (py_count sub z)"
  by (cases sub) (simp_all add: py_count.simps [of sub "sub @ z"] py_count.simps [of "_ # _" "_ # _"])

lemma py_count_separator:
  "sub \<noteq> [] \<Longrightarrow> d \<notin> set sub \<Longrightarrow> py_count sub (a @ d # b) = py_count sub a + py_count sub b"
proof (induction a rule: length_induct)
  case (1 a)
  show ?case
  proof (cases a)
    case Nil
    have "\<not> starts_with sub (d # b)" using 1 by (cases sub) auto
    with Nil 1 show ?thesis by (simp add: py_count.simps [of sub "d # b"] py_count.simps [of sub "[]"])
  next
    case (Cons c t)
    have sw: "starts_with sub (a @ d # b) = starts_with sub a"
      using 1 by (simp add: starts_with_separator)
    show ?thesis
    proof (cases "starts_with sub a")
      case True
      then obtain z where z: "a = sub @ z" by (auto simp: starts_with_iff)
      then have "py_count sub (z @ d # b) = py_count sub z + py_count sub b"
        using 1 by simp
      with z 1 show ?thesis by (simp add: py_count_match)
    next
      case False
      with sw Cons 1 show ?thesis
        by (simp add: py_count.simps [of sub "c # t @ d # b"] py_count.simps [of sub "c # t"])
    qed
  qed
qed

lemma fence_count:
  assumes "\<not> contains fence t"
  shows "py_count fence (fence_prefix @ t @ fence_suffix) = 2"
proof -
  have ne: "fence \<noteq> []" by (simp add: fence_def)
  have nl: "CHR 0x0A \<notin> set fence" by (simp add: fence_def)
  have "py_count fence (fence @ (''json'' @ CHR 0x0A # (t @ CHR 0x0A # (fence @ []))))
      = Suc (py_count fence ''json'' + (py_count fence t + Suc 0))"
    using assms by (simp only: py_count_match [OF ne] py_count_separator [OF ne nl])
      (simp add: py_count_clean ne)
  moreover have "py_count fence ''json'' = 0" "py_count fence t = 0"
    using assms by (simp_all add: py_count_clean ne fence_def)
  ultimately show ?thesis by (simp add: fence_prefix_def fence_suffix_def)
qed

lemma unfence_fenced:
  assumes "\<not> contains fence t"
  shows "unfence (fence_prefix @ t @ fence_suffix) = t"
proof -
  let ?c = "fence_prefix @ t @ fence_suffix"
  have c: "?c = CHR ''`'' # (''``json'' @ CHR 0x0A # t @ CHR 0x0A # ''``'') @ [CHR ''`'']"
    by (simp add: fence_prefix_def fence_suffix_def fence_def)
  have "py_strip ?c = ?c"
    unfolding c by (rule py_strip_id) simp_all
  moreover have "ends_with fence_suffix ?c"
    by (simp add: ends_with_def starts_with_iff)
  ultimately show ?thesis
    using fence_count [OF assms] by (simp add: unfence_def)
qed

text \<open>The reducer accepts the legacy form: a report rendered as JSON and wrapped in a single
  \<open>json\<close> fence is read as the same report, unless the report's own text contains a fence.\<close>

lemma fenced_report_reads_back:
  assumes "json_wf payload" and "parse_audit_report_payload payload = Some r"
    and "\<not> contains fence (json_text ascii True payload)"
  shows "parse_audit_report_text
           (Some (fence_prefix @ json_text ascii True payload @ fence_suffix)) = Some r"
  using parse_rendered_report [OF assms(1,2), of ascii]
  by (simp add: parse_audit_report_text_def unfence_fenced [OF assms(3)])

definition fence_sample :: json where
  "fence_sample = JDict
     [(''outcome'', JStr ''blocked''), (''summary'', JStr ''s''), (''files'', jstrings []),
      (''validation'', jstrings []), (''risks'', jstrings []), (''verdict'', JStr ''v''),
      (''confirmed'', jstrings []), (''findings'', JList []), (''required_changes'', jstrings [])]"

end
