(* ===== verification/Lifecycle.thy ===== *)
theory Lifecycle
  imports Prelude
begin

text \<open>
  \<open>src/qworker/lifecycle.py\<close>: the vocabulary of roles, states, health and nested settlement,
  the durable worker and attempt records, and the transition table that every state change
  goes through (\<open>WorkerStateReducer\<close>).
\<close>

section \<open>Vocabulary\<close>

datatype worker_role = Coder | Auditor

datatype worker_state =
  Starting | Running | RequiresAction | Completed | Failed | Cancelled | Lost

datatype worker_health = HealthUnknown | Healthy | Quiet | Stalled | Exited

datatype write_capability = SharedWorkspace | ReadOnly

datatype nested_state = NestedNone | NestedActive | NestedSettled | NestedUnknown

fun role_name :: "worker_role \<Rightarrow> string" where
  "role_name Coder = ''coder''"
| "role_name Auditor = ''auditor''"

fun state_name :: "worker_state \<Rightarrow> string" where
  "state_name Starting = ''starting''"
| "state_name Running = ''running''"
| "state_name RequiresAction = ''requires_action''"
| "state_name Completed = ''completed''"
| "state_name Failed = ''failed''"
| "state_name Cancelled = ''cancelled''"
| "state_name Lost = ''lost''"

fun health_name :: "worker_health \<Rightarrow> string" where
  "health_name HealthUnknown = ''unknown''"
| "health_name Healthy = ''healthy''"
| "health_name Quiet = ''quiet''"
| "health_name Stalled = ''stalled''"
| "health_name Exited = ''exited''"

fun capability_name :: "write_capability \<Rightarrow> string" where
  "capability_name SharedWorkspace = ''shared_workspace''"
| "capability_name ReadOnly = ''read_only''"

fun nested_name :: "nested_state \<Rightarrow> string" where
  "nested_name NestedNone = ''none''"
| "nested_name NestedActive = ''active''"
| "nested_name NestedSettled = ''settled''"
| "nested_name NestedUnknown = ''unknown''"

definition all_states :: "worker_state list" where
  "all_states = [Starting, Running, RequiresAction, Completed, Failed, Cancelled, Lost]"

definition all_health :: "worker_health list" where
  "all_health = [HealthUnknown, Healthy, Quiet, Stalled, Exited]"

definition state_of_name :: "string \<Rightarrow> worker_state option" where
  "state_of_name n = find (\<lambda>s. state_name s = n) all_states"

definition health_of_name :: "string \<Rightarrow> worker_health option" where
  "health_of_name n = find (\<lambda>h. health_name h = n) all_health"

lemma state_of_name_name [simp]: "state_of_name (state_name s) = Some s"
  by (cases s) (simp_all add: state_of_name_def all_states_def)

lemma health_of_name_name [simp]: "health_of_name (health_name h) = Some h"
  by (cases h) (simp_all add: health_of_name_def all_health_def)

lemma state_of_name_Some: "state_of_name n = Some s \<Longrightarrow> n = state_name s"
  by (auto simp: state_of_name_def find_Some_iff)

lemma health_of_name_Some: "health_of_name n = Some h \<Longrightarrow> n = health_name h"
  by (auto simp: health_of_name_def find_Some_iff)

lemma state_name_inject [simp]: "state_name s = state_name t \<longleftrightarrow> s = t"
  by (metis option.inject state_of_name_name)

section \<open>The transition table\<close>

fun transitions :: "worker_state \<Rightarrow> worker_state list" where
  "transitions Starting = [Running, Failed, Cancelled]"
| "transitions Running = [RequiresAction, Completed, Failed, Cancelled, Lost]"
| "transitions RequiresAction = [Running, Cancelled, Lost]"
| "transitions Completed = []"
| "transitions Failed = [Starting]"
| "transitions Cancelled = [Starting]"
| "transitions Lost = [Starting]"

definition transition :: "worker_state \<Rightarrow> worker_state \<Rightarrow> worker_state res" where
  "transition current target =
     (if target \<notin> set (transitions current)
      then Inl (ValueError (''Invalid worker lifecycle transition: '' @ state_name current
             @ '' -> '' @ state_name target))
      else Inr target)"

text \<open>The constant \<open>_TERMINAL_STATES\<close>, repeated in store.py, supervisor.py and rpc.py.\<close>

definition terminal_state :: "worker_state \<Rightarrow> bool" where
  "terminal_state s = (s \<in> {Completed, Failed, Cancelled, Lost})"

lemma terminal_state_simps [simp]:
  "\<not> terminal_state Starting" "\<not> terminal_state Running" "\<not> terminal_state RequiresAction"
  "terminal_state Completed" "terminal_state Failed" "terminal_state Cancelled"
  "terminal_state Lost"
  by (simp_all add: terminal_state_def)

lemma transition_eq_Inr [res_simps]:
  "transition s t = Inr u \<longleftrightarrow> u = t \<and> t \<in> set (transitions s)"
  by (auto simp: transition_def)

section \<open>Durable records\<close>

text \<open>Timestamps are UTC instants (microseconds).\<close>

type_synonym instant = int
type_synonym worker_id = string

record attempt_record =
  a_worker_id :: worker_id
  a_attempt :: nat
  a_state :: worker_state
  a_created_at :: instant
  a_started_at :: "instant option"
  a_ended_at :: "instant option"

section \<open>Reachable states of one worker\<close>

inductive lifecycle_step :: "worker_state \<Rightarrow> worker_state \<Rightarrow> bool" where
  edge: "transition s t = Inr t \<Longrightarrow> lifecycle_step s t"

inductive_simps lifecycle_step_iff: "lifecycle_step s t"

lemma lifecycle_step_eq: "lifecycle_step s t \<longleftrightarrow> t \<in> set (transitions s)"
  by (simp add: lifecycle_step_iff res_simps)

lemma completed_stuck: "\<not> lifecycle_step Completed t"
  by (simp add: lifecycle_step_eq)

lemma completed_forever: "lifecycle_step\<^sup>*\<^sup>* Completed t \<Longrightarrow> t = Completed"
  by (erule converse_rtranclpE) (auto simp: completed_stuck)

end
