(* ===== verification/Reducer.thy ===== *)
theory Reducer
  imports Audit_Report Lifecycle
begin

text \<open>
  \<open>src/qworker/events.py\<close> and \<open>src/qworker/reducer.py\<close>: the normalized events of a transport and
  the reducer that turns the stream of one audit into its result.

  The bookkeeping that the two reducers of the program share (active nested tasks, last result,
  models in first-seen order) is stated once, in the locale \<open>stream_reducer\<close>; it is interpreted
  here for \<open>ResultReducer\<close> and in \<open>Coder_Reducer\<close> for the coder's reducer.
\<close>

section \<open>Events\<close>

datatype task_status = TaskCompleted | TaskFailed | TaskStopped

record result_event =
  re_session_id :: string
  re_is_error :: bool
  re_result :: "string option"
  re_model_usage :: "string list"
  re_permission_denials :: "string list"
  re_errors :: "string list"

datatype adapter_event =
    AssistantEvent "string list" "string list" "string option"
  | TaskStartedEvent string string
  | TaskProgressEvent string string "string option"
  | TaskTerminalEvent string task_status
  | SystemEvent string string
  | ResultEvent result_event

datatype semantic_kind =
    KAssistant | KTool | KTaskStarted | KTaskProgress | KTaskTerminal | KSystem | KResult

fun is_result_event :: "adapter_event \<Rightarrow> bool" where
  "is_result_event (ResultEvent r) = True"
| "is_result_event _ = False"

section \<open>Results\<close>

text \<open>
  \<open>CoderResult\<close>; \<open>AuditResult\<close> has the same fields and four more, so it is the extension.
\<close>

record worker_result =
  r_outcome :: outcome
  r_summary :: string
  r_files :: "string list"
  r_validation :: "string list"
  r_risks :: "string list"
  r_requested_model :: string
  r_resolved_model :: "string option"
  r_actual_models :: "string list"
  r_session_id :: "string option"
  r_nested_state :: nested_state
  r_warnings :: "string list"
  r_errors :: "string list"

record audit_result = worker_result +
  r_verdict :: "string option"
  r_confirmed :: "string list"
  r_findings :: "audit_finding list"
  r_required_changes :: "string list"

section \<open>The audit reducer\<close>

definition max_semantic_events :: nat where
  "max_semantic_events = 128"

record result_reducer =
  rr_requested :: string
  rr_resolved :: "string option"
  rr_active :: "string set"
  rr_models :: "string list"
  rr_result :: "result_event option"
  rr_semantic :: "semantic_kind list"

definition new_reducer :: "string \<Rightarrow> string option \<Rightarrow> result_reducer" where
  "new_reducer requested resolved =
     \<lparr>rr_requested = requested, rr_resolved = resolved, rr_active = {}, rr_models = [],
      rr_result = None, rr_semantic = []\<rparr>"

definition rr_needs_settlement :: "result_reducer \<Rightarrow> bool" where
  "rr_needs_settlement r = (rr_result r \<noteq> None \<and> rr_active r \<noteq> {})"

fun semantic_kinds :: "adapter_event \<Rightarrow> semantic_kind list" where
  "semantic_kinds (AssistantEvent texts tools model) = KAssistant # map (\<lambda>_. KTool) tools"
| "semantic_kinds (TaskStartedEvent t d) = [KTaskStarted]"
| "semantic_kinds (TaskProgressEvent t d tool) = [KTaskProgress]"
| "semantic_kinds (TaskTerminalEvent t s) = [KTaskTerminal]"
| "semantic_kinds (SystemEvent s m) = [KSystem]"
| "semantic_kinds (ResultEvent r) = [KResult]"

text \<open>\<open>_record\<close>: one kind at a time, dropping the oldest when the buffer is full.\<close>

definition record_kind :: "semantic_kind \<Rightarrow> semantic_kind list \<Rightarrow> semantic_kind list" where
  "record_kind k ks = (if length ks = max_semantic_events then tl ks else ks) @ [k]"

definition rr_record :: "semantic_kind list \<Rightarrow> result_reducer \<Rightarrow> result_reducer" where
  "rr_record kinds r = r\<lparr>rr_semantic := fold record_kind kinds (rr_semantic r)\<rparr>"

definition record_model :: "string option \<Rightarrow> string list \<Rightarrow> string list" where
  "record_model m models = (case m of None \<Rightarrow> models | Some x \<Rightarrow> add_once x models)"

text \<open>\<open>apply\<close>: the dispatch on the primary kind is the dispatch on the event's class.\<close>

fun rr_apply :: "adapter_event \<Rightarrow> result_reducer \<Rightarrow> result_reducer" where
  "rr_apply (AssistantEvent texts tools model) r =
     (let r = rr_record (semantic_kinds (AssistantEvent texts tools model)) r in
      r\<lparr>rr_models := record_model model (rr_models r)\<rparr>)"
| "rr_apply (TaskStartedEvent t d) r =
     (let r = rr_record (semantic_kinds (TaskStartedEvent t d)) r in
      r\<lparr>rr_active := insert t (rr_active r)\<rparr>)"
| "rr_apply (TaskTerminalEvent t s) r =
     (let r = rr_record (semantic_kinds (TaskTerminalEvent t s)) r in
      r\<lparr>rr_active := rr_active r - {t}\<rparr>)"
| "rr_apply (ResultEvent ev) r =
     (let r = rr_record (semantic_kinds (ResultEvent ev)) r in
      r\<lparr>rr_result := Some ev,
        rr_models := fold (\<lambda>m. record_model (Some m)) (re_model_usage ev) (rr_models r)\<rparr>)"
| "rr_apply (TaskProgressEvent t d tool) r = rr_record (semantic_kinds (TaskProgressEvent t d tool)) r"
| "rr_apply (SystemEvent s m) r = rr_record (semantic_kinds (SystemEvent s m)) r"

text \<open>\<open>_nested_state\<close>, the same code in both reducers.\<close>

definition nested_state_of :: "result_event option \<Rightarrow> string set \<Rightarrow> bool \<Rightarrow> nested_state" where
  "nested_state_of res active settlement_expired =
     (case res of
        None \<Rightarrow> if active \<noteq> {} then NestedActive else NestedNone
      | Some _ \<Rightarrow> if active = {} then NestedSettled
                  else if settlement_expired then NestedUnknown else NestedActive)"

definition nested_warnings :: "nested_state \<Rightarrow> string list" where
  "nested_warnings n = (if n = NestedUnknown then [''nested_terminal_event_missing''] else [])"

definition rr_finish :: "bool \<Rightarrow> result_reducer \<Rightarrow> audit_result" where
  "rr_finish settlement_expired r =
     (let nested = nested_state_of (rr_result r) (rr_active r) settlement_expired in
      case rr_result r of
        None \<Rightarrow>
          \<lparr>r_outcome = OutFailed, r_summary = ''No result was received.'', r_files = [],
           r_validation = [], r_risks = [], r_requested_model = rr_requested r,
           r_resolved_model = rr_resolved r, r_actual_models = rr_models r, r_session_id = None,
           r_nested_state = nested, r_warnings = [], r_errors = [''result_missing''],
           r_verdict = None, r_confirmed = [], r_findings = [], r_required_changes = []\<rparr>
      | Some ev \<Rightarrow>
          (case parse_audit_report_text (re_result ev) of
             None \<Rightarrow>
               \<lparr>r_outcome = (if re_is_error ev then OutFailed else OutPartial),
                r_summary = (case re_result ev of None \<Rightarrow> [] | Some t \<Rightarrow> t), r_files = [],
                r_validation = [], r_risks = [], r_requested_model = rr_requested r,
                r_resolved_model = rr_resolved r, r_actual_models = rr_models r,
                r_session_id = Some (re_session_id ev), r_nested_state = nested,
                r_warnings = ''report_contract_unparseable'' # nested_warnings nested,
                r_errors = re_errors ev @ re_permission_denials ev,
                r_verdict = None, r_confirmed = [], r_findings = [], r_required_changes = []\<rparr>
           | Some p \<Rightarrow>
               \<lparr>r_outcome = (if re_is_error ev then OutFailed else p_outcome p),
                r_summary = p_summary p, r_files = p_files p, r_validation = p_validation p,
                r_risks = p_risks p, r_requested_model = rr_requested r,
                r_resolved_model = rr_resolved r, r_actual_models = rr_models r,
                r_session_id = Some (re_session_id ev), r_nested_state = nested,
                r_warnings = nested_warnings nested,
                r_errors = re_errors ev @ re_permission_denials ev,
                r_verdict = Some (p_verdict p), r_confirmed = p_confirmed p,
                r_findings = p_findings p, r_required_changes = p_required_changes p\<rparr>))"

section \<open>What a stream means\<close>

text \<open>
  The meaning of a stream of events, read off the stream itself: the tasks left open, the last
  result, the models mentioned.
\<close>

fun starts_task :: "string \<Rightarrow> adapter_event \<Rightarrow> bool" where
  "starts_task t (TaskStartedEvent u d) = (u = t)"
| "starts_task t _ = False"

fun ends_task :: "string \<Rightarrow> adapter_event \<Rightarrow> bool" where
  "ends_task t (TaskTerminalEvent u s) = (u = t)"
| "ends_task t _ = False"

definition task_open :: "string \<Rightarrow> adapter_event list \<Rightarrow> bool" where
  "task_open t evs = (\<exists>pre e post. evs = pre @ e # post \<and> starts_task t e
     \<and> \<not> list_ex (ends_task t) post)"

fun result_of :: "adapter_event \<Rightarrow> result_event option" where
  "result_of (ResultEvent r) = Some r"
| "result_of _ = None"

definition last_result :: "adapter_event list \<Rightarrow> result_event option" where
  "last_result evs = (case rev (List.map_filter result_of evs) of [] \<Rightarrow> None | r # _ \<Rightarrow> Some r)"

fun models_mentioned :: "adapter_event \<Rightarrow> string list" where
  "models_mentioned (AssistantEvent texts tools (Some m)) = [m]"
| "models_mentioned (ResultEvent r) = re_model_usage r"
| "models_mentioned _ = []"

definition last_n :: "nat \<Rightarrow> 'a list \<Rightarrow> 'a list" where
  "last_n n xs = drop (length xs - n) xs"

lemma task_open_snoc:
  "task_open t (evs @ [e]) \<longleftrightarrow> starts_task t e \<or> (task_open t evs \<and> \<not> ends_task t e)"
proof
  assume "task_open t (evs @ [e])"
  then obtain pre s post where d: "evs @ [e] = pre @ s # post" "starts_task t s"
    "\<not> list_ex (ends_task t) post" by (auto simp: task_open_def)
  show "starts_task t e \<or> (task_open t evs \<and> \<not> ends_task t e)"
  proof (cases post rule: rev_cases)
    case Nil
    with d show ?thesis by simp
  next
    case (snoc p x)
    with d have "evs = pre @ s # p" "x = e" by simp_all
    with d snoc show ?thesis by (auto simp: task_open_def)
  qed
next
  assume "starts_task t e \<or> (task_open t evs \<and> \<not> ends_task t e)"
  then show "task_open t (evs @ [e])"
  proof
    assume "starts_task t e"
    then show ?thesis unfolding task_open_def by (intro exI [of _ evs] exI [of _ e] exI [of _ "[]"]) simp
  next
    assume "task_open t evs \<and> \<not> ends_task t e"
    then obtain pre s post where "evs = pre @ s # post" "starts_task t s"
      "\<not> list_ex (ends_task t) (post @ [e])" by (auto simp: task_open_def)
    then show ?thesis unfolding task_open_def
      by (intro exI [of _ pre] exI [of _ s] exI [of _ "post @ [e]"]) simp
  qed
qed

lemma task_open_Nil [simp]: "\<not> task_open t []"
  by (simp add: task_open_def)

lemma last_result_snoc:
  "last_result (evs @ [e]) = (case result_of e of None \<Rightarrow> last_result evs | Some r \<Rightarrow> Some r)"
  by (auto simp: last_result_def map_filter_def split: option.splits)

lemma last_result_Nil [simp]: "last_result [] = None"
  by (simp add: last_result_def List.map_filter_simps)

lemma last_result_None: "last_result evs = None \<longleftrightarrow> (\<forall>e \<in> set evs. result_of e = None)"
  by (induction evs rule: rev_induct) (auto simp: last_result_snoc split: option.splits)

lemma last_n_snoc: "0 < n \<Longrightarrow> last_n n (xs @ [x]) = (if length xs < n then xs else tl (last_n n xs)) @ [x]"
  by (auto simp: last_n_def Suc_diff_le drop_Suc tl_drop)

lemma length_last_n [simp]: "length (last_n n xs) = min n (length xs)"
  by (simp add: last_n_def)

section \<open>The interface of a stream reducer\<close>

locale stream_reducer =
  fixes init :: 'r
    and step :: "adapter_event \<Rightarrow> 'r \<Rightarrow> 'r"
    and active :: "'r \<Rightarrow> string set"
    and models :: "'r \<Rightarrow> string list"
    and received :: "'r \<Rightarrow> result_event option"
  assumes init: "active init = {}" "models init = []" "received init = None"
    and active_step: "t \<in> active (step e r) \<longleftrightarrow> starts_task t e \<or> (t \<in> active r \<and> \<not> ends_task t e)"
    and models_step: "models (step e r) = fold add_once (models_mentioned e) (models r)"
    and received_step:
      "received (step e r) = (case result_of e of None \<Rightarrow> received r | Some x \<Rightarrow> Some x)"
begin

lemma active_fold: "t \<in> active (fold step evs init) \<longleftrightarrow> task_open t evs"
  by (induction evs rule: rev_induct) (simp_all add: init active_step task_open_snoc)

lemma active_set: "active (fold step evs init) = {t. task_open t evs}"
  by (auto simp: active_fold)

lemma models_fold: "models (fold step evs init) = dedup (concat (map models_mentioned evs))"
  by (induction evs rule: rev_induct)
    (simp_all add: init models_step dedup_append, simp add: dedup_def)

lemma received_fold: "received (fold step evs init) = last_result evs"
  by (induction evs rule: rev_induct) (simp_all add: init received_step last_result_snoc split: option.split)

lemma settled_iff:
  "(received (fold step evs init) \<noteq> None \<and> active (fold step evs init) \<noteq> {}) \<longleftrightarrow>
   last_result evs \<noteq> None \<and> (\<exists>t. task_open t evs)"
  by (auto simp: received_fold active_set)

end

section \<open>The audit reducer is a stream reducer\<close>

lemma rr_record_fields [simp]:
  "rr_active (rr_record ks r) = rr_active r" "rr_models (rr_record ks r) = rr_models r"
  "rr_result (rr_record ks r) = rr_result r" "rr_requested (rr_record ks r) = rr_requested r"
  "rr_resolved (rr_record ks r) = rr_resolved r"
  "rr_semantic (rr_record ks r) = fold record_kind ks (rr_semantic r)"
  by (simp_all add: rr_record_def)

lemma record_model_simps [simp]:
  "record_model None ms = ms" "record_model (Some m) = add_once m"
  by (simp_all add: record_model_def fun_eq_iff)

interpretation audit_stream:
  stream_reducer "new_reducer requested resolved" rr_apply rr_active rr_models rr_result
  for requested resolved
proof unfold_locales
  fix e r t
  show "rr_models (rr_apply e r) = fold add_once (models_mentioned e) (rr_models r)"
  proof (cases e)
    case (AssistantEvent texts tools model)
    then show ?thesis by (cases model) simp_all
  qed simp_all
  show "t \<in> rr_active (rr_apply e r) \<longleftrightarrow> starts_task t e \<or> (t \<in> rr_active r \<and> \<not> ends_task t e)"
    by (cases e) auto
  show "rr_result (rr_apply e r) = (case result_of e of None \<Rightarrow> rr_result r | Some x \<Rightarrow> Some x)"
    by (cases e) auto
qed (simp_all add: new_reducer_def)

lemma rr_fixed [simp]:
  "rr_requested (rr_apply e r) = rr_requested r" "rr_resolved (rr_apply e r) = rr_resolved r"
  by (cases "(e, r)" rule: rr_apply.cases; simp)+

lemma rr_fixed_fold [simp]:
  "rr_requested (fold rr_apply evs r) = rr_requested r"
  "rr_resolved (fold rr_apply evs r) = rr_resolved r"
  by (induction evs arbitrary: r) simp_all

lemma rr_semantic_apply: "rr_semantic (rr_apply e r) = fold record_kind (semantic_kinds e) (rr_semantic r)"
  by (cases "(e, r)" rule: rr_apply.cases) simp_all

lemma record_kinds_window: "fold record_kind ks [] = last_n max_semantic_events ks"
proof (induction ks rule: rev_induct)
  case Nil
  show ?case by (simp add: last_n_def)
next
  case (snoc k ks)
  have "0 < max_semantic_events" by (simp add: max_semantic_events_def)
  with snoc show ?case
    by (auto simp: record_kind_def last_n_snoc) (simp add: last_n_def)
qed

text \<open>The telemetry a reducer keeps is exactly the last 128 event categories of the stream, in
  the order received (one per event, and one more for each tool an assistant message used).\<close>

lemma reducer_keeps_recent_kinds:
  "rr_semantic (fold rr_apply evs (new_reducer requested resolved))
   = last_n 128 (concat (map semantic_kinds evs))"
proof -
  have "rr_semantic (fold rr_apply evs r)
      = fold record_kind (concat (map semantic_kinds evs)) (rr_semantic r)" for r
    by (induction evs arbitrary: r) (simp_all add: rr_semantic_apply)
  then show ?thesis
    using record_kinds_window by (simp add: new_reducer_def max_semantic_events_def)
qed


text \<open>An audit is reported as successful (outcome other than \<open>failed\<close>) only when a result arrived
  without an error flag; it is \<open>completed\<close> only when that result also carried a report that
  satisfies the contract and claims so. A result without such a report is always marked
  \<open>report_contract_unparseable\<close>.\<close>

lemma audit_outcome_sound:
  "let r = rr_finish expired (fold rr_apply evs (new_reducer requested resolved))
   in (r_outcome r \<noteq> OutFailed \<longleftrightarrow> (\<exists>ev. last_result evs = Some ev \<and> \<not> re_is_error ev))
      \<and> (r_outcome r = OutCompleted \<longleftrightarrow>
          (\<exists>ev p. last_result evs = Some ev \<and> \<not> re_is_error ev
             \<and> parse_audit_report_text (re_result ev) = Some p \<and> p_outcome p = OutCompleted))
      \<and> (''report_contract_unparseable'' \<in> set (r_warnings r) \<longleftrightarrow>
          (\<exists>ev. last_result evs = Some ev \<and> parse_audit_report_text (re_result ev) = None))
      \<and> (''nested_terminal_event_missing'' \<in> set (r_warnings r) \<longleftrightarrow>
          last_result evs \<noteq> None \<and> expired \<and> (\<exists>t. task_open t evs))"
proof -
  have ok: "parse_audit_report_text t = Some p \<Longrightarrow> p_outcome p \<noteq> OutFailed" for t p
    by (auto simp: parse_audit_report_text_def bind_eq_Some_conv parse_payload_iff report_of_def
        split: option.splits)
  show ?thesis
    by (auto simp: rr_finish_def Let_def nested_state_of_def nested_warnings_def
        audit_stream.received_fold audit_stream.active_set dest: ok split: option.splits)
qed

end
