(* ===== verification/Coder_Reducer.thy ===== *)
theory Coder_Reducer
  imports Reducer
begin

text \<open>
  The reducer of \<open>src/qworker/coder.py\<close>: \<open>_parse_report\<close> and \<open>_CoderResultReducer\<close>. The second
  interpretation of \<open>stream_reducer\<close>: what was proved of the audit reducer's bookkeeping holds of
  the coder's.
\<close>

section \<open>The coder's report\<close>

record coder_report =
  c_outcome :: outcome
  c_summary :: string
  c_files :: "string list"
  c_validation :: "string list"
  c_risks :: "string list"

definition report_keys :: "string list" where
  "report_keys = [''outcome'', ''summary'', ''files'', ''validation'', ''risks'']"

text \<open>\<open>_REPORT_OUTCOMES\<close> is the set of the auditor's report outcomes, so is the test.\<close>

definition parse_coder_payload :: "json \<Rightarrow> coder_report option" where
  "parse_coder_payload payload =
     (if \<not> same_keys payload report_keys then None
      else do {
        oc \<leftarrow> field_outcome payload ''outcome'';
        su \<leftarrow> field_str payload ''summary'';
        fi \<leftarrow> field_strs payload ''files'';
        va \<leftarrow> field_strs payload ''validation'';
        ri \<leftarrow> field_strs payload ''risks'';
        Some \<lparr>c_outcome = oc, c_summary = su, c_files = fi, c_validation = va, c_risks = ri\<rparr>
      })"

definition parse_coder_report :: "string option \<Rightarrow> coder_report option" where
  "parse_coder_report result_text =
     (case result_text of
        None \<Rightarrow> None
      | Some t \<Rightarrow> Option.bind (json_loads t) parse_coder_payload)"

section \<open>The reducer\<close>

record coder_reducer =
  cr_requested :: string
  cr_resolved :: string
  cr_active :: "string set"
  cr_models :: "string list"
  cr_text :: "string list"
  cr_result :: "result_event option"

definition new_coder_reducer :: "string \<Rightarrow> string \<Rightarrow> coder_reducer" where
  "new_coder_reducer requested resolved =
     \<lparr>cr_requested = requested, cr_resolved = resolved, cr_active = {}, cr_models = [],
      cr_text = [], cr_result = None\<rparr>"

definition cr_needs_settlement :: "coder_reducer \<Rightarrow> bool" where
  "cr_needs_settlement r = (cr_result r \<noteq> None \<and> cr_active r \<noteq> {})"

fun cr_apply :: "adapter_event \<Rightarrow> coder_reducer \<Rightarrow> coder_reducer" where
  "cr_apply (AssistantEvent texts tools model) r =
     r\<lparr>cr_models := record_model model (cr_models r), cr_text := cr_text r @ texts\<rparr>"
| "cr_apply (TaskStartedEvent t d) r = r\<lparr>cr_active := insert t (cr_active r)\<rparr>"
| "cr_apply (TaskTerminalEvent t s) r = r\<lparr>cr_active := cr_active r - {t}\<rparr>"
| "cr_apply (ResultEvent ev) r =
     r\<lparr>cr_result := Some ev,
       cr_models := fold (\<lambda>m. record_model (Some m)) (re_model_usage ev) (cr_models r)\<rparr>"
| "cr_apply (TaskProgressEvent t d tool) r = r"
| "cr_apply (SystemEvent s m) r = r"

text \<open>The first parsed report in the given texts.\<close>

fun first_report :: "string list \<Rightarrow> coder_report option" where
  "first_report [] = None"
| "first_report (t # ts) =
     (case parse_coder_report (Some t) of None \<Rightarrow> first_report ts | Some p \<Rightarrow> Some p)"

definition cr_report :: "coder_reducer \<Rightarrow> result_event \<Rightarrow> coder_report option" where
  "cr_report r ev =
     (case parse_coder_report (re_result ev) of
        None \<Rightarrow> first_report (rev (cr_text r))
      | Some p \<Rightarrow> Some p)"

definition cr_finish :: "bool \<Rightarrow> coder_reducer \<Rightarrow> worker_result" where
  "cr_finish settlement_expired r =
     (let nested = nested_state_of (cr_result r) (cr_active r) settlement_expired in
      case cr_result r of
        None \<Rightarrow>
          \<lparr>r_outcome = OutFailed, r_summary = ''No result was received.'', r_files = [],
           r_validation = [], r_risks = [], r_requested_model = cr_requested r,
           r_resolved_model = Some (cr_resolved r), r_actual_models = cr_models r,
           r_session_id = None, r_nested_state = nested, r_warnings = [],
           r_errors = [''result_missing'']\<rparr>
      | Some ev \<Rightarrow>
          (case cr_report r ev of
             None \<Rightarrow>
               \<lparr>r_outcome = (if re_is_error ev then OutFailed else OutPartial),
                r_summary = (case re_result ev of None \<Rightarrow> [] | Some t \<Rightarrow> t), r_files = [],
                r_validation = [], r_risks = [], r_requested_model = cr_requested r,
                r_resolved_model = Some (cr_resolved r), r_actual_models = cr_models r,
                r_session_id = Some (re_session_id ev), r_nested_state = nested,
                r_warnings = ''report_contract_unparseable'' # nested_warnings nested,
                r_errors = re_errors ev @ re_permission_denials ev\<rparr>
           | Some p \<Rightarrow>
               \<lparr>r_outcome = (if re_is_error ev then OutFailed else c_outcome p),
                r_summary = c_summary p, r_files = c_files p, r_validation = c_validation p,
                r_risks = c_risks p, r_requested_model = cr_requested r,
                r_resolved_model = Some (cr_resolved r), r_actual_models = cr_models r,
                r_session_id = Some (re_session_id ev), r_nested_state = nested,
                r_warnings = nested_warnings nested,
                r_errors = re_errors ev @ re_permission_denials ev\<rparr>))"

section \<open>The coder's reducer is a stream reducer\<close>

interpretation coder_stream:
  stream_reducer "new_coder_reducer requested resolved" cr_apply cr_active cr_models cr_result
  for requested resolved
proof unfold_locales
  fix e r t
  show "cr_models (cr_apply e r) = fold add_once (models_mentioned e) (cr_models r)"
  proof (cases e)
    case (AssistantEvent texts tools model)
    then show ?thesis by (cases model) simp_all
  qed simp_all
  show "t \<in> cr_active (cr_apply e r) \<longleftrightarrow> starts_task t e \<or> (t \<in> cr_active r \<and> \<not> ends_task t e)"
    by (cases e) auto
  show "cr_result (cr_apply e r) = (case result_of e of None \<Rightarrow> cr_result r | Some x \<Rightarrow> Some x)"
    by (cases e) auto
qed (simp_all add: new_coder_reducer_def)

lemma cr_fixed_fold [simp]:
  "cr_requested (fold cr_apply evs r) = cr_requested r"
  "cr_resolved (fold cr_apply evs r) = cr_resolved r"
proof -
  have "cr_requested (cr_apply e r) = cr_requested r \<and> cr_resolved (cr_apply e r) = cr_resolved r" for e r
    by (cases e) simp_all
  then show "cr_requested (fold cr_apply evs r) = cr_requested r"
    "cr_resolved (fold cr_apply evs r) = cr_resolved r"
    by (induction evs arbitrary: r) simp_all
qed

text \<open>The assistant's texts of a stream, in order.\<close>

fun texts_of :: "adapter_event \<Rightarrow> string list" where
  "texts_of (AssistantEvent texts tools model) = texts"
| "texts_of _ = []"

lemma cr_text_fold: "cr_text (fold cr_apply evs r) = cr_text r @ concat (map texts_of evs)"
proof (induction evs arbitrary: r)
  case (Cons e evs)
  have "cr_text (cr_apply e r) = cr_text r @ texts_of e" by (cases e) simp_all
  with Cons show ?case by simp
qed simp

lemma first_report_Some:
  "first_report ts = Some p \<longleftrightarrow>
   (\<exists>pre t post. ts = pre @ t # post \<and> parse_coder_report (Some t) = Some p
      \<and> (\<forall>u \<in> set pre. parse_coder_report (Some u) = None))"
proof (induction ts)
  case (Cons t ts)
  then show ?case
    by (simp only: first_report.simps split_first_Cons) (auto split: option.split)
qed simp

lemma first_report_rev:
  "first_report (rev ts) = Some p \<longleftrightarrow>
   (\<exists>pre t post. ts = pre @ t # post \<and> parse_coder_report (Some t) = Some p
      \<and> (\<forall>u \<in> set post. parse_coder_report (Some u) = None))"
  unfolding first_report_Some by (rule split_rev)

text \<open>The report of a coding run is the result's own text when it satisfies the contract, and
  otherwise the latest assistant text that does; when there is none the run is at best partial
  and says \<open>report_contract_unparseable\<close>. An error flag makes it failed whatever the report says.\<close>

lemma coder_report_source:
  "let r = cr_finish expired (fold cr_apply evs (new_coder_reducer requested resolved));
       texts = concat (map texts_of evs)
   in case last_result evs of
        None \<Rightarrow> r_outcome r = OutFailed \<and> r_errors r = [''result_missing'']
      | Some ev \<Rightarrow>
          (\<exists>p. (parse_coder_report (re_result ev) = Some p
                  \<or> parse_coder_report (re_result ev) = None
                     \<and> (\<exists>pre t post. texts = pre @ t # post \<and> parse_coder_report (Some t) = Some p
                          \<and> list_all (\<lambda>u. parse_coder_report (Some u) = None) post))
               \<and> r_outcome r = (if re_is_error ev then OutFailed else c_outcome p)
               \<and> (r_summary r, r_files r, r_validation r, r_risks r)
                   = (c_summary p, c_files p, c_validation p, c_risks p)
               \<and> ''report_contract_unparseable'' \<notin> set (r_warnings r))
          \<or> (parse_coder_report (re_result ev) = None
             \<and> list_all (\<lambda>t. parse_coder_report (Some t) = None) texts
             \<and> r_outcome r = (if re_is_error ev then OutFailed else OutPartial)
             \<and> ''report_contract_unparseable'' \<in> set (r_warnings r))"
proof (cases "last_result evs")
  case None
  then show ?thesis by (simp add: cr_finish_def Let_def coder_stream.received_fold)
next
  case (Some ev)
  let ?R = "fold cr_apply evs (new_coder_reducer requested resolved)"
  let ?texts = "concat (map texts_of evs)"
  have texts: "cr_text ?R = ?texts" by (simp add: cr_text_fold) (simp add: new_coder_reducer_def)
  have none: "first_report ts = None \<longleftrightarrow> (\<forall>t \<in> set ts. parse_coder_report (Some t) = None)" for ts
    by (induction ts) (auto split: option.splits)
  have warn: "''report_contract_unparseable'' \<notin> set (nested_warnings n)" for n
    by (simp add: nested_warnings_def)
  show ?thesis
  proof (cases "cr_report ?R ev")
    case None
    then have "parse_coder_report (re_result ev) = None"
        "\<forall>t \<in> set ?texts. parse_coder_report (Some t) = None"
      by (auto simp: cr_report_def texts none split: option.splits)
    with Some None show ?thesis
      by (simp add: cr_finish_def Let_def coder_stream.received_fold list_all_iff)
  next
    case p: (Some p)
    then have "parse_coder_report (re_result ev) = Some p
        \<or> parse_coder_report (re_result ev) = None \<and> first_report (rev ?texts) = Some p"
      by (auto simp: cr_report_def texts split: option.splits)
    with Some p show ?thesis
      unfolding first_report_rev
      by (auto simp: cr_finish_def Let_def coder_stream.received_fold warn list_all_iff)
  qed
qed

text \<open>C33: The bookkeeping of the coder's reducer agrees with the auditor's on every stream: the
  same nested state, actual models, session and errors.\<close>

theorem coder_agrees_with_auditor:
  "let a = rr_finish expired (fold rr_apply evs (new_reducer requested (Some resolved)));
       c = cr_finish expired (fold cr_apply evs (new_coder_reducer requested resolved))
   in r_nested_state c = r_nested_state a \<and> r_actual_models c = r_actual_models a
      \<and> r_session_id c = r_session_id a \<and> r_errors c = r_errors a
      \<and> r_requested_model c = r_requested_model a \<and> r_resolved_model c = r_resolved_model a"
  by (auto simp: rr_finish_def cr_finish_def Let_def audit_stream.received_fold
      coder_stream.received_fold audit_stream.models_fold coder_stream.models_fold
      audit_stream.active_set coder_stream.active_set split: option.splits)
    (simp_all add: new_reducer_def new_coder_reducer_def)

end
