(* ===== verification/Redaction.thy ===== *)
theory Redaction
  imports Py_Regex
begin

text \<open>
  Credential recognition and redaction, which the source repeats in three modules:
  the patterns of \<open>src/qworker/store.py\<close> and \<open>src/qworker/control.py\<close>, \<open>_redact_result_text\<close>
  (store), \<open>safe_display_text\<close> (control) and \<open>_redact\<close>, \<open>_safe_bounded_text\<close> (qoder_sdk).

  The process environment is an argument, \<open>environ\<close>. What the callers rely on is the locale
  \<open>redactor\<close>: redaction removes the secrets it knows and lets no maskable secret appear that
  was not there. It is interpreted on each of the redaction functions.
\<close>

section \<open>The environment and its credentials\<close>

type_synonym environ = "string \<Rightarrow> string option"

definition credential_env_vars :: "string list" where
  "credential_env_vars =
     [''QODER_PERSONAL_ACCESS_TOKEN'', ''QODER_SERVICE_ACCOUNT_KEY'',
      ''QODERCN_PERSONAL_ACCESS_TOKEN'', ''QODERCN_SERVICE_ACCOUNT_KEY'']"

text \<open>The values that pass the test \<open>if secret\<close>.\<close>

definition env_secrets :: "environ \<Rightarrow> string list" where
  "env_secrets env = filter (\<lambda>s. s \<noteq> []) (List.map_filter env credential_env_vars)"

section \<open>Patterns\<close>

definition rx_metadata :: rx where
  "rx_metadata = rx_seq [RxChar is_alnum, RxRep 0 (Some 127) (RxChar (alnum_or ''._:-'')), RxEnd]"

definition rx_version :: rx where
  "rx_version = rx_seq
     [rx_opt (rx_lit_ci ''v''), RxRep 1 None (RxChar is_digit),
      RxRep 1 (Some 3) (rx_seq [rx_lit ''.'', RxRep 1 None (RxChar is_digit)]),
      rx_opt (rx_seq [rx_class ''-+'', RxRep 1 (Some 64) (RxChar (alnum_or ''._-''))]), RxEnd]"

definition rx_credential_key :: rx where
  "rx_credential_key =
     (let sep = rx_opt (rx_class ''_ -'') in
      rx_alt
       [rx_seq [rx_lit_ci ''api'', sep, rx_lit_ci ''key''], rx_lit_ci ''token'',
        rx_lit_ci ''secret'', rx_lit_ci ''credential'', rx_lit_ci ''password'',
        rx_lit_ci ''authorization'',
        rx_seq [rx_lit_ci ''private'', sep, rx_lit_ci ''key''],
        rx_seq [rx_lit_ci ''service'', sep, rx_lit_ci ''account'', sep, rx_lit_ci ''key'']])"

definition rx_credential_marker :: rx where
  "rx_credential_marker = rx_alt
     [rx_seq [RxStart, rx_lit_ci ''sk'', rx_class ''-_''],
      rx_seq [RxStart, rx_lit_ci ''pk'', rx_class ''-_''],
      rx_seq [RxStart, rx_lit_ci ''bearer'', rx_class ''._ -''],
      rx_credential_key]"

definition rx_jwt :: rx where
  "rx_jwt = (let part = RxRep 1 None (RxChar (alnum_or ''_-'')) in
     rx_seq [part, rx_lit ''.'', part, rx_lit ''.'', part, RxEnd])"

definition rx_aws_access_key :: rx where
  "rx_aws_access_key = rx_seq
     [rx_lit ''AKIA'', RxRep 16 (Some 16) (RxChar (\<lambda>c. is_upper c \<or> is_digit c)), RxEnd]"

definition rx_inline_credential :: rx where
  "rx_inline_credential =
     (let part = RxRep 4 None (RxChar (alnum_or ''_-'')) in
      rx_seq
       [RxNotBehind is_alnum,
        rx_alt
         [rx_seq [rx_alt [rx_lit_ci ''sk'', rx_lit_ci ''pk''], rx_class ''-_'', RxChar is_alnum,
                  RxRep 2 None (RxChar (alnum_or ''._-''))],
          rx_seq [rx_lit_ci ''bearer'', RxRep 1 None (rx_class '' ._-''),
                  RxRep 4 None (RxChar (alnum_or ''._~+/=-''))],
          rx_seq [rx_lit_ci ''akia'', RxRep 16 (Some 16) (RxChar is_alnum)],
          rx_seq [part, rx_lit ''.'', part, rx_lit ''.'', part]],
        RxNotAhead is_alnum])"

definition rx_keyed_credential :: rx where
  "rx_keyed_credential =
     (let sep = rx_opt (rx_class ''_ -''); blanks = RxRep 0 None (RxChar is_py_space) in
      rx_seq
       [RxBoundary,
        rx_alt
         [rx_seq [rx_lit_ci ''api'', sep, rx_lit_ci ''key''],
          rx_seq [rx_lit_ci ''access'', sep, rx_lit_ci ''token''],
          rx_lit_ci ''token'', rx_lit_ci ''secret'', rx_lit_ci ''credential'',
          rx_lit_ci ''password'', rx_lit_ci ''authorization''],
        RxBoundary,
        rx_alt [rx_seq [blanks, rx_class '':='', blanks], RxRep 1 None (RxChar is_py_space)],
        RxRep 1 None (RxChar (\<lambda>c. \<not> is_py_space c \<and> c \<noteq> CHR '','' \<and> c \<noteq> CHR '';''))])"

section \<open>Recognition\<close>

definition contains_sensitive_marker :: "string \<Rightarrow> bool" where
  "contains_sensitive_marker v =
     (rx_search rx_credential_marker v \<or> rx_fullmatch rx_jwt v \<or> rx_fullmatch rx_aws_access_key v)"

definition safe_metadata_text :: "string \<Rightarrow> bool" where
  "safe_metadata_text v =
     (rx_fullmatch rx_metadata v \<and>
      \<not> (rx_search rx_credential_marker v \<or> rx_fullmatch rx_jwt v
         \<or> rx_fullmatch rx_aws_access_key v))"

definition credential_result_key :: "environ \<Rightarrow> string \<Rightarrow> bool" where
  "credential_result_key env key =
     (rx_search rx_credential_key key \<or> contains_sensitive_marker key
      \<or> list_ex (\<lambda>s. contains s key) (env_secrets env))"

section \<open>Redaction\<close>

text \<open>The loops \<open>if secret: safe = safe.replace(secret, "[REDACTED]")\<close>.\<close>

definition replace_secrets :: "string list \<Rightarrow> string \<Rightarrow> string" where
  "replace_secrets secrets v =
     fold (\<lambda>s safe. if s = [] then safe else py_replace s redaction_mark safe) secrets v"

definition redact_result_text :: "environ \<Rightarrow> string \<Rightarrow> string" where
  "redact_result_text env v =
     rx_sub rx_keyed_credential (rx_sub rx_inline_credential (replace_secrets (env_secrets env) v))"

definition max_approval_prompt_chars :: nat where
  "max_approval_prompt_chars = 256"

definition safe_display_text :: "environ \<Rightarrow> string \<Rightarrow> string" where
  "safe_display_text env v =
     (let v1 = py_replace [CHR 0x0A] '' '' (py_replace [CHR 0x0D] '' '' (py_replace [CHR 0x00] [] v));
          v2 = replace_secrets (env_secrets env) v1;
          v3 = rx_sub rx_keyed_credential (rx_sub rx_inline_credential v2);
          v4 = py_join '' '' (py_split v3)
      in if length v4 \<le> max_approval_prompt_chars then v4
         else take (max_approval_prompt_chars - 3) v4 @ ''...'')"

text \<open>\<open>_redact\<close>, \<open>_bounded_text\<close> and \<open>_safe_bounded_text\<close> of the SDK adapter; the second
  argument is the client's own credentials.\<close>

definition adapter_redact :: "environ \<Rightarrow> string list \<Rightarrow> string \<Rightarrow> string" where
  "adapter_redact env creds v = replace_secrets (env_secrets env) (replace_secrets creds v)"

definition max_system_diagnostic_chars :: nat where
  "max_system_diagnostic_chars = 512"

definition bounded_text :: "string \<Rightarrow> string" where
  "bounded_text v =
     (if length v \<le> max_system_diagnostic_chars then v
      else take (max_system_diagnostic_chars - 3) v @ ''...'')"

definition safe_bounded_text :: "environ \<Rightarrow> string list \<Rightarrow> string \<Rightarrow> string" where
  "safe_bounded_text env creds v = bounded_text (adapter_redact env creds v)"

section \<open>What redaction guarantees\<close>

locale secret_remover =
  fixes redact :: "string \<Rightarrow> string"
    and hideable :: "string \<Rightarrow> bool"
    and secrets :: "string list"
  assumes removes: "hideable s \<Longrightarrow> s \<in> set secrets \<Longrightarrow> \<not> contains s (redact u)"
begin

lemma removes_then:
  "hideable s \<Longrightarrow> s \<in> set secrets \<Longrightarrow> (\<And>v. \<not> contains s v \<Longrightarrow> \<not> contains s (f v)) \<Longrightarrow>
   \<not> contains s (f (redact u))"
  by (simp add: removes)

lemma take_removes: "hideable s \<Longrightarrow> s \<in> set secrets \<Longrightarrow> \<not> contains s (take n (redact u))"
  using removes contains_take by blast

end

locale redactor = secret_remover +
  assumes keeps_clean: "hideable s \<Longrightarrow> \<not> contains s u \<Longrightarrow> \<not> contains s (redact u)"
begin

lemma twice_removes: "hideable s \<Longrightarrow> s \<in> set secrets \<Longrightarrow> \<not> contains s (redact (redact u))"
  by (simp add: removes)

end

lemma replace_secrets_keeps_clean:
  "maskable s \<Longrightarrow> \<not> contains s u \<Longrightarrow> \<not> contains s (replace_secrets ts u)"
proof (induction ts arbitrary: u)
  case (Cons t ts)
  have "\<not> contains s (if t = [] then u else py_replace t redaction_mark u)"
    using Cons.prems masks_keeps_clean [OF py_replace_masks [of t u]] by auto
  with Cons show ?case by (simp add: replace_secrets_def)
qed (simp add: replace_secrets_def)

lemma replace_secrets_removes:
  "maskable s \<Longrightarrow> s \<in> set ts \<Longrightarrow> \<not> contains s (replace_secrets ts u)"
proof (induction ts arbitrary: u)
  case (Cons t ts)
  show ?case
  proof (cases "s = t")
    case True
    have "\<not> contains s (replace_secrets ts (py_replace s redaction_mark u))"
      using Cons.prems(1) by (intro replace_secrets_keeps_clean py_replace_removes)
    with True Cons.prems(1) show ?thesis by (simp add: replace_secrets_def maskable_def)
  next
    case False
    with Cons show ?thesis by (simp add: replace_secrets_def)
  qed
qed simp

lemma rx_sub_keeps_clean: "maskable s \<Longrightarrow> \<not> contains s u \<Longrightarrow> \<not> contains s (rx_sub r u)"
  by (rule masks_keeps_clean [OF rx_sub_masks])

interpretation env_redactor: redactor "redact_result_text env" maskable "env_secrets env" for env
  by unfold_locales
    (simp_all add: redact_result_text_def rx_sub_keeps_clean replace_secrets_keeps_clean
      replace_secrets_removes)

lemma adapter_redact_removes:
  "maskable s \<Longrightarrow> s \<in> set (creds @ env_secrets env) \<Longrightarrow> \<not> contains s (adapter_redact env creds u)"
  by (cases "s \<in> set (env_secrets env)")
    (simp_all add: adapter_redact_def replace_secrets_keeps_clean replace_secrets_removes)

lemma adapter_redact_keeps_clean:
  "maskable s \<Longrightarrow> \<not> contains s u \<Longrightarrow> \<not> contains s (adapter_redact env creds u)"
  by (simp add: adapter_redact_def replace_secrets_keeps_clean)

interpretation adapter_redactor:
  redactor "adapter_redact env creds" maskable "creds @ env_secrets env" for env creds
  by unfold_locales
    (simp_all only: adapter_redact_removes adapter_redact_keeps_clean not_False_eq_True)

section \<open>Truncation and display text\<close>

text \<open>
  Truncated texts end in \<open>...\<close>, so a secret must not end in a full stop to stay out of them;
  display text is rebuilt from its words, so a secret must contain no white space.
\<close>

definition plain_secret :: "string \<Rightarrow> bool" where
  "plain_secret s = (maskable s \<and> last s \<noteq> CHR ''.'' \<and> list_all (\<lambda>c. \<not> is_py_space c) s)"

lemma truncated_clean:
  "s \<noteq> [] \<Longrightarrow> last s \<noteq> CHR ''.'' \<Longrightarrow> \<not> contains s u \<Longrightarrow> \<not> contains s (take n u @ ''...'')"
  using contains_snoc_block [of s "CHR ''.''" "''...''" "take n u"] contains_take [of s n u] by auto

lemma bounded_text_clean:
  "s \<noteq> [] \<Longrightarrow> last s \<noteq> CHR ''.'' \<Longrightarrow> \<not> contains s u \<Longrightarrow> \<not> contains s (bounded_text u)"
  by (simp add: bounded_text_def truncated_clean)

lemma length_bounded_text: "length (bounded_text u) \<le> max_system_diagnostic_chars"
  by (simp add: bounded_text_def max_system_diagnostic_chars_def)

lemma py_split_parts: "w \<in> set (py_split s) \<Longrightarrow> contains w s"
proof (induction s rule: py_split.induct)
  case (1 s)
  show ?case
  proof (cases "dropWhile is_py_space s")
    case Nil
    with 1 show ?thesis by (simp add: py_split.simps [of s])
  next
    case (Cons c t)
    have s: "s = takeWhile is_py_space s @ c # takeWhile (\<lambda>x. \<not> is_py_space x) t
        @ dropWhile (\<lambda>x. \<not> is_py_space x) t"
      using Cons takeWhile_dropWhile_id [of is_py_space s]
        takeWhile_dropWhile_id [of "\<lambda>x. \<not> is_py_space x" t] by metis
    from Cons "1.prems" consider "w = c # takeWhile (\<lambda>x. \<not> is_py_space x) t"
      | "w \<in> set (py_split (dropWhile (\<lambda>x. \<not> is_py_space x) t))"
      by (auto simp: py_split.simps [of s])
    then show ?thesis
    proof cases
      case 1
      then show ?thesis using s unfolding contains_iff by (metis append_Cons)
    next
      case 2
      with "1.IH" Cons have "contains w (dropWhile (\<lambda>x. \<not> is_py_space x) t)" by simp
      then show ?thesis
        using s contains_append2 [of w _ "takeWhile is_py_space s
          @ c # takeWhile (\<lambda>x. \<not> is_py_space x) t"]
        by (metis append_Cons append_assoc)
    qed
  qed
qed

lemma contains_join:
  "s \<noteq> [] \<Longrightarrow> d \<notin> set s \<Longrightarrow> contains s (py_join [d] ws) \<Longrightarrow> \<exists>w \<in> set ws. contains s w"
proof (induction "[d]" ws rule: py_join.induct)
  case (3 x y xs)
  then have "contains s (x @ d # py_join [d] (y # xs))" by simp
  then have "contains s x \<or> contains s (py_join [d] (y # xs))"
    using 3 contains_separator by blast
  with 3 show ?case by auto
qed auto

lemma collapse_clean:
  assumes "plain_secret s" and "\<not> contains s u"
  shows "\<not> contains s (py_join '' '' (py_split u))"
proof
  assume "contains s (py_join '' '' (py_split u))"
  moreover have "CHR '' '' \<notin> set s"
    using assms(1) by (auto simp: plain_secret_def list_all_iff is_py_space_def)
  ultimately obtain w where "w \<in> set (py_split u)" "contains s w"
    using contains_join [of s "CHR '' ''"] assms(1)
    by (auto simp: plain_secret_def maskable_def)
  then have "contains s u" by (blast intro: contains_trans py_split_parts)
  with assms(2) show False by simp
qed

interpretation display_redactor: secret_remover "safe_display_text env" plain_secret "env_secrets env"
  for env
proof unfold_locales
  fix s u
  assume s: "plain_secret s" and "s \<in> set (env_secrets env)"
  then have m: "maskable s" "s \<noteq> []" "last s \<noteq> CHR ''.''"
    by (simp_all add: plain_secret_def maskable_def)
  show "\<not> contains s (safe_display_text env u)"
    using s m \<open>s \<in> set (env_secrets env)\<close>
    by (simp add: safe_display_text_def Let_def collapse_clean truncated_clean
        rx_sub_keeps_clean replace_secrets_removes)
qed

lemma length_safe_display_text: "length (safe_display_text env u) \<le> max_approval_prompt_chars"
  by (simp add: safe_display_text_def max_approval_prompt_chars_def Let_def)

end
