(* ===== verification/Policies.thy ===== *)
theory Policies
  imports Prelude Json
begin

text \<open>
  The two pure policies: \<open>src/qworker/model_policy.py\<close> (which catalog model a request resolves
  to) and \<open>src/qworker/auditor_policy.py\<close> (which tools an auditor and its nested helpers may
  use).
\<close>

section \<open>Model resolution\<close>

record available_model =
  m_value :: string
  m_enabled :: bool

record model_resolution =
  res_requested :: string
  res_resolved :: string
  res_used_fallback :: bool

definition model_aliases :: "string \<Rightarrow> string list option" where
  "model_aliases requested = map_of
     [(''qwen-auditor'', [''Qwen3.8-Max'', ''Qwen3.7-Max'', ''Auto'']),
      (''qwen-coder'', [''Qwen3.8-Max'', ''Qwen3.7-Max'', ''Auto''])] requested"

definition enabled_models :: "available_model list \<Rightarrow> string list" where
  "enabled_models catalog = map m_value (filter m_enabled catalog)"

text \<open>The loop over \<open>enumerate(candidates)\<close>, from the given index.\<close>

fun first_enabled :: "nat \<Rightarrow> string list \<Rightarrow> string list \<Rightarrow> (nat \<times> string) option" where
  "first_enabled i enabled [] = None"
| "first_enabled i enabled (c # cs) =
     (if c \<in> set enabled then Some (i, c) else first_enabled (Suc i) enabled cs)"

definition resolve_model :: "string \<Rightarrow> available_model list \<Rightarrow> model_resolution res" where
  "resolve_model requested catalog =
     (let enabled = enabled_models catalog in
      case model_aliases requested of
        None \<Rightarrow>
          if requested \<in> set enabled
          then Inr \<lparr>res_requested = requested, res_resolved = requested, res_used_fallback = False\<rparr>
          else Inl (ModelUnavailableError (''Model is unavailable: '' @ requested))
      | Some candidates \<Rightarrow>
          (case first_enabled 0 enabled candidates of
             Some (index, candidate) \<Rightarrow>
               Inr \<lparr>res_requested = requested, res_resolved = candidate,
                    res_used_fallback = index > 0\<rparr>
           | None \<Rightarrow>
               Inl (ModelUnavailableError (''No enabled model is available for: '' @ requested))))"

text \<open>The models a request allows, in order of preference.\<close>

definition allowed_models :: "string \<Rightarrow> string list" where
  "allowed_models requested =
     (case model_aliases requested of None \<Rightarrow> [requested] | Some cs \<Rightarrow> cs)"

lemma first_enabled_split:
  "first_enabled i en cs = Some (j, c) \<longleftrightarrow>
   (\<exists>pre t post. cs = pre @ t # post \<and> (t = c \<and> t \<in> set en \<and> j = i + length pre)
      \<and> (\<forall>u \<in> set pre. u \<notin> set en))"
proof (induction i en cs rule: first_enabled.induct)
  case (2 i en c' cs)
  then show ?case
    by (simp only: first_enabled.simps split_first_Cons) auto
qed simp

lemma first_enabled_Some:
  "first_enabled i en cs = Some (j, c) \<longleftrightarrow>
   (\<exists>pre post. cs = pre @ c # post \<and> c \<in> set en \<and> set pre \<inter> set en = {} \<and> j = i + length pre)"
  unfolding first_enabled_split by auto

lemma first_enabled_None: "first_enabled i en cs = None \<longleftrightarrow> set cs \<inter> set en = {}"
  by (induction i en cs rule: first_enabled.induct) auto

lemma set_enabled_models:
  "m \<in> set (enabled_models catalog) \<longleftrightarrow> (\<exists>a \<in> set catalog. m_value a = m \<and> m_enabled a)"
  by (auto simp: enabled_models_def)

lemma resolve_model_iff:
  "resolve_model requested catalog = Inr r \<longleftrightarrow>
   res_requested r = requested \<and>
   (\<exists>pre post. allowed_models requested = pre @ res_resolved r # post
      \<and> res_resolved r \<in> set (enabled_models catalog)
      \<and> set pre \<inter> set (enabled_models catalog) = {}
      \<and> res_used_fallback r = (pre \<noteq> []))
   \<and> model_resolution.more r = ()"
proof (cases "model_aliases requested")
  case None
  then show ?thesis
    by (cases r) (auto simp: resolve_model_def allowed_models_def Let_def Cons_eq_append_conv)
next
  case (Some cs)
  let ?en = "enabled_models catalog"
  have "(\<exists>pre post. cs = pre @ res_resolved r # post \<and> res_resolved r \<in> set ?en
          \<and> set pre \<inter> set ?en = {} \<and> res_used_fallback r = (pre \<noteq> [])) \<longleftrightarrow>
        (\<exists>j. first_enabled 0 ?en cs = Some (j, res_resolved r) \<and> res_used_fallback r = (0 < j))"
    by (auto simp: first_enabled_Some)
  with Some show ?thesis
    by (cases r) (auto simp: resolve_model_def allowed_models_def Let_def split: option.splits)
qed

lemma resolve_model_sound:
  "resolve_model requested catalog = Inr r \<Longrightarrow>
   res_resolved r \<in> set (allowed_models requested) \<and> res_resolved r \<in> set (enabled_models catalog)"
  by (auto simp: resolve_model_iff)

text \<open>Model resolution returns the first allowed model that the catalog has enabled: the
  requested name alone when it is no alias, otherwise the alias's candidates in their order; the
  fallback flag is set exactly when an earlier candidate was passed over.\<close>

lemma resolve_model_first_allowed:
  "resolve_model requested catalog = Inr r \<longleftrightarrow>
   res_requested r = requested \<and>
   (\<exists>pre post. allowed_models requested = pre @ res_resolved r # post
      \<and> res_resolved r \<in> set (enabled_models catalog)
      \<and> set pre \<inter> set (enabled_models catalog) = {}
      \<and> res_used_fallback r = (pre \<noteq> []))
   \<and> model_resolution.more r = ()"
  by (rule resolve_model_iff)

text \<open>Resolution fails, with the unavailable-model error, exactly when no allowed model is
  enabled in the catalog: an unlisted model is never substituted.\<close>

lemma resolve_model_unavailable:
  "(\<exists>m. resolve_model requested catalog = Inl (ModelUnavailableError m)) \<longleftrightarrow>
   set (allowed_models requested) \<inter> set (enabled_models catalog) = {}"
proof (cases "model_aliases requested")
  case None
  then show ?thesis by (auto simp: resolve_model_def allowed_models_def)
next
  case (Some cs)
  then show ?thesis
    using first_enabled_None [of 0 "enabled_models catalog" cs]
    by (cases "first_enabled 0 (enabled_models catalog) cs")
      (auto simp: resolve_model_def allowed_models_def)
qed

section \<open>Auditor tool policy\<close>

definition submit_audit_tool :: string where
  "submit_audit_tool = ''mcp__qworker_audit__submit_audit''"

record policy_decision =
  allowed :: bool
  reason :: string

definition visible_tools :: "string list" where
  "visible_tools = [''Read'', ''Glob'', ''Grep'', ''WebFetch'', ''WebSearch'', ''Agent'']"

definition denied_tools :: "string list" where
  "denied_tools = [''Write'', ''Edit'', ''Bash'', ''NotebookEdit'']"

definition decide :: "string \<Rightarrow> string option \<Rightarrow> policy_decision" where
  "decide tool_name agent_id =
     (let ok = (if tool_name = submit_audit_tool then agent_id = None
                else tool_name \<in> set visible_tools
                     \<and> \<not> (agent_id \<noteq> None \<and> tool_name = ''Agent''))
      in \<lparr>allowed = ok, reason = (if ok then ''auditor_tool_allowed'' else ''auditor_tool_denied'')\<rparr>)"

definition read_only_tools :: "string set" where
  "read_only_tools = {''Read'', ''Glob'', ''Grep'', ''WebFetch'', ''WebSearch''}"

text \<open>The auditor policy fails closed: a nested helper is allowed exactly the read-only
  tools, the top-level auditor in addition the spawning and the report tool, and no denied or
  unknown tool is allowed to anyone.\<close>

lemma decide_fail_closed:
  "(allowed (decide tool agent) \<longleftrightarrow>
      tool \<in> read_only_tools \<or> (agent = None \<and> tool \<in> {''Agent'', submit_audit_tool}))
   \<and> \<not> (tool \<in> set denied_tools \<and> allowed (decide tool agent))"
  by (auto simp: decide_def read_only_tools_def visible_tools_def denied_tools_def
      submit_audit_tool_def Let_def)

end
