(* ===== verification/Adapter.thy ===== *)
theory Adapter
  imports Reducer Redaction Json_Codec Policies
begin

text \<open>
  The SDK adapter, \<open>src/qworker/qoder_sdk.py\<close>: classification of SDK failures, the mapping of SDK
  messages to normalized events, the transport object and the permission bridge.

  The SDK is third-party code: what its calls return or raise, and the messages of its stream,
  are arguments. The stream is a list of \<open>sdk_item\<close>s; between two messages the runtime may call
  the \<open>submit_audit\<close> tool, which fills the transport's report capture.
\<close>

section \<open>Failure classification\<close>

datatype sdk_operation =
    OpInitialize | OpRuntimeConstruction | OpModelDiscovery | OpModelSelection | OpQuery
  | OpSteer | OpCancelMessage | OpInterrupt | OpStream | OpDisconnect

definition initialize_timeout_text :: string where
  "initialize_timeout_text = ''control request timeout: initialize''"

fun is_timeout :: "py_exn \<Rightarrow> bool" where
  "is_timeout (TimeoutError m) = True"
| "is_timeout _ = False"

fun is_not_found :: "py_exn \<Rightarrow> bool" where
  "is_not_found (CLINotFoundError m) = True"
| "is_not_found (FileNotFoundError m) = True"
| "is_not_found _ = False"

fun classify_code :: "sdk_operation \<Rightarrow> py_exn \<Rightarrow> string" where
  "classify_code op (AdapterDiagnostic code m) = code"
| "classify_code op (AuthSetupError n m) = ''auth_required''"
| "classify_code op e =
     (if op \<in> {OpInitialize, OpRuntimeConstruction} then
        (if is_timeout e \<or> contains initialize_timeout_text (map to_lower (exn_text e))
         then ''initialize_timeout''
         else if is_not_found e then ''runtime_not_found''
         else ''sdk_protocol_error'')
      else ''sdk_protocol_error'')"

definition classify_sdk_error ::
    "environ \<Rightarrow> sdk_operation \<Rightarrow> string list \<Rightarrow> py_exn \<Rightarrow> py_exn" where
  "classify_sdk_error env op creds e =
     AdapterDiagnostic (classify_code op e) (safe_bounded_text env creds (exn_text e))"

definition call_sdk ::
    "environ \<Rightarrow> sdk_operation \<Rightarrow> string list \<Rightarrow> 'a res \<Rightarrow> 'a res" where
  "call_sdk env op creds r =
     (case r of
        Inr x \<Rightarrow> Inr x
      | Inl e \<Rightarrow> if e = CancelledError then Inl e else Inl (classify_sdk_error env op creds e))"

section \<open>SDK messages\<close>

datatype content_block = TextBlock string | ToolUseBlock string | OtherBlock

record sdk_result =
  sr_session_id :: string
  sr_is_error :: bool
  sr_result :: "string option"
  sr_model_usage :: "string list option"
  sr_permission_denials :: "(string option \<times> string option) list option"
  sr_errors :: "string list option"

datatype sdk_message =
    AssistantMessage "content_block list" string
  | TaskStartedMessage string string
  | TaskProgressMessage string string "string option"
  | TaskNotificationMessage string task_status
  | PermissionDeniedMessage string string
  | SystemMessage string json
  | ResultMessage sdk_result
  | OtherMessage

fun block_text :: "content_block \<Rightarrow> string option" where
  "block_text (TextBlock t) = Some t"
| "block_text _ = None"

fun block_tool :: "content_block \<Rightarrow> string option" where
  "block_tool (ToolUseBlock n) = Some n"
| "block_tool _ = None"

text \<open>\<open>json.dumps(data, ensure_ascii=False, sort_keys=True, default=repr)\<close>, with its default
  separators; \<open>repr\<close> of a value that is not JSON is an argument.\<close>

fun spaced_text :: "string \<Rightarrow> json \<Rightarrow> string" where
  "spaced_text r (JList xs) = ''['' @ py_join '', '' (map (spaced_text r) xs) @ '']''"
| "spaced_text r (JDict d) =
     (let items = map (\<lambda>kv. (fst kv, spaced_text r (snd kv))) d
      in ''{'' @ py_join '', '' (map (\<lambda>(k, t). string_text False k @ '': '' @ t) (sort_key fst items))
         @ ''}'')"
| "spaced_text r JOpaque = string_text False r"
| "spaced_text r JNull = ''null''"
| "spaced_text r (JBool b) = (if b then ''true'' else ''false'')"
| "spaced_text r (JInt i) = int_text i"
| "spaced_text r (JFloat f) = float_text f"
| "spaced_text r (JStr s) = string_text False s"

definition bounded_diagnostic :: "environ \<Rightarrow> string list \<Rightarrow> string \<Rightarrow> json \<Rightarrow> string" where
  "bounded_diagnostic env creds r data = safe_bounded_text env creds (spaced_text r data)"

definition permission_summary :: "environ \<Rightarrow> string list \<Rightarrow> string \<Rightarrow> string \<Rightarrow> string" where
  "permission_summary env creds tool_name message =
     safe_bounded_text env creds (tool_name @ '': '' @ message)"

definition or_default :: "'a \<Rightarrow> 'a option \<Rightarrow> 'a" where
  "or_default d x = (case x of None \<Rightarrow> d | Some y \<Rightarrow> y)"

fun map_sdk_message ::
    "environ \<Rightarrow> string list \<Rightarrow> string \<Rightarrow> sdk_message \<Rightarrow> adapter_event option" where
  "map_sdk_message env creds r (AssistantMessage content model) =
     Some (AssistantEvent (map (adapter_redact env creds) (List.map_filter block_text content))
       (map (adapter_redact env creds) (List.map_filter block_tool content))
       (Some (adapter_redact env creds model)))"
| "map_sdk_message env creds r (TaskStartedMessage t d) =
     Some (TaskStartedEvent (adapter_redact env creds t) (adapter_redact env creds d))"
| "map_sdk_message env creds r (TaskProgressMessage t d tool) =
     Some (TaskProgressEvent (adapter_redact env creds t) (adapter_redact env creds d)
       (map_option (adapter_redact env creds) tool))"
| "map_sdk_message env creds r (TaskNotificationMessage t status) =
     Some (TaskTerminalEvent (adapter_redact env creds t) status)"
| "map_sdk_message env creds r (PermissionDeniedMessage tool msg) =
     Some (SystemEvent ''permission_denied'' (permission_summary env creds tool msg))"
| "map_sdk_message env creds r (SystemMessage subtype data) =
     Some (SystemEvent (safe_bounded_text env creds subtype) (bounded_diagnostic env creds r data))"
| "map_sdk_message env creds r (ResultMessage m) =
     Some (ResultEvent
       \<lparr>re_session_id = adapter_redact env creds (sr_session_id m),
        re_is_error = sr_is_error m,
        re_result = map_option (adapter_redact env creds) (sr_result m),
        re_model_usage = map (adapter_redact env creds) (or_default [] (sr_model_usage m)),
        re_permission_denials =
          map (\<lambda>(t, x). permission_summary env creds (or_default ''unknown'' t) (or_default ''denied'' x))
            (or_default [] (sr_permission_denials m)),
        re_errors = map (adapter_redact env creds) (or_default [] (sr_errors m))\<rparr>)"
| "map_sdk_message env creds r OtherMessage = None"

section \<open>Redaction of a submitted report\<close>

fun redact_json_value :: "(string \<Rightarrow> string) \<Rightarrow> json \<Rightarrow> json" where
  "redact_json_value f (JStr s) = JStr (f s)"
| "redact_json_value f (JList xs) = JList (map (redact_json_value f) xs)"
| "redact_json_value f (JDict d) = JDict (map (\<lambda>kv. (fst kv, redact_json_value f (snd kv))) d)"
| "redact_json_value f v = v"

definition redact_json_text :: "environ \<Rightarrow> string list \<Rightarrow> string \<Rightarrow> string" where
  "redact_json_text env creds v =
     (case json_loads v of
        None \<Rightarrow> adapter_redact env creds v
      | Some payload \<Rightarrow> json_text False True (redact_json_value (adapter_redact env creds) payload))"

section \<open>The message stream\<close>

datatype sdk_item = Received sdk_message | Submitted json | StreamRaises py_exn

datatype stream_item = Yield adapter_event | Raise py_exn

definition substitute_report ::
    "environ \<Rightarrow> string list \<Rightarrow> report_capture option \<Rightarrow> adapter_event \<Rightarrow> adapter_event" where
  "substitute_report env creds capture event =
     (case (event, Option.bind capture report_text) of
        (ResultEvent ev, Some submitted) \<Rightarrow>
          ResultEvent (ev\<lparr>re_result := Some (redact_json_text env creds submitted)\<rparr>)
      | _ \<Rightarrow> event)"

text \<open>An error of the stream as it leaves the generator.\<close>

fun stream_error :: "environ \<Rightarrow> string list \<Rightarrow> py_exn \<Rightarrow> py_exn" where
  "stream_error env creds (ProcessError m) = EOFError ''QoderCLI process exited.''"
| "stream_error env creds CancelledError = CancelledError"
| "stream_error env creds e = classify_sdk_error env OpStream creds e"

fun messages ::
    "environ \<Rightarrow> string list \<Rightarrow> string \<Rightarrow> report_capture option \<Rightarrow> sdk_item list \<Rightarrow> stream_item list"
where
  "messages env creds r capture [] = []"
| "messages env creds r capture (StreamRaises e # items) = [Raise (stream_error env creds e)]"
| "messages env creds r capture (Submitted payload # items) =
     messages env creds r (map_option (\<lambda>c. fst (record_report c payload)) capture) items"
| "messages env creds r capture (Received m # items) =
     (case map_sdk_message env creds r m of
        None \<Rightarrow> messages env creds r capture items
      | Some event \<Rightarrow>
          Yield (substitute_report env creds capture event) # messages env creds r capture items)"

section \<open>The transport object\<close>

record sdk_transport =
  st_creds :: "string list"
  st_capture :: "report_capture option"
  st_identifiers :: "(string \<times> string) list"
  st_disconnected :: bool

text \<open>\<open>available_models\<close>: entries without a string \<open>value\<close> and a boolean \<open>isEnabled\<close> are skipped;
  the identifiers are replaced only when the whole catalog was read.\<close>

fun load_catalog ::
    "environ \<Rightarrow> string list \<Rightarrow> json list \<Rightarrow> available_model list \<times> (string \<times> string) list \<Rightarrow>
     available_model list \<times> (string \<times> string) list" where
  "load_catalog env creds [] acc = acc"
| "load_catalog env creds (item # items) (models, identifiers) =
     (case (jget item ''value'', jget item ''isEnabled'') of
        (Some (JStr identifier), Some (JBool enabled)) \<Rightarrow>
          (let safe_identifier = adapter_redact env creds identifier;
               value = (case jget item ''displayName'' of Some (JStr d) \<Rightarrow> d | _ \<Rightarrow> identifier);
               safe_value = adapter_redact env creds value
           in load_catalog env creds items
                (models @ [\<lparr>m_value = safe_value, m_enabled = enabled\<rparr>],
                 assoc_put safe_value safe_identifier identifiers))
      | _ \<Rightarrow> load_catalog env creds items (models, identifiers))"

definition available_models ::
    "environ \<Rightarrow> sdk_transport \<Rightarrow> json list res \<Rightarrow> sdk_transport \<times> available_model list res" where
  "available_models env t response =
     (case call_sdk env OpModelDiscovery (st_creds t) response of
        Inl e \<Rightarrow> (t, Inl e)
      | Inr catalog \<Rightarrow>
          (let (models, identifiers) = load_catalog env (st_creds t) catalog ([], [])
           in (t\<lparr>st_identifiers := identifiers\<rparr>, Inr models)))"

text \<open>The identifier that \<open>select_model\<close> passes to the SDK.\<close>

definition model_identifier :: "sdk_transport \<Rightarrow> string \<Rightarrow> string" where
  "model_identifier t model =
     (case map_of (st_identifiers t) model of None \<Rightarrow> model | Some i \<Rightarrow> i)"

definition select_model :: "environ \<Rightarrow> sdk_transport \<Rightarrow> (string \<Rightarrow> unit res) \<Rightarrow> string \<Rightarrow> unit res" where
  "select_model env t set_model model =
     call_sdk env OpModelSelection (st_creds t) (set_model (model_identifier t model))"

text \<open>The calls of the transport that only pass on to the client.\<close>

definition connect_client :: "environ \<Rightarrow> sdk_transport \<Rightarrow> unit res \<Rightarrow> unit res" where
  "connect_client env t response = call_sdk env OpInitialize (st_creds t) response"

definition send_prompt :: "environ \<Rightarrow> sdk_transport \<Rightarrow> (string \<Rightarrow> unit res) \<Rightarrow> string \<Rightarrow> unit res" where
  "send_prompt env t query prompt = call_sdk env OpQuery (st_creds t) (query prompt)"

definition steer_client ::
    "environ \<Rightarrow> sdk_transport \<Rightarrow> (string \<Rightarrow> string \<Rightarrow> string \<Rightarrow> unit res) \<Rightarrow> string \<Rightarrow> string \<Rightarrow> string \<Rightarrow> unit res" where
  "steer_client env t query message priority message_id = call_sdk env OpSteer (st_creds t) (query message priority message_id)"

definition cancel_client_message :: "environ \<Rightarrow> sdk_transport \<Rightarrow> (string \<Rightarrow> bool res) \<Rightarrow> string \<Rightarrow> bool res" where
  "cancel_client_message env t cancel message_id = call_sdk env OpCancelMessage (st_creds t) (cancel message_id)"

definition interrupt_client :: "environ \<Rightarrow> sdk_transport \<Rightarrow> unit res \<Rightarrow> unit res" where
  "interrupt_client env t response = call_sdk env OpInterrupt (st_creds t) response"

text \<open>\<open>disconnect\<close>, under its lock: whether the SDK is called, the new object and the outcome.\<close>

definition disconnect_transport ::
    "environ \<Rightarrow> sdk_transport \<Rightarrow> unit res \<Rightarrow> sdk_transport \<times> bool \<times> unit res" where
  "disconnect_transport env t response =
     (if st_disconnected t then (t, False, Inr ())
      else (case call_sdk env OpDisconnect (st_creds t) response of
              Inl e \<Rightarrow> (t, True, Inl e)
            | Inr u \<Rightarrow> (t\<lparr>st_disconnected := True\<rparr>, True, Inr ())))"

section \<open>Process abort\<close>

text \<open>A subprocess as the pinned SDK exposes it: the attribute may be missing, \<open>kill\<close> may be
  missing or raise.\<close>

datatype returncode = NoReturncode | StillRunning | ExitedWith int

datatype kill_outcome = KillMissing | KillOk | KillNoProcess | KillRaises

record sdk_process =
  returncode :: returncode
  kill :: kill_outcome

text \<open>\<open>_abort_sdk_process\<close>: whether \<open>kill\<close> was called, and whether the process is dealt with.\<close>

definition abort_sdk_process :: "sdk_process option \<Rightarrow> bool \<times> bool" where
  "abort_sdk_process process =
     (case process of
        None \<Rightarrow> (False, True)
      | Some p \<Rightarrow>
          (case returncode p of
             NoReturncode \<Rightarrow> (False, False)
           | ExitedWith c \<Rightarrow> (False, True)
           | StillRunning \<Rightarrow>
               (case kill p of
                  KillMissing \<Rightarrow> (False, False)
                | KillOk \<Rightarrow> (True, True)
                | KillNoProcess \<Rightarrow> (True, True)
                | KillRaises \<Rightarrow> (True, False))))"

text \<open>\<open>abort\<close>: the transport counts as disconnected only when process and credential file are both
  dealt with; \<open>None\<close> is an SDK object without the pinned transport.\<close>

definition abort_transport :: "sdk_transport \<Rightarrow> (sdk_process option \<times> bool) option \<Rightarrow> sdk_transport" where
  "abort_transport t found =
     (case found of
        None \<Rightarrow> t
      | Some (process, credentials_handled) \<Rightarrow>
          if snd (abort_sdk_process process) \<and> credentials_handled
          then t\<lparr>st_disconnected := True\<rparr> else t)"

section \<open>What crosses the seam is free of credentials\<close>

text \<open>Secrets that truncation cannot rebuild.\<close>

definition quotable :: "string \<Rightarrow> bool" where
  "quotable s = (maskable s \<and> last s \<noteq> CHR ''.'')"

definition known_secrets :: "environ \<Rightarrow> string list \<Rightarrow> string list" where
  "known_secrets env creds = creds @ env_secrets env"

lemma quotable_maskable [simp]: "quotable s \<Longrightarrow> maskable s"
  by (simp add: quotable_def)

lemma redact_clean [simp]:
  "quotable s \<Longrightarrow> s \<in> set (known_secrets env creds) \<Longrightarrow> \<not> contains s (adapter_redact env creds u)"
  by (rule adapter_redact_removes) (simp_all add: known_secrets_def)

lemma safe_bounded_clean [simp]:
  "quotable s \<Longrightarrow> s \<in> set (known_secrets env creds) \<Longrightarrow> \<not> contains s (safe_bounded_text env creds u)"
  using redact_clean [of s env creds u]
  by (simp add: safe_bounded_text_def bounded_text_clean quotable_def maskable_def)

lemma permission_summary_clean [simp]:
  "quotable s \<Longrightarrow> s \<in> set (known_secrets env creds) \<Longrightarrow>
   \<not> contains s (permission_summary env creds t m)"
  by (simp add: permission_summary_def)

lemma bounded_diagnostic_clean [simp]:
  "quotable s \<Longrightarrow> s \<in> set (known_secrets env creds) \<Longrightarrow>
   \<not> contains s (bounded_diagnostic env creds r d)"
  by (simp add: bounded_diagnostic_def)

text \<open>The texts an event carries.\<close>

fun event_texts :: "adapter_event \<Rightarrow> string list" where
  "event_texts (AssistantEvent texts tools model) = texts @ tools @ (case model of None \<Rightarrow> [] | Some m \<Rightarrow> [m])"
| "event_texts (TaskStartedEvent t d) = [t, d]"
| "event_texts (TaskProgressEvent t d tool) = [t, d] @ (case tool of None \<Rightarrow> [] | Some m \<Rightarrow> [m])"
| "event_texts (TaskTerminalEvent t s) = [t]"
| "event_texts (SystemEvent s m) = (if s = ''permission_denied'' then [m] else [s, m])"
| "event_texts (ResultEvent ev) =
     re_session_id ev # (case re_result ev of None \<Rightarrow> [] | Some t \<Rightarrow> [t]) @ re_model_usage ev
     @ re_permission_denials ev @ re_errors ev"

text \<open>No text of an event that the adapter builds from an SDK message contains a credential
  known to the process: assistant text, tool and model names, task descriptions, diagnostics,
  denials, errors, session and result text are all redacted. (The fixed subtype
  \<open>permission_denied\<close> is no text of the message.)\<close>

lemma mapped_event_clean:
  assumes "quotable s" and "s \<in> set (known_secrets env creds)"
    and "map_sdk_message env creds r m = Some ev"
  shows "list_all (\<lambda>t. \<not> contains s t) (event_texts ev)"
  using assms by (cases m) (auto simp: list_all_iff split: option.splits if_splits)

text \<open>Every failure of an SDK call reaches the caller as a classified diagnostic (cancellation
  alone passes through), its message at most 512 characters long and free of every known
  credential.\<close>

lemma sdk_failures_classified:
  assumes "call_sdk env op creds (Inl e) = Inl e'" and "e \<noteq> CancelledError"
    and "quotable s" and "s \<in> set (known_secrets env creds)"
  shows "\<exists>message. e' = AdapterDiagnostic (classify_code op e) message
      \<and> length message \<le> 512 \<and> \<not> contains s message"
  using assms length_bounded_text [of "adapter_redact env creds (exn_text e)"]
  by (auto simp: call_sdk_def classify_sdk_error_def safe_bounded_text_def max_system_diagnostic_chars_def
      dest: safe_bounded_clean [unfolded safe_bounded_text_def])

definition sample_env :: environ where
  "sample_env = (\<lambda>v. if v = ''QODER_PERSONAL_ACCESS_TOKEN'' then Some ''pat-123'' else None)"

lemma sample_env_secret:
  "quotable ''pat-123''" "''pat-123'' \<in> set (known_secrets sample_env [])"
  by (simp_all add: quotable_def maskable_def known_secrets_def env_secrets_def sample_env_def
      credential_env_vars_def List.map_filter_simps redaction_mark_def)

section \<open>Streams\<close>

text \<open>The part of a stream before it raises, and the capture at its end.\<close>

fun no_raise :: "sdk_item list \<Rightarrow> bool" where
  "no_raise [] = True"
| "no_raise (StreamRaises e # items) = False"
| "no_raise (_ # items) = no_raise items"

fun capture_after :: "report_capture option \<Rightarrow> sdk_item list \<Rightarrow> report_capture option" where
  "capture_after c [] = c"
| "capture_after c (Submitted payload # items) =
     capture_after (map_option (\<lambda>c. fst (record_report c payload)) c) items"
| "capture_after c (_ # items) = capture_after c items"

text \<open>The last submission of a stream that the report contract accepts.\<close>

fun accepted_submissions :: "sdk_item list \<Rightarrow> json list" where
  "accepted_submissions [] = []"
| "accepted_submissions (Submitted payload # items) =
     (if parse_audit_report_payload payload = None then accepted_submissions items
      else payload # accepted_submissions items)"
| "accepted_submissions (_ # items) = accepted_submissions items"

lemma messages_append:
  "no_raise pre \<Longrightarrow> messages env creds r c (pre @ post)
   = messages env creds r c pre @ messages env creds r (capture_after c pre) post"
proof (induction pre arbitrary: c)
  case (Cons i pre)
  then show ?case by (cases i) (auto split: option.splits)
qed simp

lemma capture_after_accepted:
  "capture_after (Some c) items = Some (case rev (accepted_submissions items) of
     [] \<Rightarrow> c | p # _ \<Rightarrow> c\<lparr>report_text := Some (json_text False True p)\<rparr>)"
proof (induction items arbitrary: c)
  case (Cons i items)
  then show ?case
  proof (cases i)
    case (Submitted p)
    then show ?thesis
      using Cons [of "fst (record_report c p)"]
      by (cases "rev (accepted_submissions items)") (simp_all add: record_report_def)
  qed simp_all
qed simp

definition redacted_finding :: "(string \<Rightarrow> string) \<Rightarrow> audit_finding \<Rightarrow> audit_finding" where
  "redacted_finding f x =
     \<lparr>severity = f (severity x), evidence = f (evidence x), affected = map_option f (affected x)\<rparr>"

definition redacted_report :: "(string \<Rightarrow> string) \<Rightarrow> parsed_report \<Rightarrow> parsed_report" where
  "redacted_report f r =
     \<lparr>p_outcome = p_outcome r, p_summary = f (p_summary r), p_files = map f (p_files r),
      p_validation = map f (p_validation r), p_risks = map f (p_risks r), p_verdict = f (p_verdict r),
      p_confirmed = map f (p_confirmed r), p_findings = map (redacted_finding f) (p_findings r),
      p_required_changes = map f (p_required_changes r)\<rparr>"

lemma jget_redact: "jget (redact_json_value f j) k = map_option (redact_json_value f) (jget j k)"
  by (cases j) (simp_all add: map_of_map_snd)

lemma redact_leaves [simp]:
  "redact_json_value f (jstrings ss) = jstrings (map f ss)"
  "redact_json_value f (opt_json a) = opt_json (map_option f a)"
  by (simp_all add: jstrings_def) (cases a, simp_all)

lemma same_keys_redact [simp]: "same_keys (redact_json_value f j) ks = same_keys j ks"
  by (cases j) (simp_all add: same_keys_def image_image)

lemma json_wf_redact: "json_wf j \<Longrightarrow> json_wf (redact_json_value f j)"
  by (induction f j rule: redact_json_value.induct) (auto simp: comp_def)

lemma finding_of_redact: "finding_of x j \<Longrightarrow> finding_of (redacted_finding f x) (redact_json_value f j)"
  by (simp add: finding_of_def redacted_finding_def jget_redact)

lemma report_of_redact:
  assumes "report_of r j" and "f (outcome_name (p_outcome r)) = outcome_name (p_outcome r)"
  shows "report_of (redacted_report f r) (redact_json_value f j)"
proof -
  from assms(1) obtain items where items: "jget j ''findings'' = Some (JList items)"
    "list_all2 finding_of (p_findings r) items"
    by (auto simp: report_of_def)
  from items(2) have "list_all2 finding_of (map (redacted_finding f) (p_findings r))
      (map (redact_json_value f) items)"
    by (auto simp: list_all2_conv_all_nth finding_of_redact)
  with assms items(1) show ?thesis
    by (auto simp: report_of_def redacted_report_def jget_redact)
qed

lemma redact_submitted_text:
  assumes "json_wf j" and "parse_audit_report_payload j = Some r"
    and "adapter_redact env creds (outcome_name (p_outcome r)) = outcome_name (p_outcome r)"
  shows "parse_audit_report_text (Some (redact_json_text env creds (json_text False True j)))
     = Some (redacted_report (adapter_redact env creds) r)"
proof -
  let ?f = "adapter_redact env creds"
  let ?k = "redact_json_value ?f (sort_keys j)"
  have wf: "json_wf ?k" using assms(1) by (simp add: json_wf_redact json_wf_sort_keys)
  have "report_of (redacted_report ?f r) ?k"
    using assms by (simp add: parse_payload_iff report_of_redact report_of_sorted)
  then have k: "parse_audit_report_payload ?k = Some (redacted_report ?f r)" "is_jdict ?k"
    by (simp_all add: parse_payload_iff report_of_dict)
  have "json_loads (json_text False True j) = Some (sort_keys j)"
    using assms(1) by (rule sorted_codec.parse_render)
  then have "redact_json_text env creds (json_text False True j) = json_text False True ?k"
    by (simp add: redact_json_text_def)
  with parse_rendered_report [OF wf k(1), of False] k(2) show ?thesis
    by (simp add: parse_audit_report_text_def unfence_dict_text)
qed

text \<open>The report a result event carries is the last report that \<open>submit_audit\<close> accepted before
  it, with every text in it redacted: whatever text the model itself returned is replaced, and
  the reducer reads back exactly that report.\<close>

lemma submitted_report_replaces_result:
  assumes "no_raise pre" and "accepted_submissions pre = earlier @ [payload]"
    and "json_wf payload" and "parse_audit_report_payload payload = Some r"
    and "adapter_redact env creds (outcome_name (p_outcome r)) = outcome_name (p_outcome r)"
  shows "\<exists>before ev after.
     messages env creds rp (Some new_capture) (pre @ Received (ResultMessage m) # post)
       = before @ Yield (ResultEvent ev) # after
     \<and> before = messages env creds rp (Some new_capture) pre
     \<and> parse_audit_report_text (re_result ev) = Some (redacted_report (adapter_redact env creds) r)
     \<and> re_is_error ev = sr_is_error m"
proof -
  have "capture_after (Some new_capture) pre
      = Some \<lparr>report_text = Some (json_text False True payload)\<rparr>"
    using assms(2) by (simp add: capture_after_accepted new_capture_def)
  then show ?thesis
    using redact_submitted_text [OF assms(3-5)] assms(1)
    by (simp add: messages_append substitute_report_def)
qed

definition sample_items :: "sdk_item list" where
  "sample_items = [Received (AssistantMessage [TextBlock ''reading''] ''Qwen3.8-Max''), Submitted sample_report]"

lemma sample_report_parsed:
  obtains r where "parse_audit_report_payload sample_report = Some r"
    and "adapter_redact sample_env [] (outcome_name (p_outcome r)) = outcome_name (p_outcome r)"
    and "json_wf sample_report"
proof -
  obtain r where r: "parse_audit_report_payload sample_report = Some r" "p_outcome r = OutPartial"
    by (simp add: sample_report_def parse_audit_report_payload_def same_keys_def jstrings_def
        audit_report_keys_def field_outcome_def field_str_def field_strs_def field_findings_def
        report_outcome_def parse_findings_def parse_finding_def audit_finding_keys_def field_opt_def)
  moreover have "adapter_redact sample_env [] (outcome_name (p_outcome r)) = outcome_name (p_outcome r)"
    using r(2)
    by (simp add: adapter_redact_def env_secrets_def sample_env_def credential_env_vars_def
        List.map_filter_simps replace_secrets_def py_replace.simps)
  moreover have "json_wf sample_report" by (simp add: sample_report_def jstrings_def)
  ultimately show thesis using that by blast
qed

definition sample_message :: sdk_result where
  "sample_message = \<lparr>sr_session_id = ''s1'', sr_is_error = False, sr_result = Some ''prose'',
     sr_model_usage = None, sr_permission_denials = None, sr_errors = None\<rparr>"

end
