(* ===== verification/Foreground.thy ===== *)
theory Foreground
  imports Coder_Reducer Adapter
begin

text \<open>
  The foreground runs, \<open>src/qworker/auditor.py\<close> and \<open>src/qworker/coder.py\<close>: rendering of the prompt,
  consumption of the event stream with its settlement window, and the run that always closes an
  initialized transport. The two modules contain the same code around different reducers and
  prompts, so the common text is defined once with the reducer and the prompt as arguments and
  each module's functions are its instances.

  A transport is a record of what each call returns or raises, together with the items its stream
  delivers (an \<open>asyncio.timeout\<close> that fires is a \<open>TimeoutError\<close> in the stream). A run returns the
  list of calls it made, in order, and its outcome.
\<close>

section \<open>Contracts and prompts\<close>

record contract =
  k_objective :: string
  k_cwd :: string
  k_requested_model :: string
  k_context :: "string list"
  k_constraints :: "string list"
  k_acceptance :: "string list"

definition newline :: string where
  "newline = [CHR 0x0A]"

definition render_items :: "string list \<Rightarrow> string" where
  "render_items items =
     (if items = [] then ''- none'' else py_join newline (map (\<lambda>i. ''- '' @ i) items))"

definition render_sections :: "(string \<times> string) list \<Rightarrow> string" where
  "render_sections sections =
     py_join (newline @ newline) (map (\<lambda>(heading, body). heading @ newline @ body) sections)"

definition auditor_constraints :: "string list" where
  "auditor_constraints = [''Do not modify the workspace or run shell commands.'']"

definition coder_constraints :: "string list" where
  "coder_constraints =
     [''Work directly in the caller workspace; do not create a worktree.'',
      ''Preserve unrelated caller changes.'',
      ''Do not reset, clean, stash, or roll back workspace state.'',
      ''Do not commit, push, publish, deploy, or release changes.'',
      ''Run relevant project validation and report its exact outcome.'']"

definition auditor_report_contract :: string where
  "auditor_report_contract =
     ''Prepare exactly one object with keys outcome, summary, files, '' @
     ''validation, risks, verdict, confirmed, findings, and '' @
     ''required_changes. outcome must be completed, partial, or blocked; '' @
     ''summary and verdict are strings; files, validation, risks, '' @
     ''confirmed, and required_changes are arrays of strings. findings '' @
     ''is an array of objects with exactly severity, evidence, and '' @
     ''affected_requirement_or_location; the first two are strings and '' @
     ''the last is a string or null. Use these audit destinations: '' @
     ''VERDICT -> verdict; CONFIRMED -> confirmed; FINDINGS -> findings; '' @
     ''RISKS -> risks; REQUIRED_CHANGES -> required_changes.'' @
     '' Call mcp__qworker_audit__submit_audit exactly once with that '' @
     ''object and do not repeat the report as prose. If that tool is '' @
     ''unavailable, return the object as exact JSON with no surrounding '' @
     ''text.''"

definition coder_report_contract :: string where
  "coder_report_contract =
     ''Return exactly one JSON object with keys outcome, summary, files, '' @
     ''validation, and risks. outcome must be completed, partial, or '' @
     ''blocked; summary is a string; files is an array of changed path '' @
     ''strings; validation is an array of commands/checks and outcomes; '' @
     ''risks is an array of unresolved risk or blocker strings.''"

definition auditor_prompt :: "contract \<Rightarrow> string" where
  "auditor_prompt k = render_sections
     [(''ROLE'', ''Independent read-only auditor''), (''OBJECTIVE'', k_objective k),
      (''WORKSPACE'', k_cwd k), (''CONTEXT'', render_items (k_context k)),
      (''CONSTRAINTS'', render_items (auditor_constraints @ k_constraints k)),
      (''ACCEPTANCE CRITERIA'', render_items (k_acceptance k)),
      (''REPORT CONTRACT'', auditor_report_contract)]"

definition coder_prompt :: "contract \<Rightarrow> string" where
  "coder_prompt k = render_sections
     [(''ROLE'', ''Qoder shared-workspace coder''), (''OBJECTIVE'', k_objective k),
      (''WORKSPACE'', k_cwd k), (''CONTEXT'', render_items (k_context k)),
      (''CONSTRAINTS'', render_items (coder_constraints @ k_constraints k)),
      (''ACCEPTANCE CRITERIA'', render_items (k_acceptance k)),
      (''REPORT CONTRACT'', coder_report_contract)]"

definition auditor_failure_result :: "contract \<Rightarrow> string \<Rightarrow> string \<Rightarrow> string option \<Rightarrow> audit_result" where
  "auditor_failure_result k summary error_code resolved =
     \<lparr>r_outcome = OutFailed, r_summary = summary, r_files = [], r_validation = [], r_risks = [],
      r_requested_model = k_requested_model k, r_resolved_model = resolved, r_actual_models = [],
      r_session_id = None, r_nested_state = NestedNone, r_warnings = [], r_errors = [error_code],
      r_verdict = None, r_confirmed = [], r_findings = [], r_required_changes = []\<rparr>"

definition coder_failure_result :: "contract \<Rightarrow> string \<Rightarrow> string \<Rightarrow> string option \<Rightarrow> worker_result" where
  "coder_failure_result k summary error_code resolved =
     \<lparr>r_outcome = OutFailed, r_summary = summary, r_files = [], r_validation = [], r_risks = [],
      r_requested_model = k_requested_model k, r_resolved_model = resolved, r_actual_models = [],
      r_session_id = None, r_nested_state = NestedNone, r_warnings = [], r_errors = [error_code]\<rparr>"

section \<open>Calls\<close>

datatype call =
    CallFactory string
  | CallConnect
  | CallModels
  | CallSelect string
  | CallInitialized string
  | CallSend string
  | CallMessages
  | CallOnResult
  | CallDisconnect

record script =
  factory :: "unit res"
  connect :: "unit res"
  catalog :: "available_model list res"
  select :: "string \<Rightarrow> unit res"
  initialized :: "(string \<Rightarrow> unit res) option"
  send :: "string \<Rightarrow> unit res"
  stream :: "stream_item list"
  on_result :: "unit res option"
  disconnect :: "unit res"

section \<open>Consuming the stream\<close>

text \<open>Errors of the settlement phase that end it as expired.\<close>

fun settlement_error :: "py_exn \<Rightarrow> bool" where
  "settlement_error (BrokenPipeError m) = True"
| "settlement_error (ConnectionResetError m) = True"
| "settlement_error (EOFError m) = True"
| "settlement_error CancelledError = True"
| "settlement_error (TimeoutError m) = True"
| "settlement_error _ = False"

text \<open>
  \<open>_consume_result\<close>: the first loop reads to the first result, the second to settlement. The
  reducer is given by \<open>apply\<close>, \<open>needs_settlement\<close> and \<open>finish\<close>.
\<close>

fun settle_loop ::
    "(adapter_event \<Rightarrow> 'r \<Rightarrow> 'r) \<Rightarrow> ('r \<Rightarrow> bool) \<Rightarrow> (bool \<Rightarrow> 'r \<Rightarrow> 'x) \<Rightarrow> stream_item list \<Rightarrow> 'r \<Rightarrow> 'x res"
where
  "settle_loop apply needs finish [] r = Inr (finish (needs r) r)"
| "settle_loop apply needs finish (Raise e # items) r =
     (if settlement_error e then Inr (finish True r) else Inl e)"
| "settle_loop apply needs finish (Yield ev # items) r =
     (let r = apply ev r in
      if \<not> needs r then Inr (finish False r) else settle_loop apply needs finish items r)"

fun result_loop ::
    "(adapter_event \<Rightarrow> 'r \<Rightarrow> 'r) \<Rightarrow> ('r \<Rightarrow> bool) \<Rightarrow> (bool \<Rightarrow> 'r \<Rightarrow> 'x) \<Rightarrow> unit res option
     \<Rightarrow> stream_item list \<Rightarrow> 'r \<Rightarrow> call list \<times> 'x res"
where
  "result_loop apply needs finish observer [] r = ([], Inr (finish False r))"
| "result_loop apply needs finish observer (Raise e # items) r = ([], Inl e)"
| "result_loop apply needs finish observer (Yield ev # items) r =
     (let r = apply ev r in
      if is_result_event ev then
        (case observer of
           Some (Inl e) \<Rightarrow> ([CallOnResult], Inl e)
         | _ \<Rightarrow>
             (if observer = None then [] else [CallOnResult],
              if \<not> needs r then Inr (finish False r) else settle_loop apply needs finish items r))
      else result_loop apply needs finish observer items r)"

section \<open>The run\<close>

type_synonym 'x body_result = "call list \<times> string option \<times> 'x res"

text \<open>The \<open>try\<close> body after the factory returned: the calls made, \<open>resolved_model\<close> and the outcome.\<close>

definition run_body ::
    "(contract \<Rightarrow> string) \<Rightarrow> (string \<Rightarrow> stream_item list \<Rightarrow> call list \<times> 'x res) \<Rightarrow> script \<Rightarrow> contract
     \<Rightarrow> 'x body_result" where
  "run_body prompt consume s k =
     (case connect s of
        Inl e \<Rightarrow> ([CallConnect], None, Inl e)
      | Inr _ \<Rightarrow>
          (case res_bind (catalog s) (resolve_model (k_requested_model k)) of
             Inl e \<Rightarrow> ([CallConnect, CallModels], None, Inl e)
           | Inr resolution \<Rightarrow>
               (let resolved = res_resolved resolution;
                    calls = [CallConnect, CallModels, CallSelect resolved] in
                case select s resolved of
                  Inl e \<Rightarrow> (calls, Some resolved, Inl e)
                | Inr _ \<Rightarrow>
                    (case (case initialized s of None \<Rightarrow> Inr () | Some observe \<Rightarrow> observe resolved) of
                       Inl e \<Rightarrow> (calls @ [CallInitialized resolved], Some resolved, Inl e)
                     | Inr _ \<Rightarrow>
                         (let calls = calls @ (if initialized s = None then [] else [CallInitialized resolved])
                                @ [CallSend (prompt k)] in
                          case send s (prompt k) of
                            Inl e \<Rightarrow> (calls, Some resolved, Inl e)
                          | Inr _ \<Rightarrow>
                              (let (more, outcome) = consume resolved (stream s)
                               in (calls @ CallMessages # more, Some resolved, outcome)))))))"

definition mark_disconnect_failed :: "string \<Rightarrow> 'a worker_result_scheme \<Rightarrow> 'a worker_result_scheme" where
  "mark_disconnect_failed code r =
     r\<lparr>r_outcome := OutFailed, r_warnings := r_warnings r @ [''disconnect_failed''],
       r_errors := r_errors r @ [code]\<rparr>"

text \<open>
  The \<open>except\<close> clauses, then the \<open>finally\<close> clause. An exception that the clauses do not handle
  goes on after a \<open>disconnect\<close> that returns or raises a diagnostic; any other exception of
  \<open>disconnect\<close> replaces it.
\<close>

definition handled ::
    "environ \<Rightarrow> (contract \<Rightarrow> string \<Rightarrow> string \<Rightarrow> string option \<Rightarrow> 'x) \<Rightarrow> contract \<Rightarrow> string option
     \<Rightarrow> 'x res \<Rightarrow> 'x res" where
  "handled env failure k resolved outcome =
     (case outcome of
        Inr r \<Rightarrow> Inr r
      | Inl (AdapterDiagnostic code m) \<Rightarrow>
          Inr (failure k (safe_bounded_text env [] (exn_text (AdapterDiagnostic code m))) code resolved)
      | Inl (ModelUnavailableError m) \<Rightarrow> Inr (failure k m ''model_unavailable'' resolved)
      | Inl e \<Rightarrow> Inl e)"

definition closed :: "unit res \<Rightarrow> 'a worker_result_scheme res \<Rightarrow> 'a worker_result_scheme res" where
  "closed disconnected outcome =
     (case disconnected of
        Inr _ \<Rightarrow> outcome
      | Inl (AdapterDiagnostic code m) \<Rightarrow>
          (case outcome of Inr r \<Rightarrow> Inr (mark_disconnect_failed code r) | Inl e \<Rightarrow> Inl e)
      | Inl e \<Rightarrow> Inl e)"

definition run_foreground ::
    "environ \<Rightarrow> (contract \<Rightarrow> string) \<Rightarrow> (string \<Rightarrow> stream_item list \<Rightarrow> call list \<times> 'a worker_result_scheme res)
     \<Rightarrow> (contract \<Rightarrow> string \<Rightarrow> string \<Rightarrow> string option \<Rightarrow> 'a worker_result_scheme) \<Rightarrow> script \<Rightarrow> contract
     \<Rightarrow> call list \<times> 'a worker_result_scheme res" where
  "run_foreground env prompt consume failure s k =
     (case factory s of
        Inl e \<Rightarrow> ([CallFactory (k_cwd k)], handled env failure k None (Inl e))
      | Inr _ \<Rightarrow>
          (let (calls, resolved, outcome) = run_body prompt consume s k
           in (CallFactory (k_cwd k) # calls @ [CallDisconnect],
               closed (disconnect s) (handled env failure k resolved outcome))))"

definition auditor_consume ::
    "script \<Rightarrow> contract \<Rightarrow> string \<Rightarrow> stream_item list \<Rightarrow> call list \<times> audit_result res" where
  "auditor_consume s k resolved items =
     result_loop rr_apply rr_needs_settlement rr_finish (on_result s) items
       (new_reducer (k_requested_model k) (Some resolved))"

definition coder_consume ::
    "script \<Rightarrow> contract \<Rightarrow> string \<Rightarrow> stream_item list \<Rightarrow> call list \<times> worker_result res" where
  "coder_consume s k resolved items =
     result_loop cr_apply cr_needs_settlement cr_finish (on_result s) items
       (new_coder_reducer (k_requested_model k) resolved)"

definition run_auditor :: "environ \<Rightarrow> script \<Rightarrow> contract \<Rightarrow> call list \<times> audit_result res" where
  "run_auditor env s k =
     run_foreground env auditor_prompt (auditor_consume s k) auditor_failure_result s k"

definition run_coder :: "environ \<Rightarrow> script \<Rightarrow> contract \<Rightarrow> call list \<times> worker_result res" where
  "run_coder env s k =
     run_foreground env coder_prompt (coder_consume s k) coder_failure_result s k"

section \<open>Where consumption stops\<close>

text \<open>The stream is settled when a result arrived and no nested task is left open.\<close>

definition settled :: "adapter_event list \<Rightarrow> bool" where
  "settled evs = (last_result evs \<noteq> None \<and> \<not> (\<exists>t. task_open t evs))"

definition never_settled :: "adapter_event list \<Rightarrow> bool" where
  "never_settled evs = list_all (\<lambda>n. \<not> settled (take n evs)) [0..<Suc (length evs)]"

definition observer_ok :: "unit res option \<Rightarrow> bool" where
  "observer_ok obs = (obs = None \<or> obs = Some (Inr ()))"

locale settling_reducer = stream_reducer +
  fixes needs :: "'a \<Rightarrow> bool"
  assumes needs: "needs r \<longleftrightarrow> received r \<noteq> None \<and> active r \<noteq> {}"
begin

lemma needs_fold: "needs (fold step evs init) \<longleftrightarrow> last_result evs \<noteq> None \<and> \<not> settled evs"
  by (auto simp: needs received_fold active_set settled_def)

lemma settle_loop_run:
  assumes "last_result before \<noteq> None"
    and "\<And>n. 0 < n \<Longrightarrow> n \<le> length evs \<Longrightarrow> \<not> settled (before @ take n evs)"
  shows "settle_loop step needs finish (map Yield evs @ rest) (fold step before init)
    = settle_loop step needs finish rest (fold step (before @ evs) init)"
  using assms
proof (induction evs arbitrary: before)
  case (Cons e evs)
  have r: "last_result (before @ [e]) \<noteq> None"
    using Cons.prems(1) by (simp add: last_result_snoc split: option.split)
  have "\<not> settled (before @ [e])" using Cons.prems(2) [of 1] by simp
  with r have n: "needs (fold step (before @ [e]) init)"
    by (simp only: needs_fold simp_thms)
  have ns: "\<not> settled ((before @ [e]) @ take n evs)" if "0 < n" "n \<le> length evs" for n
    using Cons.prems(2) [of "Suc n"] that by simp
  show ?case using Cons.IH [OF r ns] n by simp
qed simp

lemma result_loop_run:
  assumes "last_result before = None" and "observer_ok obs"
    and "\<And>n. n \<le> length evs \<Longrightarrow> \<not> settled (before @ take n evs)"
  shows "snd (result_loop step needs finish obs (map Yield evs @ rest) (fold step before init))
    = (if last_result (before @ evs) = None
       then snd (result_loop step needs finish obs rest (fold step (before @ evs) init))
       else settle_loop step needs finish rest (fold step (before @ evs) init))"
  using assms(1,3)
proof (induction evs arbitrary: before)
  case (Cons e evs)
  have ns: "\<not> settled ((before @ [e]) @ take n evs)" if "n \<le> length evs" for n
    using Cons.prems(2) [of "Suc n"] that by simp
  show ?case
  proof (cases "result_of e")
    case None
    then have e: "\<not> is_result_event e" "last_result (before @ [e]) = None"
      using Cons.prems(1) by (cases e; simp add: last_result_snoc)+
    show ?thesis using Cons.IH [OF e(2) ns] e(1) by simp
  next
    case (Some ev)
    then have e: "is_result_event e" "last_result (before @ [e]) \<noteq> None"
      by (cases e; simp add: last_result_snoc)+
    have "needs (fold step (before @ [e]) init)"
      unfolding needs_fold using e(2) ns [of 0] by simp
    moreover have "settle_loop step needs finish (map Yield evs @ rest) (fold step (before @ [e]) init)
        = settle_loop step needs finish rest (fold step ((before @ [e]) @ evs) init)"
      using ns by (intro settle_loop_run [OF e(2)])
    moreover have "last_result (before @ e # evs) \<noteq> None"
      using e(2)
    proof (induction evs rule: rev_induct)
      case (snoc x xs)
      then show ?case
        using last_result_snoc [of "before @ e # xs" x] by (simp split: option.splits)
    qed simp
    ultimately show ?thesis
      using e(1) assms(2) by (auto simp: observer_ok_def)
  qed
qed simp

lemma never_settled_prefix: "never_settled evs \<Longrightarrow> n \<le> length evs \<Longrightarrow> \<not> settled ([] @ take n evs)"
  by (auto simp: never_settled_def list_all_iff)

lemma stops_when_settled:
  assumes "observer_ok obs" and "never_settled evs" and "settled (evs @ [e])"
  shows "snd (result_loop step needs finish obs (map Yield (evs @ [e]) @ rest) init)
    = Inr (finish False (fold step (evs @ [e]) init))"
proof -
  have nn: "\<not> needs (fold step (evs @ [e]) init)" 
    unfolding needs_fold using assms(3) by simp
  have "is_result_event e" if "last_result evs = None"
    using assms(3) that by (cases e) (simp_all add: settled_def last_result_snoc)
  with nn show ?thesis
    using result_loop_run [of "[]" obs evs finish "Yield e # rest"] never_settled_prefix [OF assms(2)]
      assms(1)
    by (auto simp: observer_ok_def)
qed

lemma expires:
  assumes "observer_ok obs" and "never_settled evs" and "last_result evs \<noteq> None"
    and "settlement_error x"
  shows "snd (result_loop step needs finish obs (map Yield evs @ Raise x # rest) init)
    = Inr (finish True (fold step evs init))"
  using result_loop_run [of "[]" obs evs finish "Raise x # rest"] never_settled_prefix [OF assms(2)]
    assms by simp

lemma ends:
  assumes "observer_ok obs" and "never_settled evs"
  shows "snd (result_loop step needs finish obs (map Yield evs) init)
    = Inr (finish (last_result evs \<noteq> None) (fold step evs init))"
proof -
  have "\<not> settled evs"
    using never_settled_prefix [OF assms(2), of "length evs"] by simp
  then have "needs (fold step evs init) = (last_result evs \<noteq> None)" by (simp add: needs_fold)
  then show ?thesis
    using result_loop_run [of "[]" obs evs finish "[]"] never_settled_prefix [OF assms(2)]
      assms(1) by auto
qed

end

interpretation audit_settling:
  settling_reducer "new_reducer requested resolved" rr_apply rr_active rr_models rr_result
    rr_needs_settlement for requested resolved
  by unfold_locales (simp add: rr_needs_settlement_def)

interpretation coder_settling:
  settling_reducer "new_coder_reducer requested resolved" cr_apply cr_active cr_models cr_result
    cr_needs_settlement for requested resolved
  by unfold_locales (simp add: cr_needs_settlement_def)

text \<open>Both runs read their stream to the first point where a result has arrived and no nested
  task is open, and no further: the outcome is the reducer's result of exactly that prefix, with
  nothing counted as expired.\<close>

lemma consume_stops_when_settled:
  assumes "observer_ok (on_result s)" and "never_settled evs" and "settled (evs @ [e])"
  shows "snd (auditor_consume s k m (map Yield (evs @ [e]) @ rest))
      = Inr (rr_finish False (fold rr_apply (evs @ [e]) (new_reducer (k_requested_model k) (Some m))))
    \<and> snd (coder_consume s k m (map Yield (evs @ [e]) @ rest))
      = Inr (cr_finish False (fold cr_apply (evs @ [e]) (new_coder_reducer (k_requested_model k) m)))"
  unfolding auditor_consume_def coder_consume_def
  by (intro conjI audit_settling.stops_when_settled coder_settling.stops_when_settled assms)

definition sample_result :: result_event where
  "sample_result = \<lparr>re_session_id = ''s1'', re_is_error = False, re_result = Some ''done'',
     re_model_usage = [], re_permission_denials = [], re_errors = []\<rparr>"

definition quiet_script :: script where
  "quiet_script = \<lparr>factory = Inr (), connect = Inr (), catalog = Inr [\<lparr>m_value = ''Auto'', m_enabled = True\<rparr>],
     select = (\<lambda>m. Inr ()), initialized = None, send = (\<lambda>p. Inr ()), stream = [],
     on_result = None, disconnect = Inr ()\<rparr>"

definition sample_contract :: contract where
  "sample_contract = \<lparr>k_objective = ''review'', k_cwd = ''/w'', k_requested_model = ''qwen-auditor'',
     k_context = [], k_constraints = [], k_acceptance = []\<rparr>"

lemma task_open_Cons:
  "task_open t (e # evs) \<longleftrightarrow> task_open t evs \<or> (starts_task t e \<and> \<not> list_ex (ends_task t) evs)"
proof (induction evs rule: rev_induct)
  case Nil
  show ?case using task_open_snoc [of t "[]" e] by simp
next
  case (snoc x xs)
  then show ?case using task_open_snoc [of t "e # xs" x] by (auto simp: task_open_snoc)
qed

text \<open>When the stream breaks or times out after a result while a nested task is still open,
  both runs keep the result and report the nested state \<open>unknown\<close> with a warning, instead of
  failing; a stream that ends silently is treated the same way.\<close>

lemma settlement_expiry_keeps_result:
  assumes "observer_ok (on_result s)" and "never_settled evs" and "last_result evs = Some ev"
    and "settlement_error x"
  shows "(\<exists>r. snd (auditor_consume s k m (map Yield evs @ Raise x # rest)) = Inr r
        \<and> snd (auditor_consume s k m (map Yield evs)) = Inr r
        \<and> r_session_id r = Some (re_session_id ev) \<and> r_nested_state r = NestedUnknown
        \<and> ''nested_terminal_event_missing'' \<in> set (r_warnings r))
    \<and> (\<exists>r. snd (coder_consume s k m (map Yield evs @ Raise x # rest)) = Inr r
        \<and> snd (coder_consume s k m (map Yield evs)) = Inr r
        \<and> r_session_id r = Some (re_session_id ev) \<and> r_nested_state r = NestedUnknown
        \<and> ''nested_terminal_event_missing'' \<in> set (r_warnings r))"
proof -
  have ne: "last_result evs \<noteq> None" using assms(3) by simp
  have "\<not> settled evs"
    using audit_settling.never_settled_prefix [OF assms(2), of "length evs"] by simp
  then have op: "{t. task_open t evs} \<noteq> {}" using ne by (auto simp: settled_def)
  let ?a = "rr_finish True (fold rr_apply evs (new_reducer (k_requested_model k) (Some m)))"
  let ?c = "cr_finish True (fold cr_apply evs (new_coder_reducer (k_requested_model k) m))"
  have "r_session_id ?a = Some (re_session_id ev) \<and> r_nested_state ?a = NestedUnknown
      \<and> ''nested_terminal_event_missing'' \<in> set (r_warnings ?a)"
    using op assms(3)
    by (simp add: rr_finish_def Let_def nested_state_of_def nested_warnings_def
        audit_stream.received_fold audit_stream.active_set split: option.split)
  moreover have "r_session_id ?c = Some (re_session_id ev) \<and> r_nested_state ?c = NestedUnknown
      \<and> ''nested_terminal_event_missing'' \<in> set (r_warnings ?c)"
    using op assms(3)
    by (simp add: cr_finish_def Let_def nested_state_of_def nested_warnings_def
        coder_stream.received_fold coder_stream.active_set split: option.split)
  ultimately show ?thesis
    using ne assms
    by (auto simp: auditor_consume_def coder_consume_def audit_settling.expires
        audit_settling.ends coder_settling.expires coder_settling.ends)
qed

section \<open>The order of calls\<close>

text \<open>C18: Both runs close what they opened: when the transport factory returns, \<open>disconnect\<close> is
  called exactly once and is the last call, on every path, errors included; when it raises,
  nothing else is called.\<close>

theorem run_always_disconnects:
  "case factory s of
     Inl e \<Rightarrow> fst (run_auditor env s k) = [CallFactory (k_cwd k)]
        \<and> fst (run_coder env s k) = [CallFactory (k_cwd k)]
   | Inr u \<Rightarrow>
        (\<exists>cs. fst (run_auditor env s k) = cs @ [CallDisconnect] \<and> CallDisconnect \<notin> set cs)
        \<and> (\<exists>cs. fst (run_coder env s k) = cs @ [CallDisconnect] \<and> CallDisconnect \<notin> set cs)"
proof -
  have loop: "set (fst (result_loop ap ne fi ob items r)) \<subseteq> {CallOnResult}"
    for ap :: "adapter_event \<Rightarrow> 'r \<Rightarrow> 'r" and ne and fi :: "bool \<Rightarrow> 'r \<Rightarrow> 'x" and ob items r
    by (induction ap ne fi ob items r rule: result_loop.induct)
      (auto simp: Let_def split: option.splits sum.splits if_splits)
  have body: "CallDisconnect \<notin> set (fst (run_body p c s k))"
    if "\<And>m items. set (fst (c m items)) \<subseteq> {CallOnResult}"
    for p and c :: "string \<Rightarrow> stream_item list \<Rightarrow> call list \<times> 'x res"
  proof -
    have "CallDisconnect \<notin> set (fst (c m items))" for m items using that [of m items] by auto
    then show ?thesis
      by (auto simp: run_body_def Let_def split: sum.splits option.splits prod.splits)
        (metis fst_conv)+
  qed
  have "CallDisconnect \<notin> set (fst (run_body auditor_prompt (auditor_consume s k) s k))"
    "CallDisconnect \<notin> set (fst (run_body coder_prompt (coder_consume s k) s k))"
    by (rule body, simp add: auditor_consume_def coder_consume_def loop)+
  then show ?thesis
    by (auto simp: run_auditor_def run_coder_def run_foreground_def split: prod.splits sum.splits)
qed

lemma run_body_sends:
  assumes "CallSend p \<in> set (fst (run_body prompt c s k))"
    and "\<And>m items q. CallSend q \<notin> set (fst (c m items))"
  shows "\<exists>cat m post. catalog s = Inr cat \<and> m \<in> set (allowed_models (k_requested_model k))
      \<and> m \<in> set (enabled_models cat) \<and> select s m = Inr () \<and> p = prompt k
      \<and> fst (run_body prompt c s k) = [CallConnect, CallModels, CallSelect m] @ post"
proof -
  obtain cat where cat: "catalog s = Inr cat"
    using assms by (cases "catalog s") (auto simp: run_body_def split: sum.splits)
  obtain r where r: "resolve_model (k_requested_model k) cat = Inr r"
    using assms cat
    by (cases "resolve_model (k_requested_model k) cat") (auto simp: run_body_def split: sum.splits)
  have sel: "select s (res_resolved r) = Inr ()"
    using assms cat r
    by (cases "select s (res_resolved r)") (auto simp: run_body_def Let_def split: sum.splits)
  have m: "res_resolved r \<in> set (allowed_models (k_requested_model k))"
      "res_resolved r \<in> set (enabled_models cat)"
    using resolve_model_sound [OF r] by simp_all
  have "p = prompt k"
    using assms cat r sel
    by (auto simp: run_body_def Let_def split: sum.splits option.splits prod.splits if_splits)
      (metis fst_conv)+
  moreover have "\<exists>post. fst (run_body prompt c s k)
      = [CallConnect, CallModels, CallSelect (res_resolved r)] @ post"
    using assms cat r sel by (auto simp: run_body_def Let_def split: sum.splits prod.splits)
  ultimately show ?thesis using cat sel m by blast
qed

lemma consume_never_sends:
  "CallSend q \<notin> set (fst (auditor_consume s k m items))"
  "CallSend q \<notin> set (fst (coder_consume s k m items))"
proof -
  have loop: "CallSend q \<notin> set (fst (result_loop ap ne fi ob items r))"
    for ap :: "adapter_event \<Rightarrow> 'r \<Rightarrow> 'r" and ne and fi :: "bool \<Rightarrow> 'r \<Rightarrow> 'x" and ob items r
    by (induction ap ne fi ob items r rule: result_loop.induct)
      (auto simp: Let_def split: option.splits sum.splits)
  show "CallSend q \<notin> set (fst (auditor_consume s k m items))"
    "CallSend q \<notin> set (fst (coder_consume s k m items))"
    by (simp_all add: auditor_consume_def coder_consume_def loop)
qed

text \<open>A prompt reaches the runtime only after an allowed model that the catalog has enabled was
  selected successfully, and then it is the prompt of the contract, whose constraints open with
  the role's own.\<close>

lemma prompt_needs_selected_model:
  assumes "CallSend p \<in> set (fst (run_auditor env s k))"
  shows "\<exists>cat m post. catalog s = Inr cat \<and> m \<in> set (allowed_models (k_requested_model k))
      \<and> m \<in> set (enabled_models cat) \<and> select s m = Inr () \<and> p = auditor_prompt k
      \<and> fst (run_auditor env s k) = [CallFactory (k_cwd k), CallConnect, CallModels, CallSelect m] @ post"
proof -
  obtain u where u: "factory s = Inr u"
    using assms by (cases "factory s") (auto simp: run_auditor_def run_foreground_def)
  then have "CallSend p \<in> set (fst (run_body auditor_prompt (auditor_consume s k) s k))"
    using assms by (auto simp: run_auditor_def run_foreground_def split: prod.splits)
  from run_body_sends [OF this consume_never_sends(1)] u show ?thesis
    by (auto simp: run_auditor_def run_foreground_def split: prod.splits)
qed


section \<open>From the tool call to the result\<close>



end
