(* ===== verification/Payloads.thy ===== *)
theory Payloads
  imports Redaction Json_Codec Lifecycle Audit_Report
begin

text \<open>
  What \<open>src/qworker/store.py\<close> lets into its database: the field validators, the schema of each
  semantic event (\<open>_EVENT_SCHEMAS\<close>), \<open>_copy_json_object\<close>, \<open>_validated_payload\<close>,
  \<open>_validate_approval_request_shape\<close> and \<open>_validate_worker_creation\<close>.

  A payload is a JSON value; the callers pass dictionaries. Validation returns the copy that is
  persisted, whose keys are in sorted order.
\<close>

section \<open>Field validators\<close>

fun positive_integer :: "json \<Rightarrow> bool" where
  "positive_integer (JInt i) = (0 < i)"
| "positive_integer _ = False"

fun non_negative_integer :: "json \<Rightarrow> bool" where
  "non_negative_integer (JInt i) = (0 \<le> i)"
| "non_negative_integer _ = False"

definition single_line :: "string \<Rightarrow> bool" where
  "single_line s = (CHR 0x00 \<notin> set s \<and> CHR 0x0A \<notin> set s \<and> CHR 0x0D \<notin> set s)"

definition safe_display_value :: "environ \<Rightarrow> json \<Rightarrow> bool" where
  "safe_display_value env v =
     (case v of
        JStr s \<Rightarrow>
          s \<noteq> [] \<and> length s \<le> 256 \<and> single_line s
          \<and> \<not> rx_search rx_inline_credential s \<and> \<not> rx_search rx_keyed_credential s
          \<and> list_all (\<lambda>secret. \<not> contains secret s) (env_secrets env)
      | _ \<Rightarrow> False)"

definition permission_choices :: json where
  "permission_choices = jstrings [''allow'', ''deny'']"

definition elicitation_choices :: json where
  "elicitation_choices = jstrings [''accept'', ''decline'', ''cancel'']"

definition approval_choices :: "json \<Rightarrow> bool" where
  "approval_choices v = (v = permission_choices \<or> v = elicitation_choices)"

definition safe_metadata :: "json \<Rightarrow> bool" where
  "safe_metadata v = (case v of JStr s \<Rightarrow> safe_metadata_text s | _ \<Rightarrow> False)"

definition field_types :: "string list" where
  "field_types = [''array'', ''boolean'', ''integer'', ''null'', ''number'', ''object'', ''string'', ''value'']"

text \<open>
  The pattern of a display field, \<open>name:type\<close>: no type contains a colon, so the only match splits
  at the last one.
\<close>

definition split_last_colon :: "string \<Rightarrow> (string \<times> string) option" where
  "split_last_colon s =
     (let r = rev s; ty = takeWhile (\<lambda>c. c \<noteq> CHR '':'') r; rest = dropWhile (\<lambda>c. c \<noteq> CHR '':'') r
      in case rest of [] \<Rightarrow> None | _ # nm \<Rightarrow> Some (rev nm, rev ty))"

definition display_field :: "json \<Rightarrow> bool" where
  "display_field v =
     (case v of
        JStr s \<Rightarrow>
          (case split_last_colon s of
             None \<Rightarrow> False
           | Some (nm, ty) \<Rightarrow> ty \<in> set field_types \<and> safe_metadata_text nm)
      | _ \<Rightarrow> False)"

definition display_fields :: "json \<Rightarrow> bool" where
  "display_fields v =
     (case v of JList items \<Rightarrow> length items \<le> 32 \<and> list_all display_field items | _ \<Rightarrow> False)"

definition required_display_fields :: "json \<Rightarrow> bool" where
  "required_display_fields v =
     (case v of JList items \<Rightarrow> length items \<le> 32 \<and> list_all safe_metadata items | _ \<Rightarrow> False)"

definition one_of :: "string list \<Rightarrow> json \<Rightarrow> bool" where
  "one_of values v = (case v of JStr s \<Rightarrow> s \<in> set values | _ \<Rightarrow> False)"

definition safe_runtime_version :: "json \<Rightarrow> bool" where
  "safe_runtime_version v =
     (case v of
        JStr s \<Rightarrow> rx_fullmatch rx_version s \<and> \<not> rx_search rx_credential_marker s
      | _ \<Rightarrow> False)"

definition absolute_path :: "json \<Rightarrow> bool" where
  "absolute_path v =
     (case v of
        JStr s \<Rightarrow>
          starts_with ''/'' s \<and> length s \<le> 4096 \<and> single_line s
          \<and> list_all (\<lambda>part. part = [] \<or> \<not> contains_sensitive_marker part) (split_on (CHR ''/'') s)
      | _ \<Rightarrow> False)"

definition runtime_path_value :: "json \<Rightarrow> bool" where
  "runtime_path_value v = (v = JStr ''bundled'' \<or> absolute_path v)"

section \<open>Event schemas\<close>

type_synonym fields = "(string \<times> (json \<Rightarrow> bool)) list"

record event_schema =
  required :: fields
  optional :: fields

definition schema :: "fields \<Rightarrow> fields \<Rightarrow> event_schema" where
  "schema req opt = \<lparr>required = req, optional = opt\<rparr>"

definition state_names :: "string list" where
  "state_names = map state_name all_states"

definition health_names :: "string list" where
  "health_names = map health_name all_health"

definition event_schemas :: "environ \<Rightarrow> (string \<times> event_schema) list" where
  "event_schemas env =
     [(''worker.created'', schema
         [(''attempt'', positive_integer), (''cwd'', absolute_path),
          (''role'', one_of [''coder'', ''auditor''])] []),
      (''worker.state_changed'', schema [(''state'', one_of state_names)] [(''attempt'', positive_integer)]),
      (''worker.health_changed'', schema [(''health'', one_of health_names)] []),
      (''runtime.started'', schema [] [(''pid'', positive_integer)]),
      (''runtime.initialized'', schema []
         [(''runtime_version'', safe_runtime_version), (''session_id'', safe_metadata)]),
      (''model.resolved'', schema [(''model'', safe_metadata)] []),
      (''assistant.message'', schema [] [(''model'', safe_metadata)]),
      (''tool.started'', schema [(''tool_name'', safe_metadata)] []),
      (''tool.finished'', schema [(''tool_name'', safe_metadata)]
         [(''duration_ms'', non_negative_integer), (''succeeded'', is_jbool)]),
      (''nested.started'', schema [(''task_id'', safe_metadata)] []),
      (''nested.progress'', schema [(''task_id'', safe_metadata)] [(''tool_name'', safe_metadata)]),
      (''nested.terminal'', schema
         [(''task_id'', safe_metadata), (''status'', one_of [''completed'', ''failed'', ''stopped''])] []),
      (''approval.requested'', schema
         [(''request_id'', safe_metadata),
          (''kind'', one_of [''tool_permission'', ''elicitation'', ''mcp_oauth'']),
          (''prompt'', safe_display_value env), (''choices'', approval_choices)]
         [(''agent_id'', safe_metadata), (''tool_name'', safe_metadata),
          (''server_name'', safe_metadata), (''mode'', one_of [''form'', ''url'']),
          (''fields'', display_fields), (''required_fields'', required_display_fields)]),
      (''approval.resolved'', schema
         [(''request_id'', safe_metadata),
          (''status'', one_of [''allowed'', ''denied'', ''answered'', ''expired''])] []),
      (''steer.queued'', schema
         [(''message_id'', safe_metadata), (''priority'', one_of [''now'', ''next'', ''later''])] []),
      (''steer.delivered'', schema [(''message_id'', safe_metadata)] []),
      (''steer.cancelled'', schema [(''message_id'', safe_metadata)] [(''cancelled'', is_jbool)]),
      (''result.received'', schema
         [(''outcome'', one_of [''completed'', ''partial'', ''blocked'', ''failed''])]
         [(''model'', safe_metadata)]),
      (''worker.warning'', schema [(''code'', safe_metadata)]
         [(''worker_id'', safe_metadata), (''cwd'', absolute_path),
          (''relation'', one_of [''same'', ''ancestor'', ''descendant''])]),
      (''runtime.exited'', schema [] [(''exit_code'', non_negative_integer)])]"

section \<open>Validation of a payload\<close>

definition copy_json_object :: "json \<Rightarrow> json res" where
  "copy_json_object payload =
     (case (if is_jdict payload then json_dumps True True payload else Inl (TypeError [])) of
        Inl e \<Rightarrow> Inl (TypeError ''Event payload must be a JSON object.'')
      | Inr serialized \<Rightarrow>
          (case json_loads serialized of
             Some decoded \<Rightarrow>
               if is_jdict decoded then Inr decoded
               else Inl (TypeError ''Event payload must be a JSON object.'')
           | None \<Rightarrow> Inl (TypeError ''Event payload must be a JSON object.'')))"

fun jkeys :: "json \<Rightarrow> string list" where
  "jkeys (JDict d) = map fst d"
| "jkeys _ = []"

definition field_list :: "string list \<Rightarrow> string" where
  "field_list ks = py_join '', '' (sort (remdups ks))"

definition validate_approval_request_shape :: "json \<Rightarrow> unit res" where
  "validate_approval_request_shape payload =
     (let has = (\<lambda>k. k \<in> set (jkeys payload)) in
      if jget payload ''kind'' = Some (JStr ''tool_permission'') then
        (if jget payload ''choices'' \<noteq> Some permission_choices \<or> \<not> has ''tool_name''
         then Inl (ValueError ''Invalid tool permission display shape.'')
         else if has ''server_name'' \<or> has ''mode'' \<or> has ''fields'' \<or> has ''required_fields''
         then Inl (ValueError ''Invalid tool permission display shape.'')
         else Inr ())
      else if jget payload ''kind'' = Some (JStr ''elicitation'') then
        (if jget payload ''choices'' \<noteq> Some elicitation_choices \<or> \<not> has ''server_name''
           \<or> \<not> has ''mode'' \<or> has ''tool_name''
         then Inl (ValueError ''Invalid elicitation display shape.'')
         else if jget payload ''mode'' = Some (JStr ''url'') \<and> (has ''fields'' \<or> has ''required_fields'')
         then Inl (ValueError ''URL elicitation cannot expose form fields.'')
         else Inr ())
      else Inl (ValueError ''MCP OAuth approval display is not supported.''))"

definition invalid_field :: "json \<Rightarrow> string \<times> (json \<Rightarrow> bool) \<Rightarrow> bool" where
  "invalid_field payload = (\<lambda>(field, validator).
     case jget payload field of None \<Rightarrow> False | Some v \<Rightarrow> \<not> validator v)"

text \<open>The checks of \<open>_validated_payload\<close> on the copy.\<close>

definition check_payload :: "string \<Rightarrow> event_schema \<Rightarrow> json \<Rightarrow> json res" where
  "check_payload event_type s copied =
     (let fields = required s @ optional s;
          unexpected = filter (\<lambda>k. k \<noteq> ''schema_version'' \<and> k \<notin> set (map fst fields)) (jkeys copied);
          missing = filter (\<lambda>k. k \<notin> set (jkeys copied)) (map fst (required s)) in
      if jget copied ''schema_version'' \<noteq> Some (JInt 1)
      then Inl (ValueError ''Event payload requires schema_version=1.'')
      else if unexpected \<noteq> []
      then Inl (ValueError (''Non-semantic event payload field: '' @ field_list unexpected))
      else if missing \<noteq> []
      then Inl (ValueError (''Event payload is missing required field: '' @ field_list missing))
      else (case find (invalid_field copied) fields of
              Some (field, _) \<Rightarrow> Inl (ValueError (''Invalid semantic event payload field: '' @ field))
            | None \<Rightarrow>
                if event_type = ''approval.requested''
                then res_bind (validate_approval_request_shape copied) (\<lambda>_. Inr copied)
                else Inr copied))"

definition validated_payload :: "environ \<Rightarrow> string \<Rightarrow> json \<Rightarrow> json res" where
  "validated_payload env event_type payload =
     (case map_of (event_schemas env) event_type of
        None \<Rightarrow> Inl (ValueError (''Unsupported semantic event type: '' @ event_type))
      | Some s \<Rightarrow> res_bind (copy_json_object payload) (check_payload event_type s))"

section \<open>Validation of a new worker\<close>

record creation =
  n_role :: worker_role
  n_cwd :: string
  n_capability :: write_capability
  n_requested_model :: string
  n_runtime_path :: string
  n_sdk_version :: string
  n_runtime_version :: "string option"

text \<open>Role and capability are of their types here; the checks of their names always succeed.\<close>

definition creation_checks :: "string \<Rightarrow> string \<Rightarrow> creation \<Rightarrow> (string \<times> bool) list" where
  "creation_checks worker_id cwd n =
     [(''worker_id'', safe_metadata (JStr worker_id)),
      (''role'', one_of [''coder'', ''auditor''] (JStr (role_name (n_role n)))),
      (''cwd'', absolute_path (JStr cwd)),
      (''write_capability'',
         one_of [''shared_workspace'', ''read_only''] (JStr (capability_name (n_capability n)))),
      (''requested_model'', safe_metadata (JStr (n_requested_model n))),
      (''runtime_path'', runtime_path_value (JStr (n_runtime_path n))),
      (''sdk_version'', safe_runtime_version (JStr (n_sdk_version n)))]"

definition validate_worker_creation :: "string \<Rightarrow> string \<Rightarrow> creation \<Rightarrow> unit res" where
  "validate_worker_creation worker_id cwd n =
     (case find (\<lambda>(field, ok). \<not> ok) (creation_checks worker_id cwd n) of
        Some (field, _) \<Rightarrow> Inl (ValueError (''Unsafe worker creation field: '' @ field))
      | None \<Rightarrow>
          (case n_runtime_version n of
             None \<Rightarrow> Inr ()
           | Some v \<Rightarrow> require (safe_runtime_version (JStr v))
               (ValueError ''Unsafe worker creation field: runtime_version'')))"

section \<open>What validation accepts\<close>

lemma copy_json_object_wf:
  assumes "json_wf payload"
  shows "copy_json_object payload
   = (if is_jdict payload then Inr (sort_keys payload)
      else Inl (TypeError ''Event payload must be a JSON object.''))"
proof -
  have "is_jdict (sort_keys payload) = is_jdict payload" by (cases payload) simp_all
  then show ?thesis
    using json_wf_jsonable [OF assms] json_roundtrip_sorted [OF assms, of True]
    by (simp add: copy_json_object_def json_dumps_def)
qed

text \<open>What a schema admits, field by field.\<close>

definition conforms :: "string \<Rightarrow> event_schema \<Rightarrow> json \<Rightarrow> bool" where
  "conforms event_type s payload =
     (jget payload ''schema_version'' = Some (JInt 1)
      \<and> list_all (\<lambda>k. k = ''schema_version'' \<or> k \<in> set (map fst (required s @ optional s))) (jkeys payload)
      \<and> list_all (\<lambda>k. k \<in> set (jkeys payload)) (map fst (required s))
      \<and> list_all (\<lambda>f. \<not> invalid_field payload f) (required s @ optional s)
      \<and> (if event_type = ''approval.requested''
          then validate_approval_request_shape payload = Inr () else True))"

lemma find_None_iff_all: "find P xs = None \<longleftrightarrow> list_all (\<lambda>x. \<not> P x) xs"
  by (auto simp: find_None_iff list_all_iff)

lemma check_payload_iff: "check_payload event_type s c = Inr p \<longleftrightarrow> p = c \<and> conforms event_type s c"
proof (cases "find (invalid_field c) (required s @ optional s)")
  case None
  then have "list_all (\<lambda>f. \<not> invalid_field c f) (required s @ optional s)"
    by (simp only: find_None_iff_all)
  with None show ?thesis
    by (auto simp: check_payload_def Let_def conforms_def res_simps filter_empty_conv list_all_iff)
next
  case (Some f)
  then have "\<not> list_all (\<lambda>f. \<not> invalid_field c f) (required s @ optional s)"
    by (simp flip: find_None_iff_all)
  with Some show ?thesis
    by (cases f) (auto simp: check_payload_def Let_def conforms_def)
qed

lemma validated_payload_iff:
  assumes "json_wf payload"
  shows "validated_payload env event_type payload = Inr p \<longleftrightarrow>
     (\<exists>s. map_of (event_schemas env) event_type = Some s \<and> is_jdict payload
        \<and> p = sort_keys payload \<and> conforms event_type s (sort_keys payload))"
  using assms
  by (auto simp: validated_payload_def copy_json_object_wf check_payload_iff res_simps
      split: option.splits if_splits)

lemma validated_payload_wf:
  "json_wf payload \<Longrightarrow> validated_payload env ty payload = Inr p \<Longrightarrow>
   json_wf p \<and> is_jdict p \<and> sort_keys p = p"
  by (cases payload) (auto simp: validated_payload_iff json_wf_sort_keys sort_keys_idem
      simp del: json_wf.simps sort_keys.simps, simp)

lemma validated_payload_again:
  "json_wf payload \<Longrightarrow> validated_payload env ty payload = Inr p \<Longrightarrow> validated_payload env ty p = Inr p"
  using validated_payload_wf [of payload env ty p]
  by (auto simp: validated_payload_iff)

text \<open>C28: A payload is persisted exactly when its type is one of the known semantic events, it is an
  object with \<open>schema_version\<close> 1, it has no field outside the type's schema and every required one,
  and every field passes its validator (approval requests also the shape check); what is
  persisted is the payload itself with its keys sorted.\<close>

theorem persisted_payload_exact:
  assumes "json_wf payload"
  shows "validated_payload env event_type payload = Inr p \<longleftrightarrow>
     is_jdict payload \<and> p = sort_keys payload
     \<and> (case map_of (event_schemas env) event_type of
          None \<Rightarrow> False
        | Some s \<Rightarrow> conforms event_type s p)"
  using validated_payload_iff [OF assms] by (auto split: option.splits)

definition sample_approval :: json where
  "sample_approval = JDict
     [(''choices'', permission_choices), (''kind'', JStr ''tool_permission''), (''prompt'', JStr ''Go?''),
      (''request_id'', JStr ''r1''), (''schema_version'', JInt 1), (''tool_name'', JStr ''Read'')]"

definition no_env :: environ where
  "no_env = (\<lambda>_. None)"

lemma sample_approval_wf: "json_wf sample_approval" "sort_keys sample_approval = sample_approval"
  by (simp add: sample_approval_def permission_choices_def jstrings_def) code_simp

lemma sample_approval_conforms:
  "conforms ''approval.requested''
     (the (map_of (event_schemas no_env) ''approval.requested'')) sample_approval"
  by code_simp

lemma sample_approval_valid:
  "validated_payload no_env ''approval.requested'' sample_approval = Inr sample_approval"
  using sample_approval_conforms sample_approval_wf
  by (simp add: validated_payload_iff) (simp add: event_schemas_def sample_approval_def)

theorem persisted_payload_exact_witness:
  "json_wf sample_approval
   \<and> validated_payload no_env ''approval.requested'' sample_approval = Inr sample_approval
   \<and> (case map_of (event_schemas no_env) ''approval.requested'' of
        None \<Rightarrow> False | Some s \<Rightarrow> conforms ''approval.requested'' s sample_approval)"
  using persisted_payload_exact [OF sample_approval_wf(1), of no_env "''approval.requested''" sample_approval]
    sample_approval_valid sample_approval_wf by simp

lemma conforms_field:
  assumes "conforms ty s p" and "(field, validator) \<in> set (required s)"
  shows "\<exists>v. jget p field = Some v \<and> validator v"
proof -
  have "field \<in> set (jkeys p)"
    using assms by (auto simp: conforms_def list_all_iff)
  then obtain v where v: "jget p field = Some v"
    by (cases p) (auto simp: map_of_eq_None_iff dest: weak_map_of_SomeI)
  moreover have "\<not> invalid_field p (field, validator)"
    using assms by (auto simp: conforms_def list_all_iff)
  ultimately show ?thesis by (auto simp: invalid_field_def)
qed

text \<open>C29: Every approval request that is persisted is display-safe: its prompt is one non-empty line
  of at most 256 characters in which no credential of the environment and no credential pattern
  occurs, and its choices are those of its kind; OAuth requests are never persisted.\<close>

theorem approval_request_display_safe:
  assumes "json_wf payload"
    and "validated_payload env ''approval.requested'' payload = Inr p"
  shows "\<exists>prompt. jget p ''prompt'' = Some (JStr prompt)
     \<and> prompt \<noteq> [] \<and> length prompt \<le> 256 \<and> single_line prompt
     \<and> list_all (\<lambda>secret. \<not> contains secret prompt) (env_secrets env)
     \<and> \<not> rx_search rx_inline_credential prompt \<and> \<not> rx_search rx_keyed_credential prompt
     \<and> ((jget p ''kind'' = Some (JStr ''tool_permission'') \<and> jget p ''choices'' = Some permission_choices
          \<and> ''tool_name'' \<in> set (jkeys p))
        \<or> (jget p ''kind'' = Some (JStr ''elicitation'') \<and> jget p ''choices'' = Some elicitation_choices
          \<and> ''server_name'' \<in> set (jkeys p) \<and> ''tool_name'' \<notin> set (jkeys p)))"
proof -
  let ?s = "the (map_of (event_schemas env) ''approval.requested'')"
  have some: "map_of (event_schemas env) ''approval.requested'' = Some ?s"
    by (simp add: event_schemas_def)
  with assms have c: "conforms ''approval.requested'' ?s p"
    by (auto simp: validated_payload_iff)
  have "(''prompt'', safe_display_value env) \<in> set (required ?s)"
    by (simp add: event_schemas_def schema_def)
  from conforms_field [OF c this] obtain v where v: "jget p ''prompt'' = Some v"
    "safe_display_value env v" by blast
  then obtain prompt where "v = JStr prompt" by (cases v) (simp_all add: safe_display_value_def)
  moreover have "validate_approval_request_shape p = Inr ()"
    using c by (simp add: conforms_def)
  ultimately show ?thesis
    using v by (auto simp: safe_display_value_def validate_approval_request_shape_def Let_def
        split: if_splits)
qed

theorem approval_request_display_safe_witness:
  "\<exists>prompt. jget sample_approval ''prompt'' = Some (JStr prompt) \<and> length prompt \<le> 256
     \<and> list_all (\<lambda>secret. \<not> contains secret prompt) (env_secrets no_env)"
  using approval_request_display_safe [OF sample_approval_wf(1) sample_approval_valid] by blast

section \<open>The payloads that the store writes itself\<close>

definition state_payload :: "worker_state \<Rightarrow> json" where
  "state_payload s = JDict [(''schema_version'', JInt 1), (''state'', JStr (state_name s))]"

definition attempt_payload :: "nat \<Rightarrow> json" where
  "attempt_payload n = JDict
     [(''schema_version'', JInt 1), (''attempt'', JInt (int n)), (''state'', JStr ''starting'')]"

definition created_payload :: "string \<Rightarrow> worker_role \<Rightarrow> json" where
  "created_payload cwd role = JDict
     [(''schema_version'', JInt 1), (''attempt'', JInt 1), (''cwd'', JStr cwd), (''role'', JStr (role_name role))]"

definition result_payload :: "outcome \<Rightarrow> string option \<Rightarrow> json" where
  "result_payload oc model = JDict
     ([(''schema_version'', JInt 1), (''outcome'', JStr (outcome_name oc))]
      @ (case model of None \<Rightarrow> [] | Some m \<Rightarrow> [(''model'', JStr m)]))"

definition expired_payload :: "string \<Rightarrow> json" where
  "expired_payload request_id = JDict
     [(''schema_version'', JInt 1), (''request_id'', JStr request_id), (''status'', JStr ''expired'')]"

lemma own_payloads_wf [simp]:
  "json_wf (state_payload s)" "json_wf (attempt_payload n)" "json_wf (created_payload cwd role)"
  "json_wf (result_payload oc model)" "json_wf (expired_payload r)"
  by (simp_all add: state_payload_def attempt_payload_def created_payload_def result_payload_def
      expired_payload_def split: option.split)

lemma state_name_listed: "state_name s \<in> set state_names"
  by (cases s) (simp_all add: state_names_def all_states_def)

lemma state_payload_valid [simp]:
  "validated_payload env ''worker.state_changed'' (state_payload s) = Inr (state_payload s)"
proof -
  have "sort_keys (state_payload s) = state_payload s"
    by (simp add: state_payload_def)
  then show ?thesis
    using state_name_listed [of s]
    by (simp add: validated_payload_iff)
      (simp add: event_schemas_def schema_def conforms_def state_payload_def one_of_def invalid_field_def)
qed

lemma attempt_payload_valid:
  "0 < n \<Longrightarrow> \<exists>p. validated_payload env ''worker.state_changed'' (attempt_payload n) = Inr p
     \<and> jget p ''state'' = Some (JStr ''starting'')"
  by (simp add: validated_payload_iff)
    (simp add: event_schemas_def schema_def conforms_def attempt_payload_def one_of_def
      invalid_field_def state_names_def all_states_def)

lemma created_payload_valid:
  "(\<exists>p. validated_payload env ''worker.created'' (created_payload cwd role) = Inr p) \<longleftrightarrow>
   absolute_path (JStr cwd)"
  by (simp add: validated_payload_iff)
    (cases role; simp add: event_schemas_def schema_def conforms_def created_payload_def one_of_def
      invalid_field_def)

lemma result_payload_valid:
  "(\<exists>p. validated_payload env ''result.received'' (result_payload oc model) = Inr p) \<longleftrightarrow>
   (case model of None \<Rightarrow> True | Some m \<Rightarrow> safe_metadata (JStr m))"
  by (simp add: validated_payload_iff)
    (cases oc; cases model; simp add: event_schemas_def schema_def conforms_def result_payload_def
      one_of_def invalid_field_def)

lemma expired_payload_valid:
  "(\<exists>p. validated_payload env ''approval.resolved'' (expired_payload r) = Inr p) \<longleftrightarrow>
   safe_metadata (JStr r)"
  by (simp add: validated_payload_iff)
    (simp add: event_schemas_def schema_def conforms_def expired_payload_def one_of_def invalid_field_def)

end
