(* ===== verification/Sanitizer.thy ===== *)
theory Sanitizer
  imports Payloads
begin

text \<open>
  \<open>_safe_result_summary\<close> of \<open>src/qworker/store.py\<close> and the functions under it: what is kept of a
  worker's structured result. The budget object that the recursion mutates is passed as state;
  an exception is \<open>Inl\<close>. The search for a free key is a loop without a bound in the code; here it
  has fuel, one more than the number of keys in use, and \<open>unique_key_found\<close> proves that this is
  always enough.
\<close>

section \<open>Budget and texts\<close>

definition max_result_string_chars :: nat where "max_result_string_chars = 4096"
definition max_result_key_chars :: nat where "max_result_key_chars = 256"
definition max_result_collection_items :: nat where "max_result_collection_items = 128"
definition max_result_depth :: nat where "max_result_depth = 6"
definition max_result_nodes :: nat where "max_result_nodes = 2048"
definition max_result_text_chars :: nat where "max_result_text_chars = 256 * 1024"

record result_budget =
  nodes :: nat
  text_chars :: int

definition text_limit :: "result_budget \<Rightarrow> nat" where
  "text_limit b = min max_result_string_chars (nat (max (text_chars b) 0))"

definition safe_result_text :: "environ \<Rightarrow> string \<Rightarrow> result_budget \<Rightarrow> result_budget \<times> string" where
  "safe_result_text env v b =
     (let safe = redact_result_text env v;
          limit = text_limit b;
          kept = (if length safe > limit
                  then take (limit - 3) safe @ (if limit \<ge> 3 then ''...'' else [])
                  else safe)
      in (b\<lparr>text_chars := text_chars b - int (length kept)\<rparr>, kept))"

definition safe_result_key :: "environ \<Rightarrow> string \<Rightarrow> string" where
  "safe_result_key env key = take max_result_key_chars (redact_result_text env key)"

definition indexed_key :: "string \<Rightarrow> nat \<Rightarrow> string" where
  "indexed_key candidate i =
     (let suffix = CHR ''#'' # nat_text i
      in take (max_result_key_chars - length suffix) candidate @ suffix)"

fun first_free :: "nat \<Rightarrow> nat \<Rightarrow> string \<Rightarrow> string list \<Rightarrow> string option" where
  "first_free 0 i candidate existing = None"
| "first_free (Suc fuel) i candidate existing =
     (if indexed_key candidate i \<notin> set existing then Some (indexed_key candidate i)
      else first_free fuel (Suc i) candidate existing)"

definition unique_result_key :: "string \<Rightarrow> string list \<Rightarrow> string option" where
  "unique_result_key candidate existing =
     (if candidate \<notin> set existing then Some candidate
      else first_free (Suc (length existing)) 2 candidate existing)"

section \<open>The recursion\<close>

text \<open>\<open>sanitize_items\<close> and \<open>sanitize_members\<close> are the two loops; their first argument counts down
  from the largest collection size. \<open>None\<close> of \<open>unique_result_key\<close> is the loop not ending.\<close>

function (sequential) sanitize ::
      "environ \<Rightarrow> nat \<Rightarrow> bool \<Rightarrow> json \<Rightarrow> result_budget \<Rightarrow> (result_budget \<times> json) res"
  and sanitize_items ::
      "environ \<Rightarrow> nat \<Rightarrow> nat \<Rightarrow> json list \<Rightarrow> result_budget \<Rightarrow> (result_budget \<times> json list) res"
  and sanitize_members ::
      "environ \<Rightarrow> nat \<Rightarrow> nat \<Rightarrow> (string \<times> json) list \<Rightarrow> (string \<times> json) list \<Rightarrow> result_budget
       \<Rightarrow> (result_budget \<times> (string \<times> json) list) res"
where
  "sanitize env depth secret v b =
     (if nodes b = 0 \<or> max_result_depth < depth then Inr (b, JNull)
      else
        (let b = b\<lparr>nodes := nodes b - 1\<rparr> in
         if secret then (let (b, t) = safe_result_text env redaction_mark b in Inr (b, JStr t))
         else (case v of
             JStr s \<Rightarrow> (let (b, t) = safe_result_text env s b in Inr (b, JStr t))
           | JList items \<Rightarrow>
               res_bind (sanitize_items env (Suc depth) max_result_collection_items items b)
                 (\<lambda>(b, xs). Inr (b, JList xs))
           | JDict d \<Rightarrow>
               res_bind (sanitize_members env (Suc depth) max_result_collection_items d [] b)
                 (\<lambda>(b, d). Inr (b, JDict d))
           | JOpaque \<Rightarrow> Inl (TypeError ''Structured result contains a non-JSON value.'')
           | _ \<Rightarrow> Inr (b, v))))"
| "sanitize_items env depth k [] b = Inr (b, [])"
| "sanitize_items env depth k (item # items) b =
     (if k = 0 \<or> nodes b = 0 then Inr (b, [])
      else
        res_bind (sanitize env depth False item b) (\<lambda>(b, x).
        res_bind (sanitize_items env depth (k - 1) items b) (\<lambda>(b, xs).
        Inr (b, x # xs))))"
| "sanitize_members env depth k [] acc b = Inr (b, acc)"
| "sanitize_members env depth k ((key, item) # d) acc b =
     (if k = 0 \<or> nodes b = 0 then Inr (b, acc)
      else
        (case unique_result_key (safe_result_key env key) (map fst acc) of
           None \<Rightarrow> Inl (RuntimeError ''no free key'')
         | Some safe_key \<Rightarrow>
             res_bind (sanitize env depth (credential_result_key env key) item b) (\<lambda>(b, x).
             sanitize_members env depth (k - 1) d (assoc_put safe_key x acc) b)))"
  by pat_completeness auto
termination
  by (relation "measure (\<lambda>a. case a of
        Inl (env, depth, secret, v, b) \<Rightarrow> size v
      | Inr (Inl (env, depth, k, items, b)) \<Rightarrow> size_list size items
      | Inr (Inr (env, depth, k, d, acc, b)) \<Rightarrow> size_list (size_prod (\<lambda>_. 0) size) d)")
    (auto simp: size_list_estimation)

declare sanitize.simps [simp del]

definition safe_result_summary :: "environ \<Rightarrow> outcome \<Rightarrow> json \<Rightarrow> json res" where
  "safe_result_summary env oc summary =
     res_bind (sanitize env 0 False summary
         \<lparr>nodes = max_result_nodes,
          text_chars = int max_result_text_chars - int (length (outcome_name oc))\<rparr>)
       (\<lambda>(b, sanitized).
        case sanitized of
          JDict d \<Rightarrow>
            (let d = (if \<not> has_key ''outcome'' d \<and> length d = max_result_collection_items
                      then butlast d else d)
             in Inr (JDict (assoc_put ''outcome'' (JStr (outcome_name oc)) d)))
        | _ \<Rightarrow> Inl (TypeError ''Structured result must remain a JSON object.''))"

section \<open>Fresh keys\<close>

lemma nat_text_inject: "nat_text i = nat_text j \<longleftrightarrow> i = j"
  by (metis nat_of_nat_text)

lemma hash_not_digit: "\<not> is_digit CHR ''#''"
  by (simp add: is_digit_def code_point_def)

lemma no_hash: "CHR ''#'' \<notin> set (nat_text i)"
  using nat_text_digits [of i] hash_not_digit by blast

lemma split_at_last:
  assumes "a @ c # x = b @ c # y" and "c \<notin> set x" and "c \<notin> set y"
  shows "x = y"
proof -
  have "takeWhile (\<lambda>d. d \<noteq> c) (rev (u @ c # z)) = rev z" if "c \<notin> set z" for u z
    using that by (simp add: takeWhile_append)
  from this [OF assms(2), of a] this [OF assms(3), of b] assms(1) show ?thesis by simp
qed

lemma indexed_key_inject: "indexed_key c i = indexed_key c' j \<Longrightarrow> i = j"
  using split_at_last [of _ "CHR ''#''" "nat_text i" _ "nat_text j"] no_hash
  by (auto simp: indexed_key_def Let_def nat_text_inject)

lemma first_free_None:
  "first_free fuel i c ex = None \<Longrightarrow> indexed_key c ` {i ..< i + fuel} \<subseteq> set ex"
proof (induction fuel arbitrary: i)
  case (Suc fuel)
  then have "indexed_key c i \<in> set ex" "first_free fuel (Suc i) c ex = None"
    by (auto split: if_splits)
  moreover have "{i ..< i + Suc fuel} = insert i {Suc i ..< Suc i + fuel}" by auto
  ultimately show ?case using Suc.IH [of "Suc i"] by simp
qed simp

lemma first_free_Some: "first_free fuel i c ex = Some k \<Longrightarrow> k \<notin> set ex \<and> (\<exists>j. k = indexed_key c j)"
  by (induction fuel i c ex rule: first_free.induct) (auto split: if_splits)

lemma unique_key_exists: "\<exists>k. unique_result_key c ex = Some k"
proof (cases "first_free (Suc (length ex)) 2 c ex")
  case None
  let ?A = "{2 ..< 2 + Suc (length ex)}"
  have "inj_on (indexed_key c) ?A" by (rule inj_onI) (rule indexed_key_inject)
  then have "card (indexed_key c ` ?A) = Suc (length ex)" by (simp add: card_image)
  moreover have "card (indexed_key c ` ?A) \<le> card (set ex)"
    using first_free_None [OF None] by (intro card_mono) simp_all
  moreover have "card (set ex) \<le> length ex" by (rule card_length)
  ultimately show ?thesis by simp
qed (simp add: unique_result_key_def)

lemma unique_key_fresh: "unique_result_key c ex = Some k \<Longrightarrow> k \<notin> set ex"
  by (auto simp: unique_result_key_def split: if_splits dest: first_free_Some)

lemma unique_key_shape:
  "unique_result_key c ex = Some k \<Longrightarrow> k = c \<or> (\<exists>j. k = indexed_key c j)"
  by (auto simp: unique_result_key_def simp del: first_free.simps split: if_splits dest: first_free_Some)

section \<open>Bounds\<close>

text \<open>
  \<open>fits d v\<close>: the bounds of a sanitized value at depth \<open>d\<close>. \<open>weight\<close> counts the values that cost a
  node of the budget (all but the \<open>null\<close> that replaces what is nested too deep), \<open>text_total\<close> the
  characters of string values.
\<close>

fun fits :: "nat \<Rightarrow> json \<Rightarrow> bool" where
  "fits d (JStr s) = (d \<le> max_result_depth \<and> length s \<le> max_result_string_chars)"
| "fits d (JList xs) =
     (d \<le> max_result_depth \<and> length xs \<le> max_result_collection_items \<and> (\<forall>x \<in> set xs. fits (Suc d) x))"
| "fits d (JDict kvs) =
     (d \<le> max_result_depth \<and> length kvs \<le> max_result_collection_items \<and> distinct (map fst kvs)
      \<and> (\<forall>kv \<in> set kvs. length (fst kv) \<le> max_result_key_chars \<and> fits (Suc d) (snd kv)))"
| "fits d JNull = True"
| "fits d JOpaque = False"
| "fits d v = (d \<le> max_result_depth)"

fun weight :: "nat \<Rightarrow> json \<Rightarrow> nat" where
  "weight d (JList xs) = Suc (sum_list (map (weight (Suc d)) xs))"
| "weight d (JDict kvs) = Suc (sum_list (map (\<lambda>kv. weight (Suc d) (snd kv)) kvs))"
| "weight d v = (if max_result_depth < d then 0 else 1)"

fun text_total :: "json \<Rightarrow> nat" where
  "text_total (JStr s) = length s"
| "text_total (JList xs) = sum_list (map text_total xs)"
| "text_total (JDict kvs) = sum_list (map (\<lambda>kv. text_total (snd kv)) kvs)"
| "text_total v = 0"

definition spent :: "result_budget \<Rightarrow> result_budget \<Rightarrow> nat \<Rightarrow> json list \<Rightarrow> bool" where
  "spent b b' d ws =
     (nodes b = nodes b' + sum_list (map (weight d) ws)
      \<and> text_chars b = text_chars b' + int (sum_list (map text_total ws))
      \<and> (text_chars b \<ge> 0 \<longrightarrow> text_chars b' \<ge> 0))"

lemma spent_Nil [simp]: "spent b b d []"
  by (simp add: spent_def)

lemma spent_Cons: "spent b b1 d [w] \<Longrightarrow> spent b1 b2 d ws \<Longrightarrow> spent b b2 d (w # ws)"
  unfolding spent_def list.map sum_list.Cons sum_list.Nil of_nat_add
  by (elim conjE, intro conjI impI) linarith+

lemma safe_result_text_spec:
  assumes "safe_result_text env v b = (b', t)"
  shows "length t \<le> max_result_string_chars \<and> nodes b' = nodes b
    \<and> text_chars b' = text_chars b - int (length t) \<and> (text_chars b \<ge> 0 \<longrightarrow> text_chars b' \<ge> 0)"
proof -
  have t: "t = (if length (redact_result_text env v) > text_limit b
        then take (text_limit b - 3) (redact_result_text env v) @ (if text_limit b \<ge> 3 then ''...'' else [])
        else redact_result_text env v)"
    and b: "b' = b\<lparr>text_chars := text_chars b - int (length t)\<rparr>"
    using assms by (auto simp: safe_result_text_def Let_def)
  have "length t \<le> text_limit b" unfolding t by auto
  moreover have "text_limit b \<le> max_result_string_chars" "int (text_limit b) \<le> max (text_chars b) 0"
    by (simp_all add: text_limit_def)
  ultimately show ?thesis unfolding b by auto
qed

lemma length_nat_text: "length (nat_text n) \<le> Suc n"
proof (induction n rule: nat_text.induct)
  case (1 n)
  then show ?case by (subst nat_text.simps) auto
qed

lemma indexed_key_length: "i < 200 \<Longrightarrow> length (indexed_key c i) \<le> max_result_key_chars"
  using length_nat_text [of i] by (simp add: indexed_key_def Let_def max_result_key_chars_def)

lemma first_free_bound: "first_free fuel i c ex = Some k \<Longrightarrow> \<exists>j < i + fuel. k = indexed_key c j"
proof (induction fuel i c ex rule: first_free.induct)
  case (2 fuel i c ex)
  show ?case
  proof (cases "indexed_key c i \<in> set ex")
    case True
    with 2 show ?thesis by auto
  next
    case False
    with 2 show ?thesis by (intro exI [of _ i]) simp
  qed
qed simp

lemma unique_key_length:
  assumes "unique_result_key (safe_result_key env key) ex = Some k" and "length ex \<le> 128"
  shows "length k \<le> max_result_key_chars"
proof (cases "safe_result_key env key \<in> set ex")
  case True
  with assms have "first_free (Suc (length ex)) 2 (safe_result_key env key) ex = Some k"
    by (simp add: unique_result_key_def)
  then obtain j where "j < 2 + Suc (length ex)" "k = indexed_key (safe_result_key env key) j"
    using first_free_bound by blast
  with assms(2) show ?thesis by (simp add: indexed_key_length)
next
  case False
  with assms show ?thesis by (auto simp: unique_result_key_def safe_result_key_def)
qed

lemma assoc_put_unique: "unique_result_key c (map fst acc) = Some k \<Longrightarrow> assoc_put k x acc = acc @ [(k, x)]"
  using unique_key_fresh [of c "map fst acc" k] by (intro assoc_put_new) auto

lemma sanitize_bounded:
  shows "sanitize env d secret v b = Inr (b', w) \<Longrightarrow> 0 < nodes b \<or> max_result_depth < d \<Longrightarrow>
      fits d w \<and> spent b b' d [w]"
    and "sanitize_items env d k items b = Inr (b', ws) \<Longrightarrow>
      length ws \<le> k \<and> (\<forall>w \<in> set ws. fits d w) \<and> spent b b' d ws"
    and "sanitize_members env d k kvs acc b = Inr (b', out) \<Longrightarrow>
      k + length acc \<le> 128 \<Longrightarrow> distinct (map fst acc) \<Longrightarrow>
      \<exists>new. out = acc @ new \<and> length new \<le> k \<and> distinct (map fst out)
        \<and> (\<forall>kv \<in> set new. length (fst kv) \<le> max_result_key_chars \<and> fits d (snd kv))
        \<and> spent b b' d (map snd new)"
proof (induction env d secret v b and env d k items b and env d k kvs acc b
    arbitrary: b' w and b' ws and b' out rule: sanitize_sanitize_items_sanitize_members.induct)
  case (1 env d secret v b)
  show ?case
  proof (cases "nodes b = 0 \<or> max_result_depth < d")
    case True
    with 1 show ?thesis by (auto simp: sanitize.simps spent_def)
  next
    case False
    define b1 where "b1 = b\<lparr>nodes := nodes b - 1\<rparr>"
    have d: "d \<le> max_result_depth" using False by simp
    have n: "nodes b = Suc (nodes b1)" "text_chars b1 = text_chars b"
      using False by (simp_all add: b1_def)
    have leaf: ?thesis if "safe_result_text env u b1 = (b', t)" "w = JStr t" for u t
      using safe_result_text_spec [OF that(1)] that(2) n d by (auto simp: spent_def)
    show ?thesis
    proof (cases secret)
      case True
      with 1 False obtain t where "safe_result_text env redaction_mark b1 = (b', t)" "w = JStr t"
        by (auto simp: sanitize.simps [of env d] Let_def b1_def split: prod.splits)
      then show ?thesis by (rule leaf)
    next
      case ns: False
      show ?thesis
      proof (cases v)
        case (JStr u)
        with 1 False ns obtain t where "safe_result_text env u b1 = (b', t)" "w = JStr t"
          by (auto simp: sanitize.simps [of env d] Let_def b1_def split: prod.splits)
        then show ?thesis by (rule leaf)
      next
        case (JList items)
        with 1 False ns obtain ws where ws: "sanitize_items env (Suc d) max_result_collection_items items b1
            = Inr (b', ws)" "w = JList ws"
          by (auto simp: sanitize.simps [of env d] Let_def b1_def res_simps)
        with "1.IH"(1) [OF False b1_def ns JList] show ?thesis
          using d n by (auto simp: spent_def)
      next
        case (JDict kvs)
        with 1 False ns obtain out where out: "sanitize_members env (Suc d) max_result_collection_items kvs [] b1
            = Inr (b', out)" "w = JDict out"
          by (auto simp: sanitize.simps [of env d] Let_def b1_def res_simps)
        with "1.IH"(2) [OF False b1_def ns JDict] show ?thesis
          using d n by (auto simp: spent_def max_result_collection_items_def comp_def)
      qed (use 1 False ns d in \<open>auto simp: sanitize.simps [of env d] Let_def spent_def\<close>)
    qed
  qed
next
  case (3 env d k item items b)
  show ?case
  proof (cases "k = 0 \<or> nodes b = 0")
    case False
    with "3.prems" obtain b1 x ws' where r: "sanitize env d False item b = Inr (b1, x)"
      "sanitize_items env d (k - 1) items b1 = Inr (b', ws')" "ws = x # ws'"
      by (auto simp: res_simps)
    from "3.IH"(1) [OF False r(1)] False have x: "fits d x" "spent b b1 d [x]" by auto
    from "3.IH"(2) [OF False r(1) refl r(2)] have "length ws' \<le> k - 1" "\<forall>w \<in> set ws'. fits d w"
      "spent b1 b' d ws'" by auto
    with x r(3) False show ?thesis by (auto intro: spent_Cons)
  qed (use "3.prems" in auto)
next
  case (5 env d k key item kvs acc b)
  show ?case
  proof (cases "k = 0 \<or> nodes b = 0")
    case False
    obtain sk where sk: "unique_result_key (safe_result_key env key) (map fst acc) = Some sk"
      using unique_key_exists by blast
    with False "5.prems" obtain b1 x where r: "sanitize env d (credential_result_key env key) item b = Inr (b1, x)"
      "sanitize_members env d (k - 1) kvs (acc @ [(sk, x)]) b1 = Inr (b', out)"
      by (auto simp: res_simps assoc_put_unique)
    from "5.IH"(1) [OF False sk r(1)] False have x: "fits d x" "spent b b1 d [x]" by auto
    have kl: "length sk \<le> max_result_key_chars"
      using unique_key_length [OF sk] "5.prems"(2) by simp
    have k128: "k - 1 + length (acc @ [(sk, x)]) \<le> 128" using "5.prems"(2) False by auto
    have dk: "distinct (map fst (acc @ [(sk, x)]))"
      using "5.prems"(3) unique_key_fresh [OF sk] by simp
    then obtain new where new: "out = (acc @ [(sk, x)]) @ new" "length new \<le> k - 1" "distinct (map fst out)"
      "\<forall>kv \<in> set new. length (fst kv) \<le> max_result_key_chars \<and> fits d (snd kv)"
      "spent b1 b' d (map snd new)"
      using "5.IH"(2) [OF False sk r(1) refl, unfolded assoc_put_unique [OF sk], OF r(2) k128 dk]
      by blast
    show ?thesis
      using new x kl False spent_Cons [OF x(2) new(5)]
      by (intro exI [of _ "(sk, x) # new"]) auto
  qed (use "5.prems" in auto)
next
  case (2 env d k b)
  then show ?case by simp
next
  case (4 env d k acc b)
  then show ?case by simp
qed

section \<open>Credentials\<close>

text \<open>
  Secrets that neither the ellipsis of a truncated text nor the index of a repeated key can
  rebuild.
\<close>

definition storable :: "string \<Rightarrow> bool" where
  "storable s = (maskable s \<and> last s \<noteq> CHR ''.'' \<and> CHR ''#'' \<notin> set s \<and> \<not> list_all is_digit s)"

fun strings_of :: "json \<Rightarrow> string list" where
  "strings_of (JStr s) = [s]"
| "strings_of (JList xs) = concat (map strings_of xs)"
| "strings_of (JDict kvs) = concat (map (\<lambda>kv. fst kv # strings_of (snd kv)) kvs)"
| "strings_of v = []"

definition clean :: "string \<Rightarrow> json \<Rightarrow> bool" where
  "clean s v = (\<forall>t \<in> set (strings_of v). \<not> contains s t)"

lemma clean_simps [simp]:
  "clean s JNull" "clean s (JBool x)" "clean s (JInt i)" "clean s (JFloat f)" "clean s JOpaque"
  "clean s (JStr t) \<longleftrightarrow> \<not> contains s t"
  "clean s (JList xs) \<longleftrightarrow> (\<forall>x \<in> set xs. clean s x)"
  "clean s (JDict kvs) \<longleftrightarrow> (\<forall>kv \<in> set kvs. \<not> contains s (fst kv) \<and> clean s (snd kv))"
  by (auto simp: clean_def)

lemma redacted_result_clean:
  "storable s \<Longrightarrow> s \<in> set (env_secrets env) \<Longrightarrow> \<not> contains s (redact_result_text env u)"
  by (rule env_redactor.removes) (simp_all add: storable_def)

lemma contains_empty_iff: "maskable s \<Longrightarrow> \<not> contains s []"
  by (auto simp: maskable_def)

lemma safe_result_text_clean:
  assumes "storable s" and "s \<in> set (env_secrets env)" and "safe_result_text env u b = (b', t)"
  shows "\<not> contains s t"
proof -
  have m: "maskable s" "s \<noteq> []" "last s \<noteq> CHR ''.''"
    using assms(1) by (auto simp: storable_def maskable_def)
  have c: "\<not> contains s (redact_result_text env u)"
    using assms(1,2) by (rule redacted_result_clean)
  then have "\<not> contains s (take n (redact_result_text env u))" for n
    using contains_take by blast
  with c m truncated_clean [OF m(2,3) c] assms(3) show ?thesis
    by (auto simp: safe_result_text_def Let_def split: if_splits)
qed

lemma indexed_key_clean:
  assumes "storable s" and "\<not> contains s c"
  shows "\<not> contains s (indexed_key c i)"
proof
  let ?p = "take (max_result_key_chars - length (CHR ''#'' # nat_text i)) c"
  assume "contains s (indexed_key c i)"
  then have "contains s (?p @ CHR ''#'' # nat_text i)" by (simp add: indexed_key_def Let_def)
  then have "contains s ?p \<or> contains s (nat_text i)"
    using assms(1) contains_separator [of "CHR ''#''" s ?p "nat_text i"]
    by (simp add: storable_def maskable_def)
  moreover have "\<not> contains s ?p" using assms(2) contains_take by blast
  moreover have "\<not> contains s (nat_text i)"
  proof
    assume "contains s (nat_text i)"
    then have "set s \<subseteq> set (nat_text i)" by (auto simp: contains_iff)
    then have "list_all is_digit s" using nat_text_digits [of i] by (auto simp: list_all_iff)
    with assms(1) show False by (simp add: storable_def)
  qed
  ultimately show False by blast
qed

lemma unique_key_clean:
  assumes "storable s" and "s \<in> set (env_secrets env)"
    and "unique_result_key (safe_result_key env key) ex = Some k"
  shows "\<not> contains s k"
proof -
  have "\<not> contains s (safe_result_key env key)"
    unfolding safe_result_key_def using redacted_result_clean [OF assms(1,2)] contains_take by blast
  with unique_key_shape [OF assms(3)] indexed_key_clean [OF assms(1)] show ?thesis by auto
qed

lemma sanitize_clean:
  assumes "storable s" and "s \<in> set (env_secrets env)"
  shows "sanitize env d secret v b = Inr (b', w) \<Longrightarrow> clean s w"
    and "sanitize_items env d k items b = Inr (b', ws) \<Longrightarrow> \<forall>w \<in> set ws. clean s w"
    and "sanitize_members env d k kvs acc b = Inr (b', out) \<Longrightarrow>
      \<forall>kv \<in> set acc. \<not> contains s (fst kv) \<and> clean s (snd kv) \<Longrightarrow>
      \<forall>kv \<in> set out. \<not> contains s (fst kv) \<and> clean s (snd kv)"
  using assms
proof (induction env d secret v b and env d k items b and env d k kvs acc b
    arbitrary: b' w and b' ws and b' out rule: sanitize_sanitize_items_sanitize_members.induct)
  case (1 env d secret v b)
  show ?case
  proof (cases "nodes b = 0 \<or> max_result_depth < d")
    case True
    with 1 show ?thesis by (auto simp: sanitize.simps)
  next
    case False
    define b1 where "b1 = b\<lparr>nodes := nodes b - 1\<rparr>"
    have leaf: ?thesis if "safe_result_text env u b1 = (b', t)" "w = JStr t" for u t
      using safe_result_text_clean [OF "1.prems"(2,3) that(1)] that(2) by simp
    show ?thesis
    proof (cases secret)
      case True
      with 1 False obtain t where "safe_result_text env redaction_mark b1 = (b', t)" "w = JStr t"
        by (auto simp: sanitize.simps [of env d] Let_def b1_def split: prod.splits)
      then show ?thesis by (rule leaf)
    next
      case ns: False
      show ?thesis
      proof (cases v)
        case (JStr u)
        with 1 False ns obtain t where "safe_result_text env u b1 = (b', t)" "w = JStr t"
          by (auto simp: sanitize.simps [of env d] Let_def b1_def split: prod.splits)
        then show ?thesis by (rule leaf)
      next
        case (JList items)
        with 1 False ns obtain ws where ws: "sanitize_items env (Suc d) max_result_collection_items items b1
            = Inr (b', ws)" "w = JList ws"
          by (auto simp: sanitize.simps [of env d] Let_def b1_def res_simps)
        with "1.IH"(1) [OF False b1_def ns JList] "1.prems"(2,3) show ?thesis by simp
      next
        case (JDict kvs)
        with 1 False ns obtain out where out: "sanitize_members env (Suc d) max_result_collection_items kvs [] b1
            = Inr (b', out)" "w = JDict out"
          by (auto simp: sanitize.simps [of env d] Let_def b1_def res_simps)
        with "1.IH"(2) [OF False b1_def ns JDict] "1.prems"(2,3) show ?thesis by simp
      qed (use 1 False ns in \<open>auto simp: sanitize.simps [of env d] Let_def\<close>)
    qed
  qed
next
  case (3 env d k item items b)
  show ?case
  proof (cases "k = 0 \<or> nodes b = 0")
    case False
    with "3.prems" obtain b1 x ws' where r: "sanitize env d False item b = Inr (b1, x)"
      "sanitize_items env d (k - 1) items b1 = Inr (b', ws')" "ws = x # ws'"
      by (auto simp: res_simps)
    from "3.IH"(1) [OF False r(1) "3.prems"(2,3)] "3.IH"(2) [OF False r(1) refl r(2) "3.prems"(2,3)] r(3)
    show ?thesis by simp
  qed (use "3.prems" in auto)
next
  case (5 env d k key item kvs acc b)
  show ?case
  proof (cases "k = 0 \<or> nodes b = 0")
    case False
    obtain sk where sk: "unique_result_key (safe_result_key env key) (map fst acc) = Some sk"
      using unique_key_exists by blast
    with False "5.prems" obtain b1 x where r: "sanitize env d (credential_result_key env key) item b = Inr (b1, x)"
      "sanitize_members env d (k - 1) kvs (assoc_put sk x acc) b1 = Inr (b', out)"
      by (auto simp: res_simps)
    have "\<forall>kv \<in> set (assoc_put sk x acc). \<not> contains s (fst kv) \<and> clean s (snd kv)"
      using "5.IH"(1) [OF False sk r(1) "5.prems"(3,4)] "5.prems"(2)
        unique_key_clean [OF "5.prems"(3,4) sk] by (simp add: assoc_put_unique [OF sk])
    from "5.IH"(2) [OF False sk r(1) refl r(2) this "5.prems"(3,4)] show ?thesis .
  qed (use "5.prems" in auto)
next
  case (2 env d k b)
  then show ?case by simp
next
  case (4 env d k acc b)
  then show ?case by simp
qed

section \<open>Totality and independence of credential values\<close>

text \<open>What the sanitizer accepts: every JSON value, whatever it finds under a credential-named key.\<close>

fun acceptable :: "environ \<Rightarrow> json \<Rightarrow> bool" where
  "acceptable env JOpaque = False"
| "acceptable env (JList xs) = (\<forall>x \<in> set xs. acceptable env x)"
| "acceptable env (JDict kvs) =
     (\<forall>kv \<in> set kvs. credential_result_key env (fst kv) \<or> acceptable env (snd kv))"
| "acceptable env v = True"

lemma sanitize_total:
  shows "secret \<or> acceptable env v \<Longrightarrow> \<exists>b' w. sanitize env d secret v b = Inr (b', w) \<and>
      (is_jdict v \<longrightarrow> \<not> secret \<longrightarrow> d \<le> max_result_depth \<longrightarrow> 0 < nodes b \<longrightarrow> is_jdict w)"
    and "\<forall>x \<in> set items. acceptable env x \<Longrightarrow> \<exists>b' ws. sanitize_items env d k items b = Inr (b', ws)"
    and "\<forall>kv \<in> set kvs. credential_result_key env (fst kv) \<or> acceptable env (snd kv) \<Longrightarrow>
      \<exists>b' out. sanitize_members env d k kvs acc b = Inr (b', out)"
proof (induction env d secret v b and env d k items b and env d k kvs acc b
    rule: sanitize_sanitize_items_sanitize_members.induct)
  case (1 env d secret v b)
  show ?case
  proof (cases "nodes b = 0 \<or> max_result_depth < d")
    case True
    then show ?thesis by (auto simp: sanitize.simps)
  next
    case False
    note step = sanitize.simps [of env d secret v b] False
    show ?thesis
    proof (cases secret)
      case True
      with False show ?thesis by (simp add: sanitize.simps [of env d] Let_def split: prod.split)
    next
      case ns: False
      show ?thesis
      proof (cases v)
        case (JList items)
        with "1.IH"(1) [OF False refl ns JList] "1.prems" ns False show ?thesis
          by (auto simp: sanitize.simps [of env d] Let_def)
      next
        case (JDict kvs)
        with "1.IH"(2) [OF False refl ns JDict] "1.prems" ns False show ?thesis
          by (auto simp: sanitize.simps [of env d] Let_def)
      qed (use 1 False ns in \<open>auto simp: sanitize.simps [of env d] Let_def split: prod.splits\<close>)
    qed
  qed
next
  case (3 env d k item items b)
  show ?case
  proof (cases "k = 0 \<or> nodes b = 0")
    case False
    from "3.IH"(1) [OF False] "3.prems" obtain b1 x where "sanitize env d False item b = Inr (b1, x)"
      by auto
    with "3.IH"(2) [OF False this refl] "3.prems" False show ?thesis by auto
  qed auto
next
  case (5 env d k key item kvs acc b)
  show ?case
  proof (cases "k = 0 \<or> nodes b = 0")
    case False
    obtain sk where sk: "unique_result_key (safe_result_key env key) (map fst acc) = Some sk"
      using unique_key_exists by blast
    from "5.IH"(1) [OF False sk] "5.prems"
    obtain b1 x where "sanitize env d (credential_result_key env key) item b = Inr (b1, x)" by auto
    with "5.IH"(2) [OF False sk this refl] "5.prems" False sk show ?thesis by auto
  qed auto
qed simp_all

fun scrub :: "environ \<Rightarrow> json \<Rightarrow> json" where
  "scrub env (JList xs) = JList (map (scrub env) xs)"
| "scrub env (JDict kvs) = JDict (map (\<lambda>kv. (fst kv,
     if credential_result_key env (fst kv) then JNull else scrub env (snd kv))) kvs)"
| "scrub env v = v"

lemma sanitize_secret_independent: "sanitize env d True v b = sanitize env d True v' b"
  by (simp add: sanitize.simps Let_def)

lemma sanitize_scrub:
  shows "\<not> secret \<Longrightarrow> sanitize env d secret (scrub env v) b = sanitize env d secret v b"
    and "sanitize_items env d k (map (scrub env) items) b = sanitize_items env d k items b"
    and "sanitize_members env d k (map (\<lambda>kv. (fst kv,
           if credential_result_key env (fst kv) then JNull else scrub env (snd kv))) kvs) acc b
      = sanitize_members env d k kvs acc b"
proof (induction env d secret v b and env d k items b and env d k kvs acc b
    rule: sanitize_sanitize_items_sanitize_members.induct)
  case (1 env d secret v b)
  then show ?case
    by (cases v) (simp_all add: sanitize.simps [of env d] Let_def)
next
  case (3 env d k item items b)
  show ?case
  proof (cases "k = 0 \<or> nodes b = 0")
    case False
    with 3 show ?thesis by (auto intro!: res_bind_cong)
  qed auto
next
  case (5 env d k key item kvs acc b)
  show ?case
  proof (cases "k = 0 \<or> nodes b = 0")
    case False
    obtain sk where sk: "unique_result_key (safe_result_key env key) (map fst acc) = Some sk"
      using unique_key_exists by blast
    have "sanitize env d (credential_result_key env key)
        (if credential_result_key env key then JNull else scrub env item) b
      = sanitize env d (credential_result_key env key) item b"
      using "5.IH"(1) [OF False sk] sanitize_secret_independent by auto
    with 5 False sk show ?thesis by (auto intro!: res_bind_cong)
  qed auto
qed simp_all

section \<open>The stored summary\<close>

lemma summary_cases:
  assumes "safe_result_summary env oc v = Inr r"
  obtains b d where "sanitize env 0 False v \<lparr>nodes = max_result_nodes,
      text_chars = int max_result_text_chars - int (length (outcome_name oc))\<rparr> = Inr (b, JDict d)"
    and "r = JDict (assoc_put ''outcome'' (JStr (outcome_name oc))
        (if \<not> has_key ''outcome'' d \<and> length d = max_result_collection_items then butlast d else d))"
proof -
  from assms obtain b w where w: "sanitize env 0 False v \<lparr>nodes = max_result_nodes,
      text_chars = int max_result_text_chars - int (length (outcome_name oc))\<rparr> = Inr (b, w)"
    by (auto simp: safe_result_summary_def res_simps)
  show thesis
  proof (cases w)
    case (JDict d)
    show thesis
      by (rule that) (use assms w JDict in \<open>auto simp: safe_result_summary_def Let_def\<close>)
  qed (use assms w in \<open>simp_all add: safe_result_summary_def\<close>)
qed

lemma length_outcome_name: "length (outcome_name oc) \<le> 9"
  by (cases oc) simp_all

lemma sum_assoc_put:
  fixes f :: "'k \<times> 'v \<Rightarrow> nat"
  shows "sum_list (map f (assoc_put k v d)) \<le> sum_list (map f d) + f (k, v)"
  by (induction k v d rule: assoc_put.induct) auto

lemma sum_butlast:
  fixes f :: "'k \<Rightarrow> nat"
  shows "sum_list (map f (butlast d)) \<le> sum_list (map f d)"
  by (induction d) auto

definition kept_members :: "(string \<times> json) list \<Rightarrow> (string \<times> json) list" where
  "kept_members d =
     (if \<not> has_key ''outcome'' d \<and> length d = max_result_collection_items then butlast d else d)"

lemma kept_members_subset: "set (kept_members d) \<subseteq> set d"
  by (auto simp: kept_members_def dest: in_set_butlastD)

lemma sum_kept_members:
  fixes f :: "string \<times> json \<Rightarrow> nat"
  shows "sum_list (map f (kept_members d)) \<le> sum_list (map f d)"
  using sum_butlast [of f d] by (simp add: kept_members_def)

lemma length_with_outcome:
  "length d \<le> max_result_collection_items \<Longrightarrow>
   length (assoc_put ''outcome'' v (kept_members d)) \<le> max_result_collection_items"
  by (auto simp: kept_members_def length_assoc_put has_key_def max_result_collection_items_def)

text \<open>C26: However large, deep or wide a worker's result is, what is stored of it is bounded: at most
  seven levels of nesting, 128 entries in each list and object with pairwise different keys, keys
  of 256 and strings of 4096 characters, 2049 counted values and 256 Ki characters of text in all;
  and its \<open>outcome\<close> is the recorded one.\<close>

theorem result_summary_bounded:
  assumes "safe_result_summary env oc v = Inr r"
  shows "fits 0 r \<and> weight 0 r \<le> 2049 \<and> text_total r \<le> 256 * 1024
     \<and> jget r ''outcome'' = Some (JStr (outcome_name oc))"
proof -
  obtain b d where d: "sanitize env 0 False v \<lparr>nodes = max_result_nodes,
      text_chars = int max_result_text_chars - int (length (outcome_name oc))\<rparr> = Inr (b, JDict d)"
    and r: "r = JDict (assoc_put ''outcome'' (JStr (outcome_name oc)) (kept_members d))"
    using assms by (rule summary_cases) (simp add: kept_members_def)
  have f: "fits 0 (JDict d)" and s: "spent \<lparr>nodes = max_result_nodes,
      text_chars = int max_result_text_chars - int (length (outcome_name oc))\<rparr> b 0 [JDict d]"
    using sanitize_bounded(1) [OF d] by (simp_all add: max_result_nodes_def)
  have budget: "weight 0 (JDict d) \<le> 2048" "text_total (JDict d) + length (outcome_name oc) \<le> 262144"
    using s length_outcome_name [of oc]
    by (simp_all add: spent_def max_result_nodes_def max_result_text_chars_def)
  let ?new = "assoc_put ''outcome'' (JStr (outcome_name oc)) (kept_members d)"
  have sub: "set ?new \<subseteq> insert (''outcome'', JStr (outcome_name oc)) (set d)"
    using set_assoc_put_subset [of "''outcome''" "JStr (outcome_name oc)" "kept_members d"]
      kept_members_subset [of d] by blast
  have "distinct (map fst ?new)"
    using f by (auto simp: kept_members_def map_butlast distinct_butlast intro!: distinct_assoc_put)
  moreover have "length ?new \<le> max_result_collection_items"
    using f by (intro length_with_outcome) simp
  moreover have "length (fst kv) \<le> max_result_key_chars \<and> fits (Suc 0) (snd kv)" if "kv \<in> set ?new" for kv
    using that sub f length_outcome_name [of oc]
    by (auto simp: max_result_key_chars_def max_result_depth_def max_result_string_chars_def)
  ultimately have "fits 0 r" by (simp add: r)
  moreover have "weight 0 r \<le> 2049"
    using sum_assoc_put [of "\<lambda>kv. weight (Suc 0) (snd kv)" "''outcome''" "JStr (outcome_name oc)" "kept_members d"]
      sum_kept_members [of "\<lambda>kv. weight (Suc 0) (snd kv)" d] budget(1)
    by (simp add: r max_result_depth_def)
  moreover have "text_total r \<le> 262144"
    using sum_assoc_put [of "\<lambda>kv. text_total (snd kv)" "''outcome''" "JStr (outcome_name oc)" "kept_members d"]
      sum_kept_members [of "\<lambda>kv. text_total (snd kv)" d] budget(2)
    by (simp add: r)
  ultimately show ?thesis by (simp add: r)
qed

lemma summary_total:
  assumes "is_jdict v" and "acceptable env v"
  shows "\<exists>r. safe_result_summary env oc v = Inr r"
proof -
  obtain b w where w: "sanitize env 0 False v \<lparr>nodes = max_result_nodes,
      text_chars = int max_result_text_chars - int (length (outcome_name oc))\<rparr> = Inr (b, w)" "is_jdict w"
    using sanitize_total(1) [of False env v 0 "\<lparr>nodes = max_result_nodes,
      text_chars = int max_result_text_chars - int (length (outcome_name oc))\<rparr>"] assms
    by (auto simp: max_result_nodes_def)
  then show ?thesis by (cases w) (simp_all add: safe_result_summary_def Let_def)
qed

definition sample_summary :: json where
  "sample_summary = JDict [(''summary'', JStr ''done''), (''api_key'', JStr ''x1''),
     (''checks'', JList [JInt 1, JNull])]"

lemma sample_summary_stored: "\<exists>r. safe_result_summary env oc sample_summary = Inr r"
  by (rule summary_total) (simp_all add: sample_summary_def)

theorem result_summary_bounded_witness:
  "\<exists>r. safe_result_summary no_env OutPartial sample_summary = Inr r
     \<and> fits 0 r \<and> jget r ''outcome'' = Some (JStr ''partial'')"
proof -
  obtain r where r: "safe_result_summary no_env OutPartial sample_summary = Inr r"
    using sample_summary_stored by blast
  with result_summary_bounded [OF r] show ?thesis by auto
qed


definition pat_env :: environ where
  "pat_env = (\<lambda>v. if v = ''QODER_PERSONAL_ACCESS_TOKEN'' then Some ''pat-123'' else None)"


text \<open>The value found under a credential-named key, at any level, has no influence on what is
  stored: replacing it by \<open>null\<close> gives the same stored summary (or the same refusal).\<close>

lemma credential_values_independent:
  "safe_result_summary env oc (scrub env v) = safe_result_summary env oc v"
  by (simp add: safe_result_summary_def sanitize_scrub)

lemma sanitize_wf:
  shows "sanitize env d secret v b = Inr (b', w) \<Longrightarrow> json_wf v \<Longrightarrow> json_wf w"
    and "sanitize_items env d k items b = Inr (b', ws) \<Longrightarrow> \<forall>x \<in> set items. json_wf x \<Longrightarrow>
      \<forall>w \<in> set ws. json_wf w"
    and "sanitize_members env d k kvs acc b = Inr (b', out) \<Longrightarrow> \<forall>kv \<in> set kvs. json_wf (snd kv) \<Longrightarrow>
      json_wf (JDict acc) \<Longrightarrow> json_wf (JDict out)"
proof (induction env d secret v b and env d k items b and env d k kvs acc b
    arbitrary: b' w and b' ws and b' out rule: sanitize_sanitize_items_sanitize_members.induct)
  case (1 env d secret v b)
  show ?case
  proof (cases "nodes b = 0 \<or> max_result_depth < d")
    case True
    with 1 show ?thesis by (auto simp: sanitize.simps)
  next
    case False
    show ?thesis
    proof (cases secret)
      case True
      with 1 False show ?thesis
        by (auto simp: sanitize.simps [of env d] Let_def split: prod.splits)
    next
      case ns: False
      show ?thesis
      proof (cases v)
        case (JList items)
        with 1 False ns obtain ws where ws: "sanitize_items env (Suc d) max_result_collection_items items
            (b\<lparr>nodes := nodes b - 1\<rparr>) = Inr (b', ws)" "w = JList ws"
          by (auto simp: sanitize.simps [of env d] Let_def res_simps)
        with "1.IH"(1) [OF False refl ns JList] "1.prems"(2) JList show ?thesis by simp
      next
        case (JDict kvs)
        with 1 False ns obtain out where out: "sanitize_members env (Suc d) max_result_collection_items kvs []
            (b\<lparr>nodes := nodes b - 1\<rparr>) = Inr (b', out)" "w = JDict out"
          by (auto simp: sanitize.simps [of env d] Let_def res_simps)
        with "1.IH"(2) [OF False refl ns JDict] "1.prems"(2) JDict show ?thesis by simp
      qed (use 1 False ns in \<open>auto simp: sanitize.simps [of env d] Let_def split: prod.splits\<close>)
    qed
  qed
next
  case (3 env d k item items b)
  show ?case
  proof (cases "k = 0 \<or> nodes b = 0")
    case False
    with "3.prems" obtain b1 x ws' where r: "sanitize env d False item b = Inr (b1, x)"
      "sanitize_items env d (k - 1) items b1 = Inr (b', ws')" "ws = x # ws'"
      by (auto simp: res_simps)
    from "3.IH"(1) [OF False r(1)] "3.IH"(2) [OF False r(1) refl r(2)] r(3) "3.prems"(2)
    show ?thesis by simp
  qed (use "3.prems" in auto)
next
  case (5 env d k key item kvs acc b)
  show ?case
  proof (cases "k = 0 \<or> nodes b = 0")
    case False
    obtain sk where sk: "unique_result_key (safe_result_key env key) (map fst acc) = Some sk"
      using unique_key_exists by blast
    with False "5.prems" obtain b1 x where r: "sanitize env d (credential_result_key env key) item b = Inr (b1, x)"
      "sanitize_members env d (k - 1) kvs (assoc_put sk x acc) b1 = Inr (b', out)"
      by (auto simp: res_simps)
    have "json_wf (JDict (assoc_put sk x acc))"
      using "5.IH"(1) [OF False sk r(1)] "5.prems"(2,3) unique_key_fresh [OF sk]
      by (simp add: assoc_put_unique [OF sk])
    from "5.IH"(2) [OF False sk r(1) refl r(2) _ this] "5.prems"(2) show ?thesis by simp
  qed (use "5.prems" in auto)
qed simp_all

lemma wf_acceptable: "json_wf v \<Longrightarrow> acceptable env v"
  by (induction v rule: json_wf.induct) auto

lemma summary_wf:
  assumes "safe_result_summary env oc v = Inr r" and "json_wf v"
  shows "json_wf r \<and> is_jdict r"
proof -
  obtain b d where d: "sanitize env 0 False v \<lparr>nodes = max_result_nodes,
      text_chars = int max_result_text_chars - int (length (outcome_name oc))\<rparr> = Inr (b, JDict d)"
    and r: "r = JDict (assoc_put ''outcome'' (JStr (outcome_name oc)) (kept_members d))"
    using assms(1) by (rule summary_cases) (simp add: kept_members_def)
  have "json_wf (JDict d)" using sanitize_wf(1) [OF d assms(2)] .
  then have "distinct (map fst (kept_members d))" "\<forall>kv \<in> set (kept_members d). json_wf (snd kv)"
    using kept_members_subset [of d] by (auto simp: kept_members_def map_butlast distinct_butlast)
  then show ?thesis
    using set_assoc_put_subset [of "''outcome''" "JStr (outcome_name oc)" "kept_members d"]
    by (auto simp: r)
qed

text \<open>C27: Storing a result never fails on an object that is JSON: the sanitizer returns, its search for
  an unused key included, and what it returns is a well-formed object that the database column
  reads back (with its keys sorted).\<close>

theorem result_summary_total:
  assumes "is_jdict v" and "json_wf v"
  shows "\<exists>r. safe_result_summary env oc v = Inr r
     \<and> json_loads (json_text True True r) = Some (sort_keys r)"
proof -
  obtain r where r: "safe_result_summary env oc v = Inr r"
    using summary_total [OF assms(1) wf_acceptable [OF assms(2)]] by blast
  with summary_wf [OF r assms(2)] show ?thesis by (auto simp: json_roundtrip_sorted)
qed

theorem result_summary_total_witness:
  "\<exists>r. safe_result_summary no_env OutBlocked sample_summary = Inr r
     \<and> json_loads (json_text True True r) = Some (sort_keys r)"
  by (rule result_summary_total) (simp_all add: sample_summary_def)

end
