(* ===== verification/Store.thy ===== *)
theory Store
  imports Sanitizer "HOL-Library.Product_Lexorder"
begin

text \<open>
  \<open>WorkerStore\<close> of \<open>src/qworker/store.py\<close>: the three tables, every operation, and the reads.

  A table is the list of its rows in insertion order; the constraints of the schema are checked
  where the code inserts. Columns hold what the code binds, except that timestamps are instants,
  names of the lifecycle vocabulary are the constructors they name, and the two columns that hold
  JSON lists of strings are lists. Payloads and result summaries are stored as JSON text.

  A transaction that raises leaves the database as it was: each operation returns the database
  after it and its result. The clock, the identifiers drawn by \<open>_new_ulid\<close> (\<open>Ulid\<close>), the environment
  variables and the resolution of a directory are arguments.
\<close>

section \<open>Tables\<close>

record worker_row =
  w_worker_id :: worker_id
  w_role :: worker_role
  w_cwd :: string
  w_state :: worker_state
  w_health :: worker_health
  w_capability :: write_capability
  w_requested_model :: string
  w_resolved_model :: "string option"
  w_actual_models :: "string list"
  w_session_id :: "string option"
  w_attempt :: nat
  w_runtime_path :: string
  w_runtime_version :: "string option"
  w_sdk_version :: string
  w_created_at :: instant
  w_started_at :: "instant option"
  w_last_event_at :: "instant option"
  w_ended_at :: "instant option"
  w_result_summary :: "string option"
  w_nested_state :: nested_state
  w_warnings :: "string list"

record event_row =
  er_worker_id :: worker_id
  er_sequence :: nat
  er_event_id :: string
  er_attempt :: nat
  er_timestamp :: instant
  er_type :: string
  er_payload :: string

record db =
  workers :: "worker_row list"
  attempts :: "attempt_record list"
  events :: "event_row list"

definition empty_db :: db where
  "empty_db = \<lparr>workers = [], attempts = [], events = []\<rparr>"

section \<open>Records returned to callers\<close>

record event_record =
  e_sequence :: nat
  e_event_id :: string
  e_worker_id :: worker_id
  e_attempt :: nat
  e_timestamp :: instant
  e_type :: string
  e_payload :: json

record worker_record =
  wr_row :: worker_row
  wr_result_summary :: "json option"

definition load_json_object :: "string option \<Rightarrow> json option res" where
  "load_json_object raw =
     (case raw of
        None \<Rightarrow> Inr None
      | Some t \<Rightarrow>
          (case json_loads t of
             None \<Rightarrow> Inl (ValueError ''JSON'')
           | Some j \<Rightarrow>
               if is_jdict j then Inr (Some j)
               else Inl (TypeError ''Persisted JSON object was malformed.'')))"

definition worker_from_row :: "worker_row \<Rightarrow> worker_record res" where
  "worker_from_row row =
     res_bind (load_json_object (w_result_summary row)) (\<lambda>summary.
     Inr \<lparr>wr_row = row, wr_result_summary = summary\<rparr>)"

definition event_from_row :: "event_row \<Rightarrow> event_record res" where
  "event_from_row row =
     res_bind (load_json_object (Some (er_payload row))) (\<lambda>payload.
     case payload of
       None \<Rightarrow> Inl (AssertionError ''Persisted event payload must be an object.'')
     | Some p \<Rightarrow> Inr \<lparr>e_sequence = er_sequence row, e_event_id = er_event_id row,
         e_worker_id = er_worker_id row, e_attempt = er_attempt row,
         e_timestamp = er_timestamp row, e_type = er_type row, e_payload = p\<rparr>)"

section \<open>Queries and updates\<close>

definition find_worker :: "worker_id \<Rightarrow> db \<Rightarrow> worker_row option" where
  "find_worker wid db = find (\<lambda>w. w_worker_id w = wid) (workers db)"

definition update_worker :: "worker_id \<Rightarrow> (worker_row \<Rightarrow> worker_row) \<Rightarrow> db \<Rightarrow> db" where
  "update_worker wid f db =
     db\<lparr>workers := map (\<lambda>w. if w_worker_id w = wid then f w else w) (workers db)\<rparr>"

definition update_attempt :: "worker_id \<Rightarrow> nat \<Rightarrow> (attempt_record \<Rightarrow> attempt_record) \<Rightarrow> db \<Rightarrow> db" where
  "update_attempt wid n f db =
     db\<lparr>attempts := map (\<lambda>a. if a_worker_id a = wid \<and> a_attempt a = n then f a else a) (attempts db)\<rparr>"

definition events_of :: "worker_id \<Rightarrow> db \<Rightarrow> event_row list" where
  "events_of wid db = filter (\<lambda>e. er_worker_id e = wid) (events db)"

text \<open>\<open>COALESCE(MAX(sequence), 0)\<close>.\<close>

definition last_sequence :: "worker_id \<Rightarrow> db \<Rightarrow> nat" where
  "last_sequence wid db = fold max (map er_sequence (events_of wid db)) 0"

definition insert_worker :: "worker_row \<Rightarrow> db \<Rightarrow> db res" where
  "insert_worker row db =
     (if find_worker (w_worker_id row) db \<noteq> None
      then Inl (IntegrityError ''UNIQUE constraint failed: workers.worker_id'')
      else if w_attempt row = 0 then Inl (IntegrityError ''CHECK constraint failed: attempt > 0'')
      else Inr (db\<lparr>workers := workers db @ [row]\<rparr>))"

definition insert_attempt :: "attempt_record \<Rightarrow> db \<Rightarrow> db res" where
  "insert_attempt row db =
     (if list_ex (\<lambda>a. a_worker_id a = a_worker_id row \<and> a_attempt a = a_attempt row) (attempts db)
      then Inl (IntegrityError ''UNIQUE constraint failed: attempts.worker_id, attempts.attempt'')
      else if a_attempt row = 0 then Inl (IntegrityError ''CHECK constraint failed: attempt > 0'')
      else if find_worker (a_worker_id row) db = None
      then Inl (IntegrityError ''FOREIGN KEY constraint failed'')
      else Inr (db\<lparr>attempts := attempts db @ [row]\<rparr>))"

definition insert_event :: "event_row \<Rightarrow> db \<Rightarrow> db res" where
  "insert_event row db =
     (if er_sequence row = 0 \<or> er_attempt row = 0 then Inl (IntegrityError ''CHECK constraint failed'')
      else if list_ex (\<lambda>e. er_event_id e = er_event_id row) (events db)
      then Inl (IntegrityError ''UNIQUE constraint failed: events.event_id'')
      else if list_ex (\<lambda>e. er_worker_id e = er_worker_id row \<and> er_sequence e = er_sequence row) (events db)
      then Inl (IntegrityError ''UNIQUE constraint failed: events.worker_id, events.sequence'')
      else if find_worker (er_worker_id row) db = None
      then Inl (IntegrityError ''FOREIGN KEY constraint failed'')
      else Inr (db\<lparr>events := events db @ [row]\<rparr>))"

section \<open>Appending and projecting one event\<close>

definition append_row ::
    "environ \<Rightarrow> worker_id \<Rightarrow> nat \<Rightarrow> string \<Rightarrow> json \<Rightarrow> instant \<Rightarrow> string \<Rightarrow> db \<Rightarrow> (db \<times> event_record) res" where
  "append_row env wid attempt event_type payload timestamp eid db =
     res_bind (validated_payload env event_type payload) (\<lambda>safe_payload.
     let sequence = last_sequence wid db + 1;
         event = \<lparr>e_sequence = sequence, e_event_id = eid, e_worker_id = wid, e_attempt = attempt,
           e_timestamp = timestamp, e_type = event_type, e_payload = safe_payload\<rparr> in
     res_bind (insert_event
         \<lparr>er_worker_id = wid, er_sequence = sequence, er_event_id = eid, er_attempt = attempt,
          er_timestamp = timestamp, er_type = event_type,
          er_payload = json_text True True safe_payload\<rparr> db) (\<lambda>db.
     Inr (update_worker wid (\<lambda>w. w\<lparr>w_last_event_at := Some timestamp\<rparr>) db, event)))"

definition coalesce :: "'a option \<Rightarrow> 'a option \<Rightarrow> 'a option" where
  "coalesce a b = (case a of None \<Rightarrow> b | Some x \<Rightarrow> Some x)"

definition project_state :: "worker_id \<Rightarrow> nat \<Rightarrow> instant \<Rightarrow> worker_state \<Rightarrow> db \<Rightarrow> db" where
  "project_state wid attempt timestamp state db =
     (let started = (if state = Running then Some timestamp else None);
          ended = (if terminal_state state then Some timestamp else None);
          db = update_worker wid (\<lambda>w. w\<lparr>w_state := state, w_started_at := coalesce started (w_started_at w),
                 w_ended_at := coalesce ended (w_ended_at w)\<rparr>) db
      in update_attempt wid attempt (\<lambda>a. a\<lparr>a_state := state, a_started_at := coalesce started (a_started_at a),
           a_ended_at := coalesce ended (a_ended_at a)\<rparr>) db)"

definition project_event :: "event_record \<Rightarrow> db \<Rightarrow> db res" where
  "project_event event db =
     (let wid = e_worker_id event in
      if e_type event = ''worker.state_changed'' then
        (case jget (e_payload event) ''state'' of
           Some (JStr target) \<Rightarrow>
             (case find_worker wid db of
                None \<Rightarrow> Inl (AssertionError ''Event worker disappeared during its transaction.'')
              | Some row \<Rightarrow>
                  (case state_of_name target of
                     None \<Rightarrow> Inl (ValueError (''Invalid worker lifecycle transition: ''
                       @ state_name (w_state row) @ '' -> '' @ target))
                   | Some s \<Rightarrow>
                       res_bind (transition (w_state row) s) (\<lambda>state.
                       Inr (project_state wid (e_attempt event) (e_timestamp event) state db))))
         | _ \<Rightarrow> Inl (ValueError ''worker.state_changed requires a string state.''))
      else if e_type event = ''worker.health_changed'' then
        (case Option.bind (Option.bind (jget (e_payload event) ''health'') jstr) health_of_name of
           None \<Rightarrow> Inl (ValueError ''worker.health_changed requires a valid health value.'')
         | Some h \<Rightarrow> Inr (update_worker wid (\<lambda>w. w\<lparr>w_health := h\<rparr>) db))
      else if e_type event = ''worker.warning'' then
        (case jget (e_payload event) ''code'' of
           Some (JStr code) \<Rightarrow>
             (case find_worker wid db of
                None \<Rightarrow> Inl (AssertionError ''Event worker disappeared during its transaction.'')
              | Some row \<Rightarrow> Inr (update_worker wid (\<lambda>w. w\<lparr>w_warnings := add_once code (w_warnings row)\<rparr>) db))
         | _ \<Rightarrow> Inl (ValueError ''worker.warning requires a string code.''))
      else Inr db)"

definition append_projected ::
    "environ \<Rightarrow> worker_id \<Rightarrow> nat \<Rightarrow> string \<Rightarrow> json \<Rightarrow> instant \<Rightarrow> string \<Rightarrow> db \<Rightarrow> (db \<times> event_record) res" where
  "append_projected env wid attempt event_type payload timestamp eid db =
     res_bind (append_row env wid attempt event_type payload timestamp eid db) (\<lambda>(db, event).
     res_bind (project_event event db) (\<lambda>db. Inr (db, event)))"

section \<open>Operations\<close>

text \<open>\<open>commit\<close> on success, \<open>rollback\<close> and re-raise on any exception.\<close>

definition transaction :: "db \<Rightarrow> (db \<times> 'a) res \<Rightarrow> db \<times> 'a res" where
  "transaction db body = (case body of Inl e \<Rightarrow> (db, Inl e) | Inr (db', x) \<Rightarrow> (db', Inr x))"

definition worker_or :: "py_exn \<Rightarrow> worker_id \<Rightarrow> db \<Rightarrow> worker_row res" where
  "worker_or e wid db = (case find_worker wid db of None \<Rightarrow> Inl e | Some w \<Rightarrow> Inr w)"

definition unknown_worker :: "worker_id \<Rightarrow> py_exn" where
  "unknown_worker wid = KeyError (''Unknown worker: '' @ wid)"

definition new_row :: "worker_id \<Rightarrow> string \<Rightarrow> creation \<Rightarrow> instant \<Rightarrow> worker_row" where
  "new_row wid cwd n created_at =
     \<lparr>w_worker_id = wid, w_role = n_role n, w_cwd = cwd, w_state = Starting, w_health = HealthUnknown,
      w_capability = n_capability n, w_requested_model = n_requested_model n, w_resolved_model = None,
      w_actual_models = [], w_session_id = None, w_attempt = 1, w_runtime_path = n_runtime_path n,
      w_runtime_version = n_runtime_version n, w_sdk_version = n_sdk_version n,
      w_created_at = created_at, w_started_at = None, w_last_event_at = None, w_ended_at = None,
      w_result_summary = None, w_nested_state = NestedNone, w_warnings = []\<rparr>"

definition new_attempt :: "worker_id \<Rightarrow> nat \<Rightarrow> instant \<Rightarrow> attempt_record" where
  "new_attempt wid n created_at =
     \<lparr>a_worker_id = wid, a_attempt = n, a_state = Starting, a_created_at = created_at,
      a_started_at = None, a_ended_at = None\<rparr>"

definition chosen_id :: "worker_id option \<Rightarrow> string \<Rightarrow> worker_id" where
  "chosen_id given fresh = (case given of None \<Rightarrow> fresh | Some w \<Rightarrow> if w = [] then fresh else w)"

definition create_worker ::
    "environ \<Rightarrow> (string \<Rightarrow> string option) \<Rightarrow> creation \<Rightarrow> worker_id option \<Rightarrow> string \<Rightarrow> instant \<Rightarrow> string
     \<Rightarrow> db \<Rightarrow> db \<times> worker_record res" where
  "create_worker env resolve n given fresh now eid db =
     (let wid = chosen_id given fresh in
      case resolve (n_cwd n) of
        None \<Rightarrow> (db, Inl (ValueError ''Unsafe worker creation field: cwd''))
      | Some cwd \<Rightarrow>
          (case validate_worker_creation wid cwd n of
             Inl e \<Rightarrow> (db, Inl e)
           | Inr _ \<Rightarrow>
               (let (db, r) = transaction db
                  (res_bind (insert_worker (new_row wid cwd n now) db) (\<lambda>db.
                   res_bind (insert_attempt (new_attempt wid 1 now) db) (\<lambda>db.
                   append_row env wid 1 ''worker.created'' (created_payload cwd (n_role n)) now eid db)))
                in (db, res_bind r (\<lambda>_.
                     res_bind (worker_or (AssertionError ''Worker insert did not persist.'') wid db)
                       worker_from_row)))))"

definition restart_row :: "nat \<Rightarrow> worker_row \<Rightarrow> worker_row" where
  "restart_row n w = w\<lparr>w_attempt := n, w_state := Starting, w_health := HealthUnknown,
     w_session_id := None, w_started_at := None, w_last_event_at := None, w_ended_at := None,
     w_result_summary := None, w_nested_state := NestedNone, w_warnings := []\<rparr>"

definition start_attempt ::
    "environ \<Rightarrow> worker_id \<Rightarrow> instant \<Rightarrow> string \<Rightarrow> db \<Rightarrow> db \<times> attempt_record res" where
  "start_attempt env wid now eid db = transaction db
     (res_bind (worker_or (unknown_worker wid) wid db) (\<lambda>row.
      res_bind (transition (w_state row) Starting) (\<lambda>_.
      let attempt = w_attempt row + 1 in
      res_bind (insert_attempt (new_attempt wid attempt now) db) (\<lambda>db.
      res_bind (append_row env wid attempt ''worker.state_changed'' (attempt_payload attempt) now eid
          (update_worker wid (restart_row attempt) db)) (\<lambda>(db, _).
      Inr (db, new_attempt wid attempt now))))))"

definition append_event ::
    "environ \<Rightarrow> worker_id \<Rightarrow> string \<Rightarrow> json \<Rightarrow> instant \<Rightarrow> string \<Rightarrow> db \<Rightarrow> db \<times> event_record res" where
  "append_event env wid event_type payload now eid db =
     (case validated_payload env event_type payload of
        Inl e \<Rightarrow> (db, Inl e)
      | Inr safe_payload \<Rightarrow>
          if event_type = ''worker.created''
          then (db, Inl (ValueError ''Use create_worker() to persist worker.created.''))
          else if event_type = ''worker.state_changed'' \<and> jget safe_payload ''state'' = Some (JStr ''starting'')
          then (db, Inl (ValueError ''Use start_attempt() to create a resumed starting attempt.''))
          else transaction db
            (res_bind (worker_or (unknown_worker wid) wid db) (\<lambda>row.
             append_projected env wid (w_attempt row) event_type safe_payload now eid db)))"

definition attempt_changed :: py_exn where
  "attempt_changed = AttemptChangedError ''Approval attempt is no longer live.''"

definition record_approval_request ::
    "environ \<Rightarrow> worker_id \<Rightarrow> nat \<Rightarrow> json \<Rightarrow> instant \<Rightarrow> string \<Rightarrow> string \<Rightarrow> db \<Rightarrow> db \<times> event_record list res"
where
  "record_approval_request env wid expected payload now eid eid' db =
     (case validated_payload env ''approval.requested'' payload of
        Inl e \<Rightarrow> (db, Inl e)
      | Inr safe_payload \<Rightarrow> transaction db
          (res_bind (worker_or (unknown_worker wid) wid db) (\<lambda>row.
           res_bind (require (w_attempt row = expected \<and> w_state row \<in> {Running, RequiresAction})
             attempt_changed) (\<lambda>_.
           res_bind (append_row env wid expected ''approval.requested'' safe_payload now eid db)
             (\<lambda>(db, requested).
           if w_state row = Running then
             res_bind (append_projected env wid expected ''worker.state_changed''
                 (state_payload RequiresAction) now eid' db) (\<lambda>(db, changed).
             Inr (db, [requested, changed]))
           else Inr (db, [requested]))))))"

definition record_approval_resolution ::
    "environ \<Rightarrow> worker_id \<Rightarrow> nat \<Rightarrow> json \<Rightarrow> bool \<Rightarrow> instant \<Rightarrow> string \<Rightarrow> string \<Rightarrow> db
     \<Rightarrow> db \<times> event_record list res"
where
  "record_approval_resolution env wid expected payload restore_running now eid eid' db =
     (case validated_payload env ''approval.resolved'' payload of
        Inl e \<Rightarrow> (db, Inl e)
      | Inr safe_payload \<Rightarrow> transaction db
          (res_bind (worker_or (unknown_worker wid) wid db) (\<lambda>row.
           res_bind (require (w_attempt row = expected \<and> w_state row = RequiresAction)
             attempt_changed) (\<lambda>_.
           res_bind (append_row env wid expected ''approval.resolved'' safe_payload now eid db)
             (\<lambda>(db, resolved).
           if restore_running then
             res_bind (append_projected env wid expected ''worker.state_changed''
                 (state_payload Running) now eid' db) (\<lambda>(db, changed).
             Inr (db, [resolved, changed]))
           else Inr (db, [resolved]))))))"

fun validate_all :: "environ \<Rightarrow> string \<Rightarrow> json list \<Rightarrow> json list res" where
  "validate_all env ty [] = Inr []"
| "validate_all env ty (p # ps) =
     res_bind (validated_payload env ty p) (\<lambda>q. res_bind (validate_all env ty ps) (\<lambda>qs. Inr (q # qs)))"

text \<open>The comprehension that appends one event for each payload; \<open>ids i\<close> is the i-th identifier drawn.\<close>

fun append_all ::
    "environ \<Rightarrow> worker_id \<Rightarrow> nat \<Rightarrow> string \<Rightarrow> json list \<Rightarrow> instant \<Rightarrow> (nat \<Rightarrow> string) \<Rightarrow> nat \<Rightarrow> db
     \<Rightarrow> (db \<times> event_record list) res"
where
  "append_all env wid attempt ty [] now ids i db = Inr (db, [])"
| "append_all env wid attempt ty (p # ps) now ids i db =
     res_bind (append_row env wid attempt ty p now (ids i) db) (\<lambda>(db, ev).
     res_bind (append_all env wid attempt ty ps now ids (Suc i) db) (\<lambda>(db, evs).
     Inr (db, ev # evs)))"

definition expire_approval_requests ::
    "environ \<Rightarrow> worker_id \<Rightarrow> nat \<Rightarrow> string list \<Rightarrow> instant \<Rightarrow> (nat \<Rightarrow> string) \<Rightarrow> db
     \<Rightarrow> db \<times> event_record list res"
where
  "expire_approval_requests env wid expected request_ids now ids db =
     (if request_ids = [] then (db, Inr [])
      else case validate_all env ''approval.resolved'' (map expired_payload request_ids) of
        Inl e \<Rightarrow> (db, Inl e)
      | Inr payloads \<Rightarrow> transaction db
          (res_bind (worker_or (unknown_worker wid) wid db) (\<lambda>row.
           res_bind (require (w_attempt row = expected \<and> w_state row = RequiresAction)
             attempt_changed) (\<lambda>_.
           res_bind (append_all env wid expected ''approval.resolved'' payloads now ids 0 db)
             (\<lambda>(db, resolved).
           res_bind (append_projected env wid expected ''worker.state_changed''
               (state_payload Running) now (ids (length payloads)) db) (\<lambda>(db, changed).
           Inr (db, resolved @ [changed])))))))"

record result_fields =
  f_resolved_model :: "string option"
  f_actual_models :: "string list"
  f_session_id :: "string option"
  f_nested_state :: nested_state
  f_warnings :: "string list"

definition validate_result_fields :: "result_fields \<Rightarrow> unit res" where
  "validate_result_fields f =
     (let ok = (\<lambda>s. safe_metadata (JStr s)); ok_opt = (\<lambda>x. case x of None \<Rightarrow> True | Some s \<Rightarrow> ok s) in
      res_bind (require (ok_opt (f_resolved_model f))
        (ValueError ''Unsafe worker result field: resolved_model'')) (\<lambda>_.
      res_bind (require (list_all ok (f_actual_models f))
        (ValueError ''Unsafe worker result field: actual_models'')) (\<lambda>_.
      res_bind (require (ok_opt (f_session_id f))
        (ValueError ''Unsafe worker result field: session_id'')) (\<lambda>_.
      require (list_all ok (f_warnings f)) (ValueError ''Unsafe worker result field: warnings'')))))"

definition store_result :: "json \<Rightarrow> result_fields \<Rightarrow> worker_row \<Rightarrow> worker_row" where
  "store_result summary f w = w\<lparr>w_result_summary := Some (json_text True True summary),
     w_resolved_model := f_resolved_model f, w_actual_models := f_actual_models f,
     w_session_id := f_session_id f, w_nested_state := f_nested_state f, w_warnings := f_warnings f\<rparr>"

definition record_result ::
    "environ \<Rightarrow> worker_id \<Rightarrow> outcome \<Rightarrow> json \<Rightarrow> result_fields \<Rightarrow> instant \<Rightarrow> string \<Rightarrow> db
     \<Rightarrow> db \<times> event_record res"
where
  "record_result env wid oc summary f now eid db =
     (case res_bind (safe_result_summary env oc summary) (\<lambda>safe.
           res_bind (validate_result_fields f) (\<lambda>_. Inr safe)) of
        Inl e \<Rightarrow> (db, Inl e)
      | Inr safe \<Rightarrow> transaction db
          (res_bind (worker_or (unknown_worker wid) wid db) (\<lambda>row.
           res_bind (append_row env wid (w_attempt row) ''result.received''
               (result_payload oc (f_resolved_model f)) now eid db) (\<lambda>(db, event).
           Inr (update_worker wid (store_result safe f) db, event)))))"

section \<open>Reads\<close>

definition get_worker :: "worker_id \<Rightarrow> db \<Rightarrow> worker_record option res" where
  "get_worker wid db =
     (case find_worker wid db of
        None \<Rightarrow> Inr None
      | Some row \<Rightarrow> res_bind (worker_from_row row) (\<lambda>w. Inr (Some w)))"

fun map_res :: "('a \<Rightarrow> 'b res) \<Rightarrow> 'a list \<Rightarrow> 'b list res" where
  "map_res f [] = Inr []"
| "map_res f (x # xs) = res_bind (f x) (\<lambda>y. res_bind (map_res f xs) (\<lambda>ys. Inr (y # ys)))"

definition list_workers :: "db \<Rightarrow> (worker_record \<times> nat) list res" where
  "list_workers db =
     map_res (\<lambda>row. res_bind (worker_from_row row) (\<lambda>w. Inr (w, last_sequence (w_worker_id row) db)))
       (rev (sort_key (\<lambda>w. (w_created_at w, w_worker_id w)) (workers db)))"

definition latest_event_cursor :: "worker_id \<Rightarrow> db \<Rightarrow> nat" where
  "latest_event_cursor wid db = last_sequence wid db"

definition events_since :: "worker_id \<Rightarrow> int \<Rightarrow> db \<Rightarrow> event_record list res" where
  "events_since wid since db =
     (if since < 0 then Inl (ValueError ''Event cursor must be non-negative.'')
      else map_res event_from_row
        (sort_key er_sequence (filter (\<lambda>e. int (er_sequence e) > since) (events_of wid db))))"

end
