(* ===== verification/Store_Invariants.thy ===== *)
theory Store_Invariants
  imports Store
begin

text \<open>
  The invariant of the worker database and its preservation by every operation of \<open>Store\<close>.

  The invariant is stated per worker, on the \<open>view\<close> an identifier has of the three tables: its
  row, its attempts and its events. Event sourcing is part of it: replaying a worker's events
  gives the attempt, state and health in its row.
\<close>

section \<open>Replay\<close>

definition record_of :: "event_row \<Rightarrow> event_record" where
  "record_of row = \<lparr>e_sequence = er_sequence row, e_event_id = er_event_id row,
     e_worker_id = er_worker_id row, e_attempt = er_attempt row, e_timestamp = er_timestamp row,
     e_type = er_type row, e_payload = the (json_loads (er_payload row))\<rparr>"

definition event_state :: "event_record \<Rightarrow> worker_state option" where
  "event_state ev =
     (if e_type ev = ''worker.state_changed''
      then Option.bind (Option.bind (jget (e_payload ev) ''state'') jstr) state_of_name else None)"

definition event_health :: "event_record \<Rightarrow> worker_health option" where
  "event_health ev =
     (if e_type ev = ''worker.health_changed''
      then Option.bind (Option.bind (jget (e_payload ev) ''health'') jstr) health_of_name else None)"

type_synonym summary = "nat \<times> worker_state \<times> worker_health"

definition replay_event :: "event_record \<Rightarrow> summary option \<Rightarrow> summary option" where
  "replay_event ev st =
     (if e_type ev = ''worker.created'' then Some (1, Starting, HealthUnknown)
      else case st of
        None \<Rightarrow> None
      | Some (n, s, h) \<Rightarrow>
          (case event_state ev of
             Some Starting \<Rightarrow> Some (e_attempt ev, Starting, HealthUnknown)
           | Some t \<Rightarrow> Some (n, t, h)
           | None \<Rightarrow> (case event_health ev of Some g \<Rightarrow> Some (n, s, g) | None \<Rightarrow> Some (n, s, h))))"

definition replay :: "event_record list \<Rightarrow> summary option" where
  "replay evs = fold replay_event evs None"

lemma replay_snoc: "replay (evs @ [ev]) = replay_event ev (replay evs)"
  by (simp add: replay_def)

section \<open>The invariant\<close>

text \<open>A stored payload is the canonical text of a payload that its schema accepts.\<close>

definition row_ok :: "environ \<Rightarrow> event_row \<Rightarrow> bool" where
  "row_ok env e \<longleftrightarrow> (\<exists>p. json_wf p \<and> is_jdict p \<and> sort_keys p = p
     \<and> er_payload e = json_text True True p \<and> validated_payload env (er_type e) p = Inr p)"

definition summary_ok :: "worker_row \<Rightarrow> bool" where
  "summary_ok w \<longleftrightarrow> (case w_result_summary w of None \<Rightarrow> True
     | Some t \<Rightarrow> \<exists>j. json_wf j \<and> is_jdict j \<and> t = json_text True True j)"

definition coherent :: "worker_row \<Rightarrow> bool" where
  "coherent w \<longleftrightarrow> summary_ok w \<and> (w_ended_at w \<noteq> None \<longleftrightarrow> terminal_state (w_state w))
     \<and> (w_state w = Starting \<longrightarrow> w_started_at w = None)
     \<and> (w_state w \<in> {Running, RequiresAction, Completed, Lost} \<longrightarrow> w_started_at w \<noteq> None)"

definition attempts_ok :: "worker_row \<Rightarrow> attempt_record list \<Rightarrow> bool" where
  "attempts_ok w as \<longleftrightarrow> (\<exists>olds cur. as = olds @ [cur]
     \<and> map a_attempt as = [1..<Suc (w_attempt w)]
     \<and> a_state cur = w_state w \<and> a_started_at cur = w_started_at w \<and> a_ended_at cur = w_ended_at w
     \<and> (\<forall>a \<in> set olds. a_state a \<in> {Failed, Cancelled, Lost}))"

definition events_ok :: "environ \<Rightarrow> worker_row \<Rightarrow> event_row list \<Rightarrow> bool" where
  "events_ok env w es \<longleftrightarrow> es \<noteq> [] \<and> map er_sequence es = [1..<Suc (length es)]
     \<and> (\<forall>e \<in> set es. row_ok env e \<and> 0 < er_attempt e \<and> er_attempt e \<le> w_attempt w)
     \<and> replay (map record_of es) = Some (w_attempt w, w_state w, w_health w)
     \<and> w_last_event_at w = Some (er_timestamp (last es))"

definition view_ok :: "environ \<Rightarrow> worker_row option \<Rightarrow> attempt_record list \<Rightarrow> event_row list \<Rightarrow> bool" where
  "view_ok env ow as es =
     (case ow of
        None \<Rightarrow> as = [] \<and> es = []
      | Some w \<Rightarrow> 0 < w_attempt w \<and> coherent w \<and> attempts_ok w as \<and> events_ok env w es)"

definition attempts_of :: "worker_id \<Rightarrow> db \<Rightarrow> attempt_record list" where
  "attempts_of wid db = filter (\<lambda>a. a_worker_id a = wid) (attempts db)"

definition store_ok :: "environ \<Rightarrow> db \<Rightarrow> bool" where
  "store_ok env db \<longleftrightarrow> distinct (map w_worker_id (workers db)) \<and> distinct (map er_event_id (events db))
     \<and> (\<forall>wid. view_ok env (find_worker wid db) (attempts_of wid db) (events_of wid db))"

lemma empty_ok: "store_ok env empty_db"
  by (simp add: store_ok_def empty_db_def view_ok_def find_worker_def attempts_of_def events_of_def)

section \<open>Views under updates\<close>

named_theorems views \<open>what each update does to the view of each worker\<close>

lemma find_worker_id: "find_worker wid db = Some w \<Longrightarrow> w_worker_id w = wid"
  by (auto simp: find_worker_def find_Some_iff)

lemma find_map:
  assumes "\<And>x. P (g x) = P x"
  shows "find P (map g xs) = map_option g (find P xs)"
  using assms by (induction xs) auto

lemma find_worker_update [views]:
  assumes "\<And>w. w_worker_id (f w) = w_worker_id w"
  shows "find_worker u (update_worker wid f db)
    = (if u = wid then map_option f (find_worker u db) else find_worker u db)"
proof -
  let ?g = "\<lambda>w. if w_worker_id w = wid then f w else w"
  have "find_worker u (update_worker wid f db) = map_option ?g (find_worker u db)"
    unfolding find_worker_def update_worker_def using assms by (simp add: find_map)
  then show ?thesis
    by (cases "find_worker u db") (auto dest: find_worker_id)
qed

lemma other_tables [views]:
  "attempts_of u (update_worker wid f db) = attempts_of u db"
  "events_of u (update_worker wid f db) = events_of u db"
  "find_worker u (update_attempt wid n g db) = find_worker u db"
  "events_of u (update_attempt wid n g db) = events_of u db"
  by (simp_all add: attempts_of_def events_of_def update_worker_def update_attempt_def find_worker_def)

lemma attempts_of_update [views]:
  assumes "\<And>a. a_worker_id (g a) = a_worker_id a"
  shows "attempts_of u (update_attempt wid n g db)
    = (if u = wid then map (\<lambda>a. if a_attempt a = n then g a else a) (attempts_of u db) else attempts_of u db)"
proof -
  have "filter (\<lambda>a. a_worker_id a = u) (map (\<lambda>a. if a_worker_id a = wid \<and> a_attempt a = n then g a else a) as)
    = (if u = wid then map (\<lambda>a. if a_attempt a = n then g a else a) (filter (\<lambda>a. a_worker_id a = u) as)
       else filter (\<lambda>a. a_worker_id a = u) as)" for as
    using assms by (induction as) auto
  then show ?thesis by (simp add: attempts_of_def update_attempt_def)
qed

lemma worker_ids_update [views]:
  "(\<And>w. w_worker_id (f w) = w_worker_id w) \<Longrightarrow>
   map w_worker_id (workers (update_worker wid f db)) = map w_worker_id (workers db)"
  "map w_worker_id (workers (update_attempt wid n g db)) = map w_worker_id (workers db)"
  "events (update_worker wid f db) = events db"
  "events (update_attempt wid n g db) = events db"
  by (simp_all add: update_worker_def update_attempt_def)

lemma find_append: "find P (xs @ ys) = (case find P xs of None \<Rightarrow> find P ys | Some x \<Rightarrow> Some x)"
  by (induction xs) auto

lemma find_worker_insert:
  "insert_worker row db = Inr db' \<Longrightarrow>
   find_worker (w_worker_id row) db = None
   \<and> find_worker u db' = (if u = w_worker_id row then Some row else find_worker u db)
   \<and> attempts_of u db' = attempts_of u db \<and> events_of u db' = events_of u db
   \<and> workers db' = workers db @ [row] \<and> events db' = events db"
proof -
  assume "insert_worker row db = Inr db'"
  then have n: "find_worker (w_worker_id row) db = None" and d: "db' = db\<lparr>workers := workers db @ [row]\<rparr>"
    by (auto simp: insert_worker_def split: if_splits)
  from n show ?thesis
    by (auto simp: d find_worker_def attempts_of_def events_of_def find_append split: option.splits)
qed

lemma insert_attempt_view:
  "insert_attempt row db = Inr db' \<Longrightarrow>
   find_worker u db' = find_worker u db \<and> events_of u db' = events_of u db
   \<and> attempts_of u db' = attempts_of u db @ (if u = a_worker_id row then [row] else [])
   \<and> workers db' = workers db \<and> events db' = events db"
  by (auto simp: insert_attempt_def attempts_of_def events_of_def find_worker_def split: if_splits)

lemma insert_event_view:
  "insert_event row db = Inr db' \<Longrightarrow>
   find_worker u db' = find_worker u db \<and> attempts_of u db' = attempts_of u db
   \<and> events_of u db' = events_of u db @ (if u = er_worker_id row then [row] else [])
   \<and> workers db' = workers db \<and> events db' = events db @ [row]
   \<and> er_event_id row \<notin> er_event_id ` set (events db)
   \<and> 0 < er_sequence row \<and> 0 < er_attempt row"
  by (auto simp: insert_event_def attempts_of_def events_of_def find_worker_def list_ex_iff
      split: if_splits)

lemma last_sequence_length:
  "map er_sequence (events_of wid db) = [1..<Suc (length (events_of wid db))] \<Longrightarrow>
   last_sequence wid db = length (events_of wid db)"
proof -
  have "fold max [1..<Suc n] 0 = n" for n :: nat by (induction n) auto
  then show "map er_sequence (events_of wid db) = [1..<Suc (length (events_of wid db))] \<Longrightarrow> ?thesis"
    by (simp add: last_sequence_def)
qed

section \<open>Appending an event\<close>

lemma row_ok_record:
  assumes "row_ok env row"
  shows "event_from_row row = Inr (record_of row)"
proof -
  obtain p where p: "json_wf p" "is_jdict p" "sort_keys p = p" "er_payload row = json_text True True p"
    using assms by (auto simp: row_ok_def)
  then have "json_loads (er_payload row) = Some p" by (simp add: json_roundtrip_sorted)
  with p show ?thesis
    by (simp add: event_from_row_def load_json_object_def record_of_def)
qed

text \<open>What a successful \<open>append_row\<close> did.\<close>

definition appended ::
    "environ \<Rightarrow> worker_id \<Rightarrow> nat \<Rightarrow> string \<Rightarrow> json \<Rightarrow> instant \<Rightarrow> db \<Rightarrow> db \<Rightarrow> event_record \<Rightarrow> event_row \<Rightarrow> bool"
where
  "appended env wid n ty payload now db db' ev row \<longleftrightarrow>
     (\<forall>u. find_worker u db' = (if u = wid
        then map_option (\<lambda>w. w\<lparr>w_last_event_at := Some now\<rparr>) (find_worker u db) else find_worker u db))
     \<and> (\<forall>u. attempts_of u db' = attempts_of u db)
     \<and> (\<forall>u. events_of u db' = events_of u db @ (if u = wid then [row] else []))
     \<and> map w_worker_id (workers db') = map w_worker_id (workers db)
     \<and> (distinct (map er_event_id (events db)) \<longrightarrow> distinct (map er_event_id (events db')))
     \<and> row_ok env row \<and> record_of row = ev \<and> er_timestamp row = now
     \<and> er_sequence row = last_sequence wid db + 1 \<and> er_attempt row = n \<and> 0 < n
     \<and> e_worker_id ev = wid \<and> e_type ev = ty \<and> e_attempt ev = n \<and> e_timestamp ev = now
     \<and> validated_payload env ty payload = Inr (e_payload ev) \<and> e_payload ev = sort_keys payload"

lemma append_row_appended:
  assumes "append_row env wid n ty payload now eid db = Inr (db', ev)" and "json_wf payload"
  shows "\<exists>row. appended env wid n ty payload now db db' ev row"
proof -
  from assms(1) obtain p where p: "validated_payload env ty payload = Inr p"
    by (auto simp: append_row_def res_simps)
  define row where "row = \<lparr>er_worker_id = wid, er_sequence = last_sequence wid db + 1, er_event_id = eid,
    er_attempt = n, er_timestamp = now, er_type = ty, er_payload = json_text True True p\<rparr>"
  from assms(1) p obtain d1 where d1: "insert_event row db = Inr d1"
    and db': "db' = update_worker wid (\<lambda>w. w\<lparr>w_last_event_at := Some now\<rparr>) d1"
    and ev: "ev = \<lparr>e_sequence = last_sequence wid db + 1, e_event_id = eid, e_worker_id = wid,
      e_attempt = n, e_timestamp = now, e_type = ty, e_payload = p\<rparr>"
    by (auto simp: append_row_def res_simps Let_def row_def)
  have wf: "json_wf p" "is_jdict p" "sort_keys p = p"
    using validated_payload_wf [OF assms(2) p] by auto
  have ok: "row_ok env row"
    using wf validated_payload_again [OF assms(2) p] by (auto simp: row_ok_def row_def)
  have rec: "record_of row = ev"
    using wf by (simp add: record_of_def row_def ev json_roundtrip_sorted)
  have sk: "p = sort_keys payload"
    using validated_payload_iff [OF assms(2)] p by auto
  note v = insert_event_view [OF d1]
  have "appended env wid n ty payload now db db' ev row"
    unfolding appended_def using v ok rec p sk by (auto simp: db' views row_def ev)
  then show ?thesis by blast
qed

lemma view_ok_extend:
  assumes "view_ok env (Some w) as es" and "row_ok env row" and "er_sequence row = Suc (length es)"
    and "0 < er_attempt row" and "er_attempt row \<le> w_attempt w'" and "w_attempt w \<le> w_attempt w'"
    and "coherent w'" and "attempts_ok w' as'"
    and "replay_event (record_of row) (Some (w_attempt w, w_state w, w_health w))
      = Some (w_attempt w', w_state w', w_health w')"
    and "w_last_event_at w' = Some (er_timestamp row)"
  shows "view_ok env (Some w') as' (es @ [row])"
  using assms by (auto simp: view_ok_def events_ok_def replay_snoc)

lemma attempts_ok_snoc:
  assumes "attempts_ok w as"
  obtains olds cur where "as = olds @ [cur]" and "a_attempt cur = w_attempt w"
    and "\<forall>a \<in> set olds. a_attempt a \<noteq> w_attempt w \<and> a_state a \<in> {Failed, Cancelled, Lost}"
    and "a_state cur = w_state w" and "a_started_at cur = w_started_at w"
    and "a_ended_at cur = w_ended_at w"
proof -
  from assms obtain olds cur where oc: "as = olds @ [cur]" "map a_attempt as = [1..<Suc (w_attempt w)]"
    "a_state cur = w_state w" "a_started_at cur = w_started_at w" "a_ended_at cur = w_ended_at w"
    "\<forall>a \<in> set olds. a_state a \<in> {Failed, Cancelled, Lost}"
    unfolding attempts_ok_def by blast
  have n: "0 < w_attempt w" using oc(1,2) by (cases "w_attempt w") auto
  then have "map a_attempt olds @ [a_attempt cur] = [1..<w_attempt w] @ [w_attempt w]"
    using oc(1,2) by simp
  then have "map a_attempt olds = [1..<w_attempt w]" "a_attempt cur = w_attempt w" by simp_all
  moreover from this(1) have "\<forall>a \<in> set olds. a_attempt a < w_attempt w"
    by (metis atLeastLessThan_iff image_eqI set_map set_upt)
  ultimately show thesis using oc that by (metis less_irrefl)
qed

lemma attempts_ok_project:
  assumes "attempts_ok w as" and "w_attempt w' = w_attempt w"
    and "\<And>a. a_attempt (f a) = a_attempt a"
    and "\<And>a. a_state a = w_state w \<Longrightarrow> a_started_at a = w_started_at w \<Longrightarrow> a_ended_at a = w_ended_at w \<Longrightarrow>
      a_state (f a) = w_state w' \<and> a_started_at (f a) = w_started_at w' \<and> a_ended_at (f a) = w_ended_at w'"
  shows "attempts_ok w' (map (\<lambda>a. if a_attempt a = w_attempt w then f a else a) as)"
proof -
  obtain olds cur where oc: "as = olds @ [cur]" "a_attempt cur = w_attempt w"
    "\<forall>a \<in> set olds. a_attempt a \<noteq> w_attempt w \<and> a_state a \<in> {Failed, Cancelled, Lost}"
    "a_state cur = w_state w" "a_started_at cur = w_started_at w" "a_ended_at cur = w_ended_at w"
    using assms(1) by (rule attempts_ok_snoc)
  have e: "map (\<lambda>a. if a_attempt a = w_attempt w then f a else a) as = olds @ [f cur]"
    using oc(1-3) by (auto intro: map_idI)
  have "map a_attempt as = [1..<Suc (w_attempt w)]" using assms(1) by (auto simp: attempts_ok_def)
  then have "map a_attempt (olds @ [f cur]) = [1..<Suc (w_attempt w')]"
    using oc(1) assms(2,3) by simp
  with oc assms(4) [of cur] show ?thesis
    unfolding attempts_ok_def e by blast
qed

lemma attempts_ok_cong:
  "attempts_ok w as \<Longrightarrow> w_attempt w' = w_attempt w \<Longrightarrow> w_state w' = w_state w \<Longrightarrow>
   w_started_at w' = w_started_at w \<Longrightarrow> w_ended_at w' = w_ended_at w \<Longrightarrow> attempts_ok w' as"
  by (simp add: attempts_ok_def)

lemma coherent_cong:
  "coherent w \<Longrightarrow> w_state w' = w_state w \<Longrightarrow> w_started_at w' = w_started_at w \<Longrightarrow>
   w_ended_at w' = w_ended_at w \<Longrightarrow> summary_ok w' \<Longrightarrow> coherent w'"
  by (simp add: coherent_def)

lemma coherent_keep:
  "coherent w \<Longrightarrow> w_state w' = w_state w \<Longrightarrow> w_started_at w' = w_started_at w \<Longrightarrow>
   w_ended_at w' = w_ended_at w \<Longrightarrow> w_result_summary w' = w_result_summary w \<Longrightarrow> coherent w'"
  by (simp add: coherent_def summary_ok_def)

lemma coalesce_None [simp]: "coalesce None b = b" "coalesce (Some x) b = Some x"
  by (simp_all add: coalesce_def)

lemma coherent_project:
  assumes "coherent w" and "s \<in> set (transitions (w_state w))" and "s \<noteq> Starting"
  shows "coherent (w\<lparr>w_last_event_at := l, w_state := s,
      w_started_at := coalesce (if s = Running then Some now else None) (w_started_at w),
      w_ended_at := coalesce (if terminal_state s then Some now else None) (w_ended_at w)\<rparr>)"
  using assms by (cases "w_state w"; cases s) (auto simp: coherent_def summary_ok_def)

lemma store_okD:
  "store_ok env db \<Longrightarrow> find_worker wid db = Some w \<Longrightarrow>
   view_ok env (Some w) (attempts_of wid db) (events_of wid db)"
  unfolding store_ok_def by metis

lemma store_ok_step:
  assumes "store_ok env db"
    and "map w_worker_id (workers db') = map w_worker_id (workers db)"
    and "distinct (map er_event_id (events db'))"
    and "\<And>u. u \<noteq> wid \<Longrightarrow> find_worker u db' = find_worker u db \<and> attempts_of u db' = attempts_of u db
      \<and> events_of u db' = events_of u db"
    and "view_ok env (find_worker wid db') (attempts_of wid db') (events_of wid db')"
  shows "store_ok env db'"
  using assms unfolding store_ok_def by metis

text \<open>
  Appending an event to a worker and projecting it, seen from outside: the invariant is kept, the
  log of the worker grows by the event, its row keeps its identity, attempt and history, and its
  state moves along an edge of the table when the event is a state change.
\<close>

definition identity :: "worker_row \<Rightarrow> worker_role \<times> string \<times> write_capability \<times> string \<times> string
    \<times> string option \<times> string \<times> instant" where
  "identity w = (w_role w, w_cwd w, w_capability w, w_requested_model w, w_runtime_path w,
     w_runtime_version w, w_sdk_version w, w_created_at w)"

definition advanced :: "environ \<Rightarrow> worker_id \<Rightarrow> worker_row \<Rightarrow> event_record \<Rightarrow> db \<Rightarrow> db \<Rightarrow> worker_row \<Rightarrow> bool" where
  "advanced env wid w ev db db' w' \<longleftrightarrow> store_ok env db' \<and> find_worker wid db' = Some w'
     \<and> w_attempt w' = w_attempt w
     \<and> w_state w' = (case event_state ev of None \<Rightarrow> w_state w | Some s \<Rightarrow> s)
     \<and> (\<forall>s. event_state ev = Some s \<longrightarrow> s \<in> set (transitions (w_state w)))
     \<and> w_result_summary w' = w_result_summary w \<and> identity w' = identity w
     \<and> (\<forall>u. u \<noteq> wid \<longrightarrow> find_worker u db' = find_worker u db \<and> events_of u db' = events_of u db)
     \<and> (\<exists>row. events_of wid db' = events_of wid db @ [row] \<and> record_of row = ev)
     \<and> e_sequence ev = Suc (length (events_of wid db)) \<and> e_attempt ev = w_attempt w"

lemma append_projected_advanced:
  assumes ok: "store_ok env db" and w: "find_worker wid db = Some w"
    and r: "append_projected env wid (w_attempt w) ty payload now eid db = Inr (db', ev)"
    and wf: "json_wf payload" and ty: "ty \<noteq> ''worker.created''"
    and st: "ty = ''worker.state_changed'' \<Longrightarrow> jget (sort_keys payload) ''state'' \<noteq> Some (JStr ''starting'')"
  shows "\<exists>w'. advanced env wid w ev db db' w'"
proof -
  obtain d1 where d1: "append_row env wid (w_attempt w) ty payload now eid db = Inr (d1, ev)"
    and pr: "project_event ev d1 = Inr db'"
    using r by (auto simp: append_projected_def res_simps)
  obtain row where ap: "appended env wid (w_attempt w) ty payload now db d1 ev row"
    using append_row_appended [OF d1 wf] by blast
  have v: "\<And>u. find_worker u d1 = (if u = wid
        then map_option (\<lambda>w. w\<lparr>w_last_event_at := Some now\<rparr>) (find_worker u db) else find_worker u db)"
      "\<And>u. attempts_of u d1 = attempts_of u db"
      "\<And>u. events_of u d1 = events_of u db @ (if u = wid then [row] else [])"
      "map w_worker_id (workers d1) = map w_worker_id (workers db)"
      "distinct (map er_event_id (events db)) \<Longrightarrow> distinct (map er_event_id (events d1))"
    and row: "row_ok env row" "record_of row = ev" "er_timestamp row = now"
      "er_sequence row = last_sequence wid db + 1" "er_attempt row = w_attempt w" "0 < w_attempt w"
    and ev: "e_worker_id ev = wid" "e_type ev = ty" "e_attempt ev = w_attempt w" "e_timestamp ev = now"
      "validated_payload env ty payload = Inr (e_payload ev)" "e_payload ev = sort_keys payload"
    using ap unfolding appended_def by blast+
  have vw: "view_ok env (Some w) (attempts_of wid db) (events_of wid db)"
    using ok w by (rule store_okD)
  then have seq: "er_sequence row = Suc (length (events_of wid db))"
    using row(4) last_sequence_length [of wid db] by (simp add: view_ok_def events_ok_def)
  have att: "attempts_ok w (attempts_of wid db)" and coh: "coherent w"
    using vw by (simp_all add: view_ok_def)
  have dist: "distinct (map er_event_id (events d1))" using ok v(5) by (simp add: store_ok_def)
  have w1: "find_worker wid d1 = Some (w\<lparr>w_last_event_at := Some now\<rparr>)" using v(1) [of wid] w by simp
  have fin: "\<exists>w'. advanced env wid w ev db db' w'"
    if f: "find_worker wid db' = Some w'" and a': "w_attempt w' = w_attempt w"
      and s': "w_state w' = (case event_state ev of None \<Rightarrow> w_state w | Some s \<Rightarrow> s)"
      and tr: "\<forall>s. event_state ev = Some s \<longrightarrow> s \<in> set (transitions (w_state w)) \<and> s \<noteq> Starting"
      and h': "w_health w' = (case event_health ev of None \<Rightarrow> w_health w | Some h \<Rightarrow> h)"
      and l': "w_last_event_at w' = Some now" and res: "w_result_summary w' = w_result_summary w"
      and idn: "identity w' = identity w"
      and c': "coherent w'" and as': "attempts_ok w' (attempts_of wid db')"
      and oth: "\<And>u. u \<noteq> wid \<Longrightarrow> find_worker u db' = find_worker u d1 \<and> attempts_of u db' = attempts_of u d1"
      and evs: "\<And>u. events_of u db' = events_of u d1" "events db' = events d1"
      and ids: "map w_worker_id (workers db') = map w_worker_id (workers d1)"
    for w'
  proof -
    have rp: "replay_event (record_of row) (Some (w_attempt w, w_state w, w_health w))
        = Some (w_attempt w', w_state w', w_health w')"
      using ty tr a' s' h'
      by (auto simp: replay_event_def row(2) ev(2) event_state_def event_health_def
          split: option.splits worker_state.splits if_splits)
    have "view_ok env (Some w') (attempts_of wid db') (events_of wid db @ [row])"
      by (rule view_ok_extend [OF vw row(1) seq]) (use row a' c' as' rp l' in simp_all)
    then have "view_ok env (find_worker wid db') (attempts_of wid db') (events_of wid db')"
      using f evs v(3) by simp
    then have "store_ok env db'"
      by (intro store_ok_step [OF ok, of db' wid]) (use ids v evs oth dist in auto)
    moreover have "e_sequence ev = Suc (length (events_of wid db))"
      using seq row(2) by (auto simp: record_of_def)
    ultimately show ?thesis
      unfolding advanced_def using f a' s' tr res idn oth evs v ev(3) row(2) by (intro exI [of _ w']) auto
  qed
  have plain: "\<exists>w'. advanced env wid w ev db db' w'"
    if es: "event_state ev = None" and d: "db' = update_worker wid f d1"
      and f: "\<And>x. w_worker_id (f x) = w_worker_id x \<and> w_attempt (f x) = w_attempt x \<and> w_state (f x) = w_state x
        \<and> w_started_at (f x) = w_started_at x \<and> w_ended_at (f x) = w_ended_at x
        \<and> w_last_event_at (f x) = w_last_event_at x \<and> w_result_summary (f x) = w_result_summary x
        \<and> identity (f x) = identity x"
      and h: "\<And>x. w_health x = w_health w \<Longrightarrow>
        w_health (f x) = (case event_health ev of None \<Rightarrow> w_health w | Some h \<Rightarrow> h)"
    for f
    by (rule fin [of "f (w\<lparr>w_last_event_at := Some now\<rparr>)"])
      (use es f h w1 v att coh in \<open>auto simp: d views identity_def intro: attempts_ok_cong coherent_keep\<close>)
  show ?thesis
  proof (cases "ty = ''worker.state_changed''")
    case True
    then obtain t s where t: "jget (e_payload ev) ''state'' = Some (JStr t)" "state_of_name t = Some s"
      and tr: "transition (w_state w) s = Inr s"
      and d: "db' = project_state wid (w_attempt w) now s d1"
      using pr w1 ev
      by (auto simp: project_event_def Let_def res_simps split: option.splits json.splits)
    have ns: "s \<noteq> Starting"
      using st [OF True] t state_of_name_Some [OF t(2)] ev(6) by auto
    have es: "event_state ev = Some s" using True ev(2) t by (simp add: event_state_def)
    have eh: "event_health ev = None" using True ev(2) by (simp add: event_health_def)
    have trs: "s \<in> set (transitions (w_state w))" using tr by (simp add: res_simps)
    have ea: "attempts_of wid db' = map (\<lambda>a. if a_attempt a = w_attempt w
        then a\<lparr>a_state := s, a_started_at := coalesce (if s = Running then Some now else None) (a_started_at a),
          a_ended_at := coalesce (if terminal_state s then Some now else None) (a_ended_at a)\<rparr> else a)
        (attempts_of wid db)"
      unfolding d project_state_def Let_def by (subst attempts_of_update) (simp_all only: views v simp_thms if_True, simp)
    show ?thesis
    proof (rule fin)
      show "find_worker wid db' = Some (w\<lparr>w_last_event_at := Some now, w_state := s,
          w_started_at := coalesce (if s = Running then Some now else None) (w_started_at w),
          w_ended_at := coalesce (if terminal_state s then Some now else None) (w_ended_at w)\<rparr>)"
        using w1 by (simp add: d project_state_def Let_def views)
      show "coherent (w\<lparr>w_last_event_at := Some now, w_state := s,
          w_started_at := coalesce (if s = Running then Some now else None) (w_started_at w),
          w_ended_at := coalesce (if terminal_state s then Some now else None) (w_ended_at w)\<rparr>)"
        using coh trs ns by (rule coherent_project)
      show "attempts_ok (w\<lparr>w_last_event_at := Some now, w_state := s,
          w_started_at := coalesce (if s = Running then Some now else None) (w_started_at w),
          w_ended_at := coalesce (if terminal_state s then Some now else None) (w_ended_at w)\<rparr>)
        (attempts_of wid db')"
        unfolding ea by (rule attempts_ok_project [OF att]) simp_all
    qed (use es eh trs ns in \<open>simp_all add: d project_state_def Let_def views identity_def\<close>)
  next
    case ns: False
    then have es: "event_state ev = None" using ev(2) by (simp add: event_state_def)
    show ?thesis
    proof (cases "ty = ''worker.health_changed''")
      case True
      then obtain h where h: "event_health ev = Some h"
        and d: "db' = update_worker wid (\<lambda>w. w\<lparr>w_health := h\<rparr>) d1"
        using pr ev by (auto simp: project_event_def event_health_def Let_def split: option.splits)
      show ?thesis by (rule plain [OF es d]) (simp_all add: h identity_def)
    next
      case nh: False
      then have eh: "event_health ev = None" using ev(2) by (simp add: event_health_def)
      show ?thesis
      proof (cases "ty = ''worker.warning''")
        case True
        then obtain ws where d: "db' = update_worker wid (\<lambda>w. w\<lparr>w_warnings := ws\<rparr>) d1"
          using pr w1 ev
          by (auto simp: project_event_def Let_def split: option.splits json.splits)
        show ?thesis by (rule plain [OF es d]) (simp_all add: eh identity_def)
      next
        case False
        with ns nh pr ev have "db' = d1" by (simp add: project_event_def Let_def)
        then have d: "db' = update_worker wid (\<lambda>w. w) d1" by (simp add: update_worker_def)
        show ?thesis by (rule plain [OF es d]) (simp_all add: eh identity_def)
      qed
    qed
  qed
qed

section \<open>How the database evolves\<close>

text \<open>
  What every operation guarantees about what was there before: event logs only grow, a worker
  keeps its identity, its attempt number never decreases, its state moves along the transition
  table, and a completed worker stays where it is.
\<close>

definition evolves :: "db \<Rightarrow> db \<Rightarrow> bool" where
  "evolves db db' \<longleftrightarrow> (\<forall>u. prefix (events_of u db) (events_of u db')
     \<and> (\<forall>w. find_worker u db = Some w \<longrightarrow> (\<exists>w'. find_worker u db' = Some w'
          \<and> identity w' = identity w \<and> w_attempt w \<le> w_attempt w'
          \<and> lifecycle_step\<^sup>*\<^sup>* (w_state w) (w_state w')
          \<and> (w_state w = Completed \<longrightarrow> w_attempt w' = w_attempt w))))"

lemma evolves_refl [simp]: "evolves db db"
  by (auto simp: evolves_def)

lemma evolves_trans:
  assumes "evolves a b" and "evolves b c"
  shows "evolves a c"
  unfolding evolves_def
proof (intro allI conjI impI)
  fix u
  show "prefix (events_of u a) (events_of u c)"
    using assms unfolding evolves_def by (blast intro: prefix_order.trans)
  fix w assume "find_worker u a = Some w"
  with assms(1) obtain w1 where w1: "find_worker u b = Some w1" "identity w1 = identity w"
    "w_attempt w \<le> w_attempt w1" "lifecycle_step\<^sup>*\<^sup>* (w_state w) (w_state w1)"
    "w_state w = Completed \<longrightarrow> w_attempt w1 = w_attempt w" unfolding evolves_def by blast
  with assms(2) obtain w2 where w2: "find_worker u c = Some w2" "identity w2 = identity w1"
    "w_attempt w1 \<le> w_attempt w2" "lifecycle_step\<^sup>*\<^sup>* (w_state w1) (w_state w2)"
    "w_state w1 = Completed \<longrightarrow> w_attempt w2 = w_attempt w1" unfolding evolves_def by blast
  from w1 w2 show "\<exists>w'. find_worker u c = Some w' \<and> identity w' = identity w \<and> w_attempt w \<le> w_attempt w'
      \<and> lifecycle_step\<^sup>*\<^sup>* (w_state w) (w_state w') \<and> (w_state w = Completed \<longrightarrow> w_attempt w' = w_attempt w)"
    using completed_forever by (intro exI [of _ w2]) (auto intro: rtranclp_trans)
qed

text \<open>A new state of one worker, the others untouched.\<close>

lemma evolves_one:
  assumes "\<And>u. u \<noteq> wid \<Longrightarrow> find_worker u db' = find_worker u db \<and> events_of u db' = events_of u db"
    and "prefix (events_of wid db) (events_of wid db')"
    and "\<And>w. find_worker wid db = Some w \<Longrightarrow> \<exists>w'. find_worker wid db' = Some w'
      \<and> identity w' = identity w \<and> w_attempt w \<le> w_attempt w' \<and> lifecycle_step\<^sup>*\<^sup>* (w_state w) (w_state w')
      \<and> (w_state w = Completed \<longrightarrow> w_attempt w' = w_attempt w)"
  shows "evolves db db'"
  unfolding evolves_def
proof (intro allI)
  fix u
  show "prefix (events_of u db) (events_of u db')
      \<and> (\<forall>w. find_worker u db = Some w \<longrightarrow> (\<exists>w'. find_worker u db' = Some w' \<and> identity w' = identity w
          \<and> w_attempt w \<le> w_attempt w' \<and> lifecycle_step\<^sup>*\<^sup>* (w_state w) (w_state w')
          \<and> (w_state w = Completed \<longrightarrow> w_attempt w' = w_attempt w)))"
    using assms by (cases "u = wid") auto
qed

lemma advanced_evolves:
  assumes "advanced env wid w ev db db' w'" and "find_worker wid db = Some w"
  shows "evolves db db'"
proof (rule evolves_one [of wid])
  show "u \<noteq> wid \<Longrightarrow> find_worker u db' = find_worker u db \<and> events_of u db' = events_of u db" for u
    using assms(1) by (simp add: advanced_def)
  show "prefix (events_of wid db) (events_of wid db')"
    using assms(1) by (auto simp: advanced_def)
  have "lifecycle_step\<^sup>*\<^sup>* (w_state w) (w_state w')"
    using assms(1) by (auto simp: advanced_def lifecycle_step_eq split: option.splits)
  then show "\<exists>w'. find_worker wid db' = Some w' \<and> identity w' = identity x \<and> w_attempt x \<le> w_attempt w'
      \<and> lifecycle_step\<^sup>*\<^sup>* (w_state x) (w_state w') \<and> (w_state x = Completed \<longrightarrow> w_attempt w' = w_attempt x)"
    if "find_worker wid db = Some x" for x
    using assms that by (intro exI [of _ w']) (auto simp: advanced_def)
qed

definition projecting :: "string list" where
  "projecting = [''worker.created'', ''worker.state_changed'', ''worker.health_changed'', ''worker.warning'']"

lemma append_row_projected:
  assumes "ty \<notin> set projecting"
  shows "append_row env wid n ty payload now eid db = append_projected env wid n ty payload now eid db"
proof -
  have "project_event ev d = Inr d" if "e_type ev = ty" for ev d
    using that assms by (simp add: project_event_def projecting_def Let_def)
  then show ?thesis
    by (cases "append_row env wid n ty payload now eid db")
      (auto simp: append_projected_def, auto simp: append_row_def res_simps Let_def)
qed

lemma append_row_advanced:
  assumes "store_ok env db" and "find_worker wid db = Some w"
    and "append_row env wid (w_attempt w) ty payload now eid db = Inr (db', ev)"
    and "json_wf payload" and "ty \<notin> set projecting"
  shows "\<exists>w'. advanced env wid w ev db db' w' \<and> w_state w' = w_state w"
proof -
  have ty: "e_type ev = ty" using assms(3) by (auto simp: append_row_def res_simps Let_def)
  have "ty \<noteq> ''worker.created''" "ty \<noteq> ''worker.state_changed''"
    using assms(5) by (auto simp: projecting_def)
  with append_projected_advanced [OF assms(1,2) assms(3) [unfolded append_row_projected [OF assms(5)]] assms(4)]
  obtain w' where "advanced env wid w ev db db' w'" by blast
  moreover have "event_state ev = None"
    using ty assms(5) by (auto simp: event_state_def projecting_def)
  ultimately show ?thesis by (intro exI [of _ w']) (simp add: advanced_def)
qed

section \<open>Every operation\<close>

text \<open>An operation is safe when it keeps the invariant and the database evolves.\<close>

definition safe_op :: "environ \<Rightarrow> db \<Rightarrow> db \<Rightarrow> bool" where
  "safe_op env db db' \<longleftrightarrow> store_ok env db' \<and> evolves db db'"

lemma safe_op_refl: "store_ok env db \<Longrightarrow> safe_op env db db"
  by (simp add: safe_op_def)

lemma safe_op_trans: "safe_op env a b \<Longrightarrow> safe_op env b c \<Longrightarrow> safe_op env a c"
  by (auto simp: safe_op_def intro: evolves_trans)

lemma advanced_safe:
  "advanced env wid w ev db db' w' \<Longrightarrow> find_worker wid db = Some w \<Longrightarrow> safe_op env db db'"
  using advanced_evolves by (auto simp: safe_op_def advanced_def)

lemma transaction_cases:
  assumes "store_ok env db"
    and "\<And>db' x. body = Inr (db', x) \<Longrightarrow> safe_op env db db'"
  shows "safe_op env db (fst (transaction db body))"
  using assms by (auto simp: transaction_def safe_op_refl split: sum.splits)

lemma worker_or_Inr: "worker_or e wid db = Inr w \<longleftrightarrow> find_worker wid db = Some w"
  by (auto simp: worker_or_def split: option.splits)

lemma append_event_safe:
  assumes ok: "store_ok env db" and wf: "json_wf payload"
  shows "safe_op env db (fst (append_event env wid ty payload now eid db))"
proof (cases "validated_payload env ty payload")
  case (Inl e)
  with ok show ?thesis by (simp add: append_event_def safe_op_refl)
next
  case (Inr p)
  note p = validated_payload_wf [OF wf Inr]
  have sk: "sort_keys p = p" using p by simp
  show ?thesis
  proof (cases "ty = ''worker.created'' \<or> ty = ''worker.state_changed'' \<and> jget p ''state'' = Some (JStr ''starting'')")
    case True
    with Inr ok show ?thesis by (auto simp: append_event_def safe_op_refl)
  next
    case False
    have "safe_op env db db'" if r: "res_bind (worker_or (unknown_worker wid) wid db) (\<lambda>row.
        append_projected env wid (w_attempt row) ty p now eid db) = Inr (db', ev)" for db' ev
    proof -
      from r obtain w where w: "find_worker wid db = Some w"
        "append_projected env wid (w_attempt w) ty p now eid db = Inr (db', ev)"
        by (auto simp: res_simps worker_or_Inr)
      have "\<exists>w'. advanced env wid w ev db db' w'"
        by (rule append_projected_advanced [OF ok w]) (use p False sk in auto)
      with w show ?thesis by (blast intro: advanced_safe)
    qed
    then show ?thesis
      using Inr False by (auto simp: append_event_def intro!: transaction_cases [OF ok])
  qed
qed

text \<open>A state change of the store's own: the payload is one that the store writes.\<close>

lemma state_change_advanced:
  assumes "store_ok env db" and "find_worker wid db = Some w" and "s \<noteq> Starting"
    and "append_projected env wid (w_attempt w) ''worker.state_changed'' (state_payload s) now eid db = Inr (db', ev)"
  shows "\<exists>w'. advanced env wid w ev db db' w' \<and> w_state w' = s"
proof -
  have sk: "sort_keys (state_payload s) = state_payload s" by (simp add: state_payload_def)
  have j: "jget (state_payload s) ''state'' = Some (JStr (state_name s))" by (simp add: state_payload_def)
  have ns: "state_name s \<noteq> ''starting''" using assms(3) by (cases s) simp_all
  obtain w' where w': "advanced env wid w ev db db' w'"
    using append_projected_advanced [OF assms(1,2,4)] sk j ns by auto
  have "e_type ev = ''worker.state_changed''" "e_payload ev = state_payload s"
    using assms(4) by (auto simp: append_projected_def append_row_def res_simps Let_def)
  then have "event_state ev = Some s" by (simp add: event_state_def j)
  with w' show ?thesis by (intro exI [of _ w']) (simp add: advanced_def)
qed

lemma approval_types: "''approval.requested'' \<notin> set projecting" "''approval.resolved'' \<notin> set projecting"
    "''result.received'' \<notin> set projecting"
  by (simp_all add: projecting_def)

lemma advanced_find: "advanced env wid w ev db db' w' \<Longrightarrow> store_ok env db' \<and> find_worker wid db' = Some w'
    \<and> w_attempt w' = w_attempt w"
  by (simp add: advanced_def)

text \<open>
  The two approval operations have the same shape: an event that does not project, then possibly
  a state change.
\<close>

lemma append_then_change:
  assumes ok: "store_ok env db" and w: "find_worker wid db = Some w" and wf: "json_wf p"
    and ty: "ty \<notin> set projecting" and s: "s \<noteq> Starting"
    and a: "append_row env wid (w_attempt w) ty p now eid db = Inr (d1, e1)"
    and b: "append_projected env wid (w_attempt w) ''worker.state_changed'' (state_payload s) now eid' d1
      = Inr (db', e2)"
  shows "safe_op env db db' \<and> (\<exists>w'. find_worker wid db' = Some w' \<and> w_state w' = s
      \<and> w_attempt w' = w_attempt w) \<and> s \<in> set (transitions (w_state w))"
proof -
  obtain w1 where w1: "advanced env wid w e1 db d1 w1" "w_state w1 = w_state w"
    using append_row_advanced [OF ok w a wf ty] by blast
  note f1 = advanced_find [OF w1(1)]
  obtain w2 where w2: "advanced env wid w1 e2 d1 db' w2" "w_state w2 = s"
    using state_change_advanced [of env d1 wid w1 s now eid' db' e2] f1 s b by auto
  have "s \<in> set (transitions (w_state w1))"
  proof -
    have "event_state e2 = Some s"
    proof -
      have "e_type e2 = ''worker.state_changed''" "e_payload e2 = state_payload s"
        using b by (auto simp: append_projected_def append_row_def res_simps Let_def)
      then show ?thesis by (simp add: event_state_def state_payload_def)
    qed
    then show ?thesis using w2(1) by (simp add: advanced_def)
  qed
  with w1 w2 f1 advanced_find [OF w2(1)] show ?thesis
    using safe_op_trans [OF advanced_safe [OF w1(1) w] advanced_safe [OF w2(1)]] by auto
qed

lemma record_approval_request_safe:
  assumes ok: "store_ok env db" and wf: "json_wf payload"
  shows "safe_op env db (fst (record_approval_request env wid expected payload now eid eid' db))"
proof (cases "validated_payload env ''approval.requested'' payload")
  case (Inl e)
  with ok show ?thesis by (simp add: record_approval_request_def safe_op_refl)
next
  case (Inr p)
  note p = validated_payload_wf [OF wf Inr]
  show ?thesis
    unfolding record_approval_request_def Inr sum.case
  proof (rule transaction_cases [OF ok])
    fix db' x
    assume r: "res_bind (worker_or (unknown_worker wid) wid db) (\<lambda>row.
           res_bind (require (w_attempt row = expected \<and> w_state row \<in> {Running, RequiresAction})
             attempt_changed) (\<lambda>_.
           res_bind (append_row env wid expected ''approval.requested'' p now eid db)
             (\<lambda>(db, requested).
           if w_state row = Running then
             res_bind (append_projected env wid expected ''worker.state_changed''
                 (state_payload RequiresAction) now eid' db) (\<lambda>(db, changed).
             Inr (db, [requested, changed]))
           else Inr (db, [requested])))) = Inr (db', x)"
    then obtain w d1 e1 where w: "find_worker wid db = Some w" and n: "w_attempt w = expected"
      and a: "append_row env wid expected ''approval.requested'' p now eid db = Inr (d1, e1)"
      and rest: "(if w_state w = Running then
             res_bind (append_projected env wid expected ''worker.state_changed''
                 (state_payload RequiresAction) now eid' d1) (\<lambda>(db, changed). Inr (db, [e1, changed]))
           else Inr (d1, [e1])) = Inr (db', x)"
      by (auto simp: res_simps worker_or_Inr)
    note a' = a [folded n]
    show "safe_op env db db'"
    proof (cases "w_state w = Running")
      case True
      with rest obtain e2 where "append_projected env wid (w_attempt w) ''worker.state_changed''
          (state_payload RequiresAction) now eid' d1 = Inr (db', e2)" by (auto simp: res_simps n)
      from append_then_change [OF ok w _ approval_types(1) _ a' this] p show ?thesis by simp
    next
      case False
      with rest have "db' = d1" by simp
      with append_row_advanced [OF ok w a' _ approval_types(1)] p w show ?thesis
        by (auto intro: advanced_safe)
    qed
  qed
qed

lemma record_approval_resolution_safe:
  assumes ok: "store_ok env db" and wf: "json_wf payload"
  shows "safe_op env db (fst (record_approval_resolution env wid expected payload restore now eid eid' db))"
proof (cases "validated_payload env ''approval.resolved'' payload")
  case (Inl e)
  with ok show ?thesis by (simp add: record_approval_resolution_def safe_op_refl)
next
  case (Inr p)
  note p = validated_payload_wf [OF wf Inr]
  show ?thesis
    unfolding record_approval_resolution_def Inr sum.case
  proof (rule transaction_cases [OF ok])
    fix db' x
    assume r: "res_bind (worker_or (unknown_worker wid) wid db) (\<lambda>row.
           res_bind (require (w_attempt row = expected \<and> w_state row = RequiresAction)
             attempt_changed) (\<lambda>_.
           res_bind (append_row env wid expected ''approval.resolved'' p now eid db)
             (\<lambda>(db, resolved).
           if restore then
             res_bind (append_projected env wid expected ''worker.state_changed''
                 (state_payload Running) now eid' db) (\<lambda>(db, changed).
             Inr (db, [resolved, changed]))
           else Inr (db, [resolved])))) = Inr (db', x)"
    then obtain w d1 e1 where w: "find_worker wid db = Some w" and n: "w_attempt w = expected"
      and a: "append_row env wid expected ''approval.resolved'' p now eid db = Inr (d1, e1)"
      and rest: "(if restore then
             res_bind (append_projected env wid expected ''worker.state_changed''
                 (state_payload Running) now eid' d1) (\<lambda>(db, changed). Inr (db, [e1, changed]))
           else Inr (d1, [e1])) = Inr (db', x)"
      by (auto simp: res_simps worker_or_Inr)
    note a' = a [folded n]
    show "safe_op env db db'"
    proof (cases restore)
      case True
      with rest obtain e2 where "append_projected env wid (w_attempt w) ''worker.state_changed''
          (state_payload Running) now eid' d1 = Inr (db', e2)" by (auto simp: res_simps n)
      from append_then_change [OF ok w _ approval_types(2) _ a' this] p show ?thesis by simp
    next
      case False
      with rest have "db' = d1" by simp
      with append_row_advanced [OF ok w a' _ approval_types(2)] p w show ?thesis
        by (auto intro: advanced_safe)
    qed
  qed
qed

lemma append_all_safe:
  assumes "store_ok env db" and "find_worker wid db = Some w"
    and "append_all env wid (w_attempt w) ty ps now ids i db = Inr (db', evs)"
    and "\<forall>p \<in> set ps. json_wf p" and "ty \<notin> set projecting"
  shows "safe_op env db db' \<and> (\<exists>w'. find_worker wid db' = Some w' \<and> w_state w' = w_state w
      \<and> w_attempt w' = w_attempt w) \<and> length evs = length ps"
  using assms
proof (induction ps arbitrary: db w i evs)
  case Nil
  then show ?case by (auto simp: safe_op_refl)
next
  case (Cons p ps)
  then obtain d1 e1 evs' where a: "append_row env wid (w_attempt w) ty p now (ids i) db = Inr (d1, e1)"
    and rest: "append_all env wid (w_attempt w) ty ps now ids (Suc i) d1 = Inr (db', evs')" "evs = e1 # evs'"
    by (auto simp: res_simps)
  obtain w1 where w1: "advanced env wid w e1 db d1 w1" "w_state w1 = w_state w"
    using append_row_advanced [OF Cons.prems(1,2) a _ Cons.prems(5)] Cons.prems(4) by auto
  note f1 = advanced_find [OF w1(1)]
  from Cons.IH [of d1 w1 "Suc i" evs'] f1 rest Cons.prems(4,5)
  have "safe_op env d1 db'" "\<exists>w'. find_worker wid db' = Some w' \<and> w_state w' = w_state w1
      \<and> w_attempt w' = w_attempt w1" "length evs' = length ps" by auto
  with advanced_safe [OF w1(1) Cons.prems(2)] w1(2) f1 rest(2) show ?case
    by (auto intro: safe_op_trans)
qed

lemma validate_all_wf:
  "validate_all env ty ps = Inr qs \<Longrightarrow> \<forall>p \<in> set ps. json_wf p \<Longrightarrow> \<forall>q \<in> set qs. json_wf q"
  by (induction ps arbitrary: qs) (auto simp: res_simps dest: validated_payload_wf)

lemma expire_approval_requests_safe:
  assumes ok: "store_ok env db"
  shows "safe_op env db (fst (expire_approval_requests env wid expected rids now ids db))"
proof (cases "rids = [] \<or> (\<exists>e. validate_all env ''approval.resolved'' (map expired_payload rids) = Inl e)")
  case True
  with ok show ?thesis by (auto simp: expire_approval_requests_def safe_op_refl)
next
  case False
  then obtain ps where ps: "validate_all env ''approval.resolved'' (map expired_payload rids) = Inr ps"
    by (cases "validate_all env ''approval.resolved'' (map expired_payload rids)") auto
  then have wf: "\<forall>p \<in> set ps. json_wf p" by (rule validate_all_wf) simp
  have "safe_op env db db'" if r: "res_bind (worker_or (unknown_worker wid) wid db) (\<lambda>row.
           res_bind (require (w_attempt row = expected \<and> w_state row = RequiresAction)
             attempt_changed) (\<lambda>_.
           res_bind (append_all env wid expected ''approval.resolved'' ps now ids 0 db)
             (\<lambda>(db, resolved).
           res_bind (append_projected env wid expected ''worker.state_changed''
               (state_payload Running) now (ids (length ps)) db) (\<lambda>(db, changed).
           Inr (db, resolved @ [changed]))))) = Inr (db', x)" for db' x
  proof -
    from r obtain w d1 evs e2 where w: "find_worker wid db = Some w" and n: "w_attempt w = expected"
      and a: "append_all env wid (w_attempt w) ''approval.resolved'' ps now ids 0 db = Inr (d1, evs)"
      and b: "append_projected env wid (w_attempt w) ''worker.state_changed'' (state_payload Running)
        now (ids (length ps)) d1 = Inr (db', e2)"
      by (auto simp: res_simps worker_or_Inr)
    from append_all_safe [OF ok w a wf approval_types(2)]
    obtain w1 where s1: "safe_op env db d1" and w1: "find_worker wid d1 = Some w1" "w_attempt w1 = w_attempt w"
      by blast
    from state_change_advanced [OF _ w1(1) _ b [folded w1(2)]] s1
    obtain w2 where "advanced env wid w1 e2 d1 db' w2" by (auto simp: safe_op_def)
    with s1 w1 show ?thesis by (blast intro: safe_op_trans advanced_safe)
  qed
  with False ps show ?thesis
    by (auto simp: expire_approval_requests_def intro!: transaction_cases [OF ok])
qed

text \<open>Changing columns that the invariant does not speak of.\<close>

lemma update_other_columns:
  assumes ok: "store_ok env db" and w: "find_worker wid db = Some w"
    and f: "\<And>x. w_worker_id (f x) = w_worker_id x \<and> w_attempt (f x) = w_attempt x \<and> w_state (f x) = w_state x
        \<and> w_health (f x) = w_health x
        \<and> w_started_at (f x) = w_started_at x \<and> w_ended_at (f x) = w_ended_at x
        \<and> w_last_event_at (f x) = w_last_event_at x \<and> identity (f x) = identity x"
    and sm: "summary_ok (f w)"
  shows "safe_op env db (update_worker wid f db) \<and> find_worker wid (update_worker wid f db) = Some (f w)"
proof -
  let ?d = "update_worker wid f db"
  have fw: "find_worker wid ?d = Some (f w)" using w f by (simp add: views)
  have vw: "view_ok env (Some w) (attempts_of wid db) (events_of wid db)"
    using ok w by (rule store_okD)
  have "view_ok env (Some (f w)) (attempts_of wid db) (events_of wid db)"
    using vw f sm attempts_ok_cong [of w _ "f w"] coherent_cong [of w "f w"]
    by (simp add: view_ok_def events_ok_def)
  moreover have "distinct (map er_event_id (events ?d))"
    using ok by (simp add: store_ok_def views)
  moreover have "view_ok env (find_worker wid ?d) (attempts_of wid ?d) (events_of wid ?d)
      = view_ok env (Some (f w)) (attempts_of wid db) (events_of wid db)"
    by (simp only: fw) (simp add: views)
  ultimately have "store_ok env ?d"
    by (intro store_ok_step [OF ok, of ?d wid]) (use f in \<open>simp_all add: views\<close>)
  moreover have "evolves db ?d"
    by (rule evolves_one [of wid]) (use f fw w in \<open>auto simp: views\<close>)
  ultimately show ?thesis using fw by (simp add: safe_op_def)
qed

lemma store_result_columns:
  "w_worker_id (store_result j f x) = w_worker_id x \<and> w_attempt (store_result j f x) = w_attempt x
   \<and> w_state (store_result j f x) = w_state x \<and> w_health (store_result j f x) = w_health x
   \<and> w_started_at (store_result j f x) = w_started_at x \<and> w_ended_at (store_result j f x) = w_ended_at x
   \<and> w_last_event_at (store_result j f x) = w_last_event_at x
   \<and> identity (store_result j f x) = identity x"
  by (simp add: store_result_def identity_def)

lemma record_result_ok:
  assumes ok: "store_ok env db"
    and r: "record_result env wid oc summary f now eid db = (db', Inr ev)" and wf: "json_wf summary"
  shows "\<exists>w w1 d1 safe. find_worker wid db = Some w \<and> safe_result_summary env oc summary = Inr safe
     \<and> advanced env wid w ev db d1 w1 \<and> w_state w1 = w_state w
     \<and> db' = update_worker wid (store_result safe f) d1
     \<and> safe_op env db db' \<and> find_worker wid db' = Some (store_result safe f w1)"
proof -
  from r obtain safe where s: "safe_result_summary env oc summary = Inr safe"
    and tr: "transaction db
          (res_bind (worker_or (unknown_worker wid) wid db) (\<lambda>row.
           res_bind (append_row env wid (w_attempt row) ''result.received''
               (result_payload oc (f_resolved_model f)) now eid db) (\<lambda>(db, event).
           Inr (update_worker wid (store_result safe f) db, event)))) = (db', Inr ev)"
    by (auto simp: record_result_def res_simps split: sum.splits)
  from tr obtain w d1 where w: "find_worker wid db = Some w"
    and a: "append_row env wid (w_attempt w) ''result.received''
      (result_payload oc (f_resolved_model f)) now eid db = Inr (d1, ev)"
    and d: "db' = update_worker wid (store_result safe f) d1"
    by (auto simp: transaction_def res_simps worker_or_Inr split: sum.splits)
  obtain w1 where w1: "advanced env wid w ev db d1 w1" "w_state w1 = w_state w"
    using append_row_advanced [OF ok w a _ approval_types(3)] by auto
  have "safe_op env d1 db' \<and> find_worker wid db' = Some (store_result safe f w1)"
    unfolding d
  proof (rule update_other_columns)
    show "summary_ok (store_result safe f w1)"
      using summary_wf [OF s wf] by (auto simp: summary_ok_def store_result_def)
  qed (use advanced_find [OF w1(1)] store_result_columns in auto)
  with w s w1 d show ?thesis using safe_op_trans [OF advanced_safe [OF w1(1) w]] by blast
qed

lemma record_result_safe:
  assumes ok: "store_ok env db" and wf: "json_wf summary"
  shows "safe_op env db (fst (record_result env wid oc summary f now eid db))"
proof (cases "snd (record_result env wid oc summary f now eid db)")
  case (Inl e)
  then have "fst (record_result env wid oc summary f now eid db) = db"
    by (auto simp: record_result_def transaction_def split: sum.splits)
  with ok show ?thesis by (simp add: safe_op_refl)
next
  case (Inr ev)
  then have "record_result env wid oc summary f now eid db
      = (fst (record_result env wid oc summary f now eid db), Inr ev)"
    by (metis prod.collapse)
  from record_result_ok [OF ok this wf] show ?thesis by blast
qed

section \<open>New attempts and new workers\<close>

lemma start_attempt_ok:
  assumes ok: "store_ok env db"
    and r: "start_attempt env wid now eid db = (db', Inr a)"
  shows "safe_op env db db' \<and> a = new_attempt wid (a_attempt a) now
     \<and> (\<exists>w w'. find_worker wid db = Some w \<and> w_state w \<in> {Failed, Cancelled, Lost}
          \<and> find_worker wid db' = Some w' \<and> w_state w' = Starting \<and> w_health w' = HealthUnknown
          \<and> w_attempt w' = w_attempt w + 1 \<and> a_attempt a = w_attempt w + 1 \<and> w_session_id w' = None
          \<and> w_result_summary w' = None)"
proof -
  from r obtain w d1 ev where w: "find_worker wid db = Some w"
    and t: "transition (w_state w) Starting = Inr Starting"
    and i: "insert_attempt (new_attempt wid (w_attempt w + 1) now) db = Inr d1"
    and ap: "append_row env wid (w_attempt w + 1) ''worker.state_changed'' (attempt_payload (w_attempt w + 1))
        now eid (update_worker wid (restart_row (w_attempt w + 1)) d1) = Inr (db', ev)"
    and a: "a = new_attempt wid (w_attempt w + 1) now"
    by (auto simp: start_attempt_def transaction_def res_simps worker_or_Inr Let_def split: sum.splits)
  let ?n = "w_attempt w + 1"
  let ?d2 = "update_worker wid (restart_row ?n) d1"
  note iv = insert_attempt_view [OF i]
  obtain row where app: "appended env wid ?n ''worker.state_changed'' (attempt_payload ?n) now ?d2 db' ev row"
    using append_row_appended [OF ap] by auto
  have fid: "w_worker_id (restart_row ?n x) = w_worker_id x" for x by (simp add: restart_row_def)
  let ?w' = "(restart_row ?n w)\<lparr>w_last_event_at := Some now\<rparr>"
  have fw: "find_worker wid db' = Some ?w'"
    using app iv w fid by (simp add: appended_def views)
  have at: "attempts_of wid db' = attempts_of wid db @ [new_attempt wid ?n now]"
    using app iv by (simp add: appended_def views new_attempt_def)
  have es: "events_of wid db' = events_of wid db @ [row]"
    using app iv by (simp add: appended_def views)
  have vw: "view_ok env (Some w) (attempts_of wid db) (events_of wid db)"
    using ok w by (rule store_okD)
  have st: "w_state w \<in> {Failed, Cancelled, Lost}"
    using t by (cases "w_state w") (simp_all add: transition_def)
  have "attempts_ok w (attempts_of wid db)"
    using vw by (simp add: view_ok_def)
  then obtain olds cur where oc: "attempts_of wid db = olds @ [cur]" "a_attempt cur = w_attempt w"
    "\<forall>a \<in> set olds. a_attempt a \<noteq> w_attempt w \<and> a_state a \<in> {Failed, Cancelled, Lost}"
    "a_state cur = w_state w" by (rule attempts_ok_snoc)
  have as': "attempts_ok ?w' (attempts_of wid db')"
    unfolding attempts_ok_def at
    using vw oc st
    by (intro exI [of _ "attempts_of wid db"] exI [of _ "new_attempt wid ?n now"])
      (auto simp: view_ok_def attempts_ok_def new_attempt_def restart_row_def)
  have ls: "last_sequence wid ?d2 = length (events_of wid db)"
    using last_sequence_length [of wid ?d2] vw iv
    by (simp add: views view_ok_def events_ok_def)
  have "event_state ev = Some Starting"
    using app state_of_name_name [of Starting]
    by (simp add: appended_def event_state_def attempt_payload_def)
  then have rp: "replay_event (record_of row) (Some (w_attempt w, w_state w, w_health w))
      = Some (w_attempt ?w', w_state ?w', w_health ?w')"
    using app by (simp add: appended_def replay_event_def restart_row_def)
  have "view_ok env (Some ?w') (attempts_of wid db') (events_of wid db @ [row])"
    by (rule view_ok_extend [OF vw])
      (use app ls as' rp in \<open>simp_all add: appended_def restart_row_def coherent_def summary_ok_def\<close>)
  then have "view_ok env (find_worker wid db') (attempts_of wid db') (events_of wid db')"
    by (simp only: fw es)
  moreover have "distinct (map er_event_id (events db'))"
    using app ok iv by (simp add: appended_def views store_ok_def)
  ultimately have "store_ok env db'"
    using app iv fid by (intro store_ok_step [OF ok, of db' wid]) (simp_all add: appended_def views new_attempt_def)
  moreover have "evolves db db'"
  proof (rule evolves_one [of wid])
    show "u \<noteq> wid \<Longrightarrow> find_worker u db' = find_worker u db \<and> events_of u db' = events_of u db" for u
      using app iv fid by (simp add: appended_def views)
    show "prefix (events_of wid db) (events_of wid db')" by (simp add: es)
    have "lifecycle_step (w_state w) Starting" using t by (auto intro: edge)
    then show "\<exists>w'. find_worker wid db' = Some w' \<and> identity w' = identity x \<and> w_attempt x \<le> w_attempt w'
        \<and> lifecycle_step\<^sup>*\<^sup>* (w_state x) (w_state w') \<and> (w_state x = Completed \<longrightarrow> w_attempt w' = w_attempt x)"
      if "find_worker wid db = Some x" for x
      using that w fw st by (auto simp: identity_def restart_row_def)
  qed
  ultimately show ?thesis
    using w fw st a by (auto simp: safe_op_def restart_row_def new_attempt_def)
qed

lemma start_attempt_safe:
  assumes ok: "store_ok env db"
  shows "safe_op env db (fst (start_attempt env wid now eid db))"
proof (cases "start_attempt env wid now eid db")
  case (Pair db' r)
  show ?thesis
  proof (cases r)
    case (Inl e)
    with Pair have "db' = db" by (auto simp: start_attempt_def transaction_def split: sum.splits)
    with Pair ok show ?thesis by (simp add: safe_op_refl)
  next
    case (Inr a)
    with Pair start_attempt_ok [OF ok] show ?thesis by simp
  qed
qed

lemma create_worker_ok:
  assumes ok: "store_ok env db"
    and i: "insert_worker (new_row wid cwd n now) db = Inr d1"
    and j: "insert_attempt (new_attempt wid 1 now) d1 = Inr d2"
    and a: "append_row env wid 1 ''worker.created'' (created_payload cwd role) now eid d2 = Inr (db', ev)"
  shows "safe_op env db db' \<and> find_worker wid db = None
    \<and> find_worker wid db' = Some ((new_row wid cwd n now)\<lparr>w_last_event_at := Some now\<rparr>)"
proof -
  let ?w = "(new_row wid cwd n now)\<lparr>w_last_event_at := Some now\<rparr>"
  have idn: "w_worker_id (new_row wid cwd n now) = wid" by (simp add: new_row_def)
  note iv = find_worker_insert [OF i, unfolded idn] and jv = insert_attempt_view [OF j]
  obtain row where app: "appended env wid 1 ''worker.created'' (created_payload cwd role) now d2 db' ev row"
    using append_row_appended [OF a] by auto
  have none: "attempts_of wid db = []" "events_of wid db = []" "wid \<notin> set (map w_worker_id (workers db))"
  proof -
    have "view_ok env (find_worker wid db) (attempts_of wid db) (events_of wid db)"
      using ok by (simp add: store_ok_def)
    then show "attempts_of wid db = []" "events_of wid db = []"
      using iv by (simp_all add: view_ok_def)
    show "wid \<notin> set (map w_worker_id (workers db))"
      using iv by (auto simp: find_worker_def find_None_iff)
  qed
  have fw: "find_worker wid db' = Some ?w" using app iv jv by (simp add: appended_def)
  have at: "attempts_of wid db' = [new_attempt wid 1 now]"
    using app iv jv none by (simp add: appended_def new_attempt_def)
  have es: "events_of wid db' = [row]" using app iv jv none by (simp add: appended_def)
  have "last_sequence wid d2 = 0" using iv jv none by (simp add: last_sequence_def)
  then have "view_ok env (Some ?w) [new_attempt wid 1 now] [row]"
    using app
    by (auto simp: view_ok_def appended_def coherent_def summary_ok_def attempts_ok_def events_ok_def new_row_def
        new_attempt_def replay_def replay_event_def)
  then have v: "view_ok env (find_worker wid db') (attempts_of wid db') (events_of wid db')"
    by (simp only: fw at es)
  have oth: "find_worker u db' = find_worker u db \<and> attempts_of u db' = attempts_of u db
      \<and> events_of u db' = events_of u db" if "u \<noteq> wid" for u
    using that app iv jv by (simp add: appended_def new_attempt_def)
  have "distinct (map w_worker_id (workers db'))"
    using app iv jv none(3) ok idn by (simp add: appended_def store_ok_def)
  moreover have "distinct (map er_event_id (events db'))"
    using app iv jv ok by (simp add: appended_def store_ok_def)
  moreover have "view_ok env (find_worker u db') (attempts_of u db') (events_of u db')" for u
    using v oth ok by (cases "u = wid") (simp_all add: store_ok_def)
  ultimately have "store_ok env db'" by (simp add: store_ok_def)
  moreover have "evolves db db'"
    by (rule evolves_one [of wid]) (use oth es none iv in auto)
  ultimately show ?thesis using fw iv by (simp add: safe_op_def)
qed

lemma create_worker_safe:
  assumes ok: "store_ok env db"
  shows "safe_op env db (fst (create_worker env resolve n given fresh now eid db))"
proof (cases "resolve (n_cwd n)")
  case None
  with ok show ?thesis by (simp add: create_worker_def Let_def safe_op_refl)
next
  case (Some cwd)
  let ?wid = "chosen_id given fresh"
  have "safe_op env db (fst (transaction db
      (res_bind (insert_worker (new_row ?wid cwd n now) db) (\<lambda>db.
       res_bind (insert_attempt (new_attempt ?wid 1 now) db) (\<lambda>db.
       append_row env ?wid 1 ''worker.created'' (created_payload cwd (n_role n)) now eid db)))))"
    by (rule transaction_cases [OF ok]) (auto simp: res_simps dest: create_worker_ok [OF ok])
  with Some ok show ?thesis
    by (auto simp: create_worker_def Let_def safe_op_refl split: sum.splits prod.splits)
qed

section \<open>Reachable databases\<close>

inductive store_step :: "environ \<Rightarrow> db \<Rightarrow> db \<Rightarrow> bool" for env where
  create: "create_worker env resolve n given fresh now eid db = (db', r) \<Longrightarrow> store_step env db db'"
| start: "start_attempt env wid now eid db = (db', r) \<Longrightarrow> store_step env db db'"
| append: "append_event env wid ty payload now eid db = (db', r) \<Longrightarrow> json_wf payload \<Longrightarrow>
    store_step env db db'"
| request: "record_approval_request env wid expected payload now eid eid' db = (db', r) \<Longrightarrow>
    json_wf payload \<Longrightarrow> store_step env db db'"
| resolution: "record_approval_resolution env wid expected payload restore now eid eid' db = (db', r) \<Longrightarrow>
    json_wf payload \<Longrightarrow> store_step env db db'"
| expire: "expire_approval_requests env wid expected rids now ids db = (db', r) \<Longrightarrow>
    store_step env db db'"
| result: "record_result env wid oc summary f now eid db = (db', r) \<Longrightarrow>
    json_wf summary \<Longrightarrow> store_step env db db'"

inductive_cases store_stepE: "store_step env db db'"

lemma store_step_safe: "store_step env db db' \<Longrightarrow> store_ok env db \<Longrightarrow> safe_op env db db'"
proof (induction rule: store_step.induct)
  case (create resolve n given fresh now eid db db' r)
  then show ?case using create_worker_safe [of env db resolve n given fresh now eid] by simp
next
  case (start wid now eid db db' r)
  then show ?case using start_attempt_safe [of env db wid now eid] by simp
next
  case (append wid ty payload now eid db db' r)
  then show ?case using append_event_safe [of env db payload wid ty now eid] by simp
next
  case (request wid expected payload now eid eid' db db' r)
  then show ?case using record_approval_request_safe [of env db payload wid expected now eid eid'] by simp
next
  case (resolution wid expected payload restore now eid eid' db db' r)
  then show ?case
    using record_approval_resolution_safe [of env db payload wid expected restore now eid eid'] by simp
next
  case (expire wid expected rids now ids db db' r)
  then show ?case using expire_approval_requests_safe [of env db wid expected rids now ids] by simp
next
  case (result wid oc summary f now eid db db' r)
  then show ?case using record_result_safe [of env db summary wid oc f now eid] by simp
qed

definition reachable :: "environ \<Rightarrow> db \<Rightarrow> bool" where
  "reachable env db \<longleftrightarrow> (store_step env)\<^sup>*\<^sup>* empty_db db"

lemma steps_safe: "(store_step env)\<^sup>*\<^sup>* db db' \<Longrightarrow> store_ok env db \<Longrightarrow> safe_op env db db'"
proof (induction rule: rtranclp_induct)
  case (step y z)
  then have "safe_op env db y" by simp
  with store_step_safe [OF step(2)] show ?case by (auto simp: safe_op_def intro: evolves_trans)
qed (rule safe_op_refl)

lemma reachable_ok: "reachable env db \<Longrightarrow> store_ok env db"
  using steps_safe empty_ok by (auto simp: reachable_def safe_op_def)

lemma reachable_steps: "reachable env db \<Longrightarrow> (store_step env)\<^sup>*\<^sup>* db db' \<Longrightarrow> reachable env db'"
  by (auto simp: reachable_def intro: rtranclp_trans)

end
