(* ===== verification/Store_Properties.thy ===== *)
theory Store_Properties
  imports Store_Invariants
begin

text \<open>
  What the worker database promises to its callers: the log of a worker as an interface (a durable
  log read by cursor), the row as a projection of the log, attempts, frozen results, and the
  transactions of approvals and results.
\<close>

section \<open>The interface of a durable log\<close>

text \<open>
  A client of the log knows its length at some earlier moment (its cursor) and asks for what is
  numbered above it.
\<close>

definition numbered_after :: "('e \<Rightarrow> nat) \<Rightarrow> nat \<Rightarrow> 'e list \<Rightarrow> 'e list" where
  "numbered_after num n es = filter (\<lambda>e. n < num e) es"

lemma numbered_after_drop:
  "map num es = [1..<Suc (length es)] \<Longrightarrow> numbered_after num n es = drop n es"
proof (induction es rule: rev_induct)
  case (snoc e es)
  then have "map num es = [1..<Suc (length es)]" "num e = Suc (length es)" by simp_all
  then show ?case using snoc.IH by (simp add: numbered_after_def)
qed (simp add: numbered_after_def)

locale durable_log =
  fixes ok :: "'s \<Rightarrow> bool" and step :: "'s \<Rightarrow> 's \<Rightarrow> bool"
    and log :: "'k \<Rightarrow> 's \<Rightarrow> 'e list" and num :: "'e \<Rightarrow> nat"
  assumes kept: "ok s \<Longrightarrow> step s t \<Longrightarrow> ok t"
    and grows: "ok s \<Longrightarrow> step s t \<Longrightarrow> prefix (log k s) (log k t)"
    and numbered: "ok s \<Longrightarrow> map num (log k s) = [1..<Suc (length (log k s))]"
begin

lemma steps_grow: "step\<^sup>*\<^sup>* s t \<Longrightarrow> ok s \<Longrightarrow> ok t \<and> prefix (log k s) (log k t)"
proof (induction rule: rtranclp_induct)
  case (step y z)
  then show ?case using kept [of y z] grows [of y z k] by (meson prefix_order.trans)
qed simp

lemma read_from: "ok s \<Longrightarrow> numbered_after num n (log k s) = drop n (log k s)"
  using numbered by (rule numbered_after_drop)

lemma nothing_missed:
  assumes "step\<^sup>*\<^sup>* s t" and "ok s"
  shows "log k t = log k s @ numbered_after num (length (log k s)) (log k t)"
  using steps_grow [OF assms, of k] read_from [of t] by (auto simp: prefix_def)

end

interpretation event_log: durable_log "store_ok env" "store_step env" events_of er_sequence for env
proof unfold_locales
  fix s t and k :: worker_id
  assume ok: "store_ok env s"
  show "map er_sequence (events_of k s) = [1..<Suc (length (events_of k s))]"
    using ok by (cases "find_worker k s") (auto simp: store_ok_def view_ok_def events_ok_def dest: spec [of _ k])
  assume "store_step env s t"
  from store_step_safe [OF this ok] show "store_ok env t" "prefix (events_of k s) (events_of k t)"
    by (simp_all add: safe_op_def evolves_def)
qed

section \<open>Reading events\<close>

lemma events_row_ok: "store_ok env db \<Longrightarrow> e \<in> set (events_of wid db) \<Longrightarrow> row_ok env e"
  by (cases "find_worker wid db") (auto simp: store_ok_def view_ok_def events_ok_def dest: spec [of _ wid])

lemma map_res_Inr: "(\<And>x. x \<in> set xs \<Longrightarrow> f x = Inr (g x)) \<Longrightarrow> map_res f xs = Inr (map g xs)"
  by (induction xs) simp_all

lemma events_since_eq:
  assumes ok: "store_ok env db" and s: "0 \<le> since"
  shows "events_since wid since db = Inr (map record_of (drop (nat since) (events_of wid db)))"
proof -
  let ?es = "events_of wid db"
  have "filter (\<lambda>e. int (er_sequence e) > since) ?es = numbered_after er_sequence (nat since) ?es"
    using s by (simp add: numbered_after_def zless_nat_eq_int_zless nat_less_iff)
  also have "\<dots> = drop (nat since) ?es" using ok by (rule event_log.read_from)
  finally have f: "filter (\<lambda>e. int (er_sequence e) > since) ?es = drop (nat since) ?es" .
  have "sorted (map er_sequence ?es)"
    using event_log.numbered [OF ok, of wid] by (simp only: sorted_upt)
  then have "sorted (map er_sequence (drop (nat since) ?es))"
    by (metis drop_map sorted_wrt_drop)
  then have "sort_key er_sequence (drop (nat since) ?es) = drop (nat since) ?es"
    by (rule sort_key_id_if_sorted)
  moreover have "map_res event_from_row (drop (nat since) ?es) = Inr (map record_of (drop (nat since) ?es))"
    using events_row_ok [OF ok, of _ wid] by (intro map_res_Inr row_ok_record [of env]) (meson in_set_dropD)
  ultimately show ?thesis using s f by (simp add: events_since_def)
qed

lemma latest_cursor_eq: "store_ok env db \<Longrightarrow> latest_event_cursor wid db = length (events_of wid db)"
  using event_log.numbered by (simp add: latest_event_cursor_def last_sequence_length)

lemma number_records: "map e_sequence (map record_of es) = map er_sequence es"
  by (simp add: record_of_def)

section \<open>When the operations succeed\<close>

definition fresh_event :: "string \<Rightarrow> db \<Rightarrow> bool" where
  "fresh_event eid db \<longleftrightarrow> eid \<notin> set (map er_event_id (events db))"

lemma fresh_event_update [simp]:
  "fresh_event eid (update_worker wid f db) = fresh_event eid db"
  "fresh_event eid (update_attempt wid n g db) = fresh_event eid db"
  by (simp_all add: fresh_event_def views)

lemma append_row_total:
  assumes "validated_payload env ty payload = Inr p" and "find_worker wid db \<noteq> None" and "0 < n"
    and "fresh_event eid db"
    and "map er_sequence (events_of wid db) = [1..<Suc (length (events_of wid db))]"
  shows "\<exists>db' ev. append_row env wid n ty payload now eid db = Inr (db', ev)"
proof -
  let ?k = "length (events_of wid db)"
  have ls: "last_sequence wid db = ?k" using assms(5) by (rule last_sequence_length)
  have "Suc ?k \<notin> set (map er_sequence (events_of wid db))" unfolding assms(5) by simp
  then have "\<not> (er_worker_id e = wid \<and> er_sequence e = Suc ?k)" if "e \<in> set (events db)" for e
    using that by (auto simp: events_of_def image_iff)
  moreover have "er_event_id e \<noteq> eid" if "e \<in> set (events db)" for e
    using that assms(4) by (auto simp: fresh_event_def)
  ultimately show ?thesis
    using assms(1-3) by (auto simp: append_row_def insert_event_def ls list_ex_iff)
qed

lemma append_row_shape:
  "append_row env wid n ty payload now eid db = Inr (db', ev) \<Longrightarrow>
   validated_payload env ty payload = Inr (e_payload ev) \<and> e_type ev = ty \<and> e_timestamp ev = now
   \<and> e_event_id ev = eid \<and> e_worker_id ev = wid \<and> e_attempt ev = n
   \<and> map er_event_id (events db') = map er_event_id (events db) @ [eid]"
  by (auto simp: append_row_def res_simps Let_def insert_event_def views split: if_splits)

lemma create_worker_total:
  assumes ok: "store_ok env db" and cwd: "resolve (n_cwd n) = Some cwd"
    and v: "validate_worker_creation (chosen_id given fresh) cwd n = Inr ()"
    and none: "find_worker (chosen_id given fresh) db = None" and eid: "fresh_event eid db"
  shows "\<exists>db' row. create_worker env resolve n given fresh now eid db
      = (db', Inr \<lparr>wr_row = row, wr_result_summary = None\<rparr>)
     \<and> find_worker (chosen_id given fresh) db' = Some row
     \<and> row = (new_row (chosen_id given fresh) cwd n now)\<lparr>w_last_event_at := Some now\<rparr>
     \<and> (\<forall>e. fresh_event e db' \<longleftrightarrow> fresh_event e db \<and> e \<noteq> eid)"
proof -
  let ?wid = "chosen_id given fresh"
  let ?row = "(new_row ?wid cwd n now)\<lparr>w_last_event_at := Some now\<rparr>"
  let ?d1 = "db\<lparr>workers := workers db @ [new_row ?wid cwd n now]\<rparr>"
  let ?d2 = "?d1\<lparr>attempts := attempts ?d1 @ [new_attempt ?wid 1 now]\<rparr>"
  have idn: "w_worker_id (new_row ?wid cwd n now) = ?wid" by (simp add: new_row_def)
  have i: "insert_worker (new_row ?wid cwd n now) db = Inr ?d1"
    using none by (simp add: insert_worker_def new_row_def)
  note iv = find_worker_insert [OF i, unfolded idn]
  have empty: "attempts_of ?wid db = []" "events_of ?wid db = []"
    using ok none by (auto simp: store_ok_def view_ok_def dest: spec [of _ ?wid])
  have j: "insert_attempt (new_attempt ?wid 1 now) ?d1 = Inr ?d2"
    using empty iv by (simp add: insert_attempt_def new_attempt_def list_ex_iff attempts_of_def filter_empty_conv)
  note jv = insert_attempt_view [OF j]
  have "absolute_path (JStr cwd)"
    using v by (auto simp: validate_worker_creation_def creation_checks_def split: if_splits)
  then obtain p where "validated_payload env ''worker.created'' (created_payload cwd (n_role n)) = Inr p"
    using created_payload_valid [of env cwd "n_role n"] by blast
  moreover have "find_worker ?wid ?d2 \<noteq> None" "events_of ?wid ?d2 = []" "fresh_event eid ?d2"
    using iv jv empty eid by (simp_all add: fresh_event_def)
  ultimately obtain db' ev where a: "append_row env ?wid 1 ''worker.created''
      (created_payload cwd (n_role n)) now eid ?d2 = Inr (db', ev)"
    using append_row_total [of env "''worker.created''" "created_payload cwd (n_role n)" p ?wid ?d2 1 eid now]
    by force
  have f: "find_worker ?wid db' = Some ?row" using create_worker_ok [OF ok i j a] by blast
  moreover have "\<forall>e. fresh_event e db' \<longleftrightarrow> fresh_event e db \<and> e \<noteq> eid"
    using append_row_shape [OF a] by (auto simp: fresh_event_def)
  moreover have "worker_from_row ?row = Inr \<lparr>wr_row = ?row, wr_result_summary = None\<rparr>"
    by (simp add: worker_from_row_def load_json_object_def new_row_def)
  ultimately show ?thesis
    using cwd v i j a by (simp add: create_worker_def transaction_def worker_or_def Let_def)
qed

text \<open>The outcome of one event on a live worker: what is returned, and what is stored.\<close>

definition logged ::
    "environ \<Rightarrow> worker_id \<Rightarrow> worker_row \<Rightarrow> string \<Rightarrow> json \<Rightarrow> instant \<Rightarrow> string \<Rightarrow> db \<Rightarrow> db \<Rightarrow> event_record \<Rightarrow> worker_row \<Rightarrow> bool"
where
  "logged env wid w ty p now eid db db' ev w' \<longleftrightarrow> advanced env wid w ev db db' w'
     \<and> e_type ev = ty \<and> e_payload ev = p \<and> e_timestamp ev = now \<and> e_event_id ev = eid \<and> e_worker_id ev = wid
     \<and> (\<forall>e. fresh_event e db' \<longleftrightarrow> fresh_event e db \<and> e \<noteq> eid)"

lemma project_event_ids: "project_event ev db = Inr db' \<Longrightarrow> events db' = events db"
  by (auto simp: project_event_def Let_def project_state_def res_simps views
      split: if_splits option.splits json.splits)

lemma append_row_logged:
  assumes ok: "store_ok env db" and w: "find_worker wid db = Some w" and eid: "fresh_event eid db"
    and p: "validated_payload env ty payload = Inr p" "json_wf payload" and ty: "ty \<notin> set projecting"
  shows "\<exists>db' ev w'. append_row env wid (w_attempt w) ty payload now eid db = Inr (db', ev)
     \<and> logged env wid w ty p now eid db db' ev w' \<and> w_state w' = w_state w"
proof -
  have "0 < w_attempt w" using store_okD [OF ok w] by (simp add: view_ok_def)
  then obtain db' ev where a: "append_row env wid (w_attempt w) ty payload now eid db = Inr (db', ev)"
    using append_row_total [of env ty payload p wid db "w_attempt w" eid now] p w eid event_log.numbered [OF ok]
    by blast
  with append_row_advanced [OF ok w a p(2) ty] append_row_shape [OF a] p show ?thesis
    by (fastforce simp: logged_def fresh_event_def)
qed

lemma state_change_logged:
  assumes ok: "store_ok env db" and w: "find_worker wid db = Some w" and eid: "fresh_event eid db"
    and s: "s \<in> set (transitions (w_state w))" "s \<noteq> Starting"
  shows "\<exists>db' ev w'. append_projected env wid (w_attempt w) ''worker.state_changed'' (state_payload s) now eid db
       = Inr (db', ev)
     \<and> logged env wid w ''worker.state_changed'' (state_payload s) now eid db db' ev w' \<and> w_state w' = s"
proof -
  let ?ty = "''worker.state_changed''"
  have "0 < w_attempt w" using store_okD [OF ok w] by (simp add: view_ok_def)
  then obtain d1 ev where a: "append_row env wid (w_attempt w) ?ty (state_payload s) now eid db = Inr (d1, ev)"
    using append_row_total [of env ?ty "state_payload s" _ wid db "w_attempt w" eid now] w eid
      event_log.numbered [OF ok] by fastforce
  note sh = append_row_shape [OF a]
  obtain row where "appended env wid (w_attempt w) ?ty (state_payload s) now db d1 ev row"
    using append_row_appended [OF a] by auto
  then have "\<exists>w1. find_worker wid d1 = Some w1 \<and> w_state w1 = w_state w" using w by (auto simp: appended_def)
  moreover have "e_payload ev = state_payload s" using sh by simp
  then have "jget (e_payload ev) ''state'' = Some (JStr (state_name s))"
    by (simp add: state_payload_def)
  ultimately obtain db' where pr: "project_event ev d1 = Inr db'"
    using sh s(1) by (auto simp: project_event_def Let_def transition_def)
  with a have b: "append_projected env wid (w_attempt w) ?ty (state_payload s) now eid db = Inr (db', ev)"
    by (simp add: append_projected_def)
  with state_change_advanced [OF ok w s(2) b] sh project_event_ids [OF pr] show ?thesis
    by (fastforce simp: logged_def fresh_event_def)
qed

lemma append_event_logged:
  assumes ok: "store_ok env db" and w: "find_worker wid db = Some w" and eid: "fresh_event eid db"
    and p: "validated_payload env ty payload = Inr p" "json_wf payload" and ty: "ty \<notin> set projecting"
  shows "\<exists>db' ev w'. append_event env wid ty payload now eid db = (db', Inr ev)
     \<and> logged env wid w ty p now eid db db' ev w' \<and> w_state w' = w_state w"
proof -
  have "validated_payload env ty p = Inr p" using validated_payload_again [OF p(2,1)] .
  moreover have "json_wf p" using validated_payload_wf [OF p(2,1)] by simp
  ultimately obtain db' ev w' where
    "append_row env wid (w_attempt w) ty p now eid db = Inr (db', ev)"
    "logged env wid w ty p now eid db db' ev w' \<and> w_state w' = w_state w"
    using append_row_logged [OF ok w eid _ _ ty] by blast
  then show ?thesis
    using p ty w unfolding append_row_projected [OF ty]
    by (auto simp: append_event_def transaction_def worker_or_def projecting_def)
qed

lemma append_state_logged:
  assumes ok: "store_ok env db" and w: "find_worker wid db = Some w" and eid: "fresh_event eid db"
    and s: "s \<in> set (transitions (w_state w))" "s \<noteq> Starting"
  shows "\<exists>db' ev w'. append_event env wid ''worker.state_changed'' (state_payload s) now eid db = (db', Inr ev)
     \<and> logged env wid w ''worker.state_changed'' (state_payload s) now eid db db' ev w' \<and> w_state w' = s"
proof -
  have "jget (state_payload s) ''state'' \<noteq> Some (JStr ''starting'')"
    using s(2) by (cases s) (simp_all add: state_payload_def)
  then show ?thesis
    using state_change_logged [OF ok w eid s, of now] w
    by (auto simp: append_event_def transaction_def worker_or_def)
qed

text \<open>What a caller that knew the cursor reads next.\<close>

lemma logged_find:
  "logged env wid w ty p now eid db db' ev w' \<Longrightarrow> store_ok env db' \<and> find_worker wid db' = Some w'
     \<and> w_attempt w' = w_attempt w \<and> events_since wid (int (latest_event_cursor wid db)) db' = Inr [ev]
     \<and> (\<forall>e. fresh_event e db' \<longleftrightarrow> fresh_event e db \<and> e \<noteq> eid) \<and> e_type ev = ty \<and> e_payload ev = p
     \<and> e_attempt ev = w_attempt w"
  if "store_ok env db"
  using that by (auto simp: logged_def advanced_def events_since_eq latest_cursor_eq)

lemma logged_two:
  assumes "store_ok env db" and "logged env wid w ty p now eid db d1 e1 w1"
    and "logged env wid w1 ty' p' now' eid' d1 db' e2 w2"
  shows "events_since wid (int (latest_event_cursor wid db)) db' = Inr [e1, e2]"
  using assms by (auto simp: logged_def advanced_def events_since_eq latest_cursor_eq)

section \<open>A sample database\<close>

definition sample_creation :: creation where
  "sample_creation = \<lparr>n_role = Coder, n_cwd = ''/w'', n_capability = SharedWorkspace,
     n_requested_model = ''w'', n_runtime_path = ''/w'', n_sdk_version = ''1.0'', n_runtime_version = None\<rparr>"

definition sample_db :: db where
  "sample_db = fst (create_worker no_env Some sample_creation (Some ''w'') ''f'' 10 ''e1'' empty_db)"

definition sample_row :: worker_row where
  "sample_row = (new_row ''w'' ''/w'' sample_creation 10)\<lparr>w_last_event_at := Some 10\<rparr>"

lemma sample_metadata: "safe_metadata (JStr ''w'')" "absolute_path (JStr ''/w'')"
    "safe_runtime_version (JStr ''1.0'')"
  by code_simp+

lemma sample_creation_valid: "validate_worker_creation ''w'' ''/w'' sample_creation = Inr ()"
  by (simp add: validate_worker_creation_def creation_checks_def sample_creation_def sample_metadata
      runtime_path_value_def one_of_def)

lemma sample_created:
  "find_worker ''w'' sample_db = Some sample_row \<and> (\<forall>e. fresh_event e sample_db \<longleftrightarrow> e \<noteq> ''e1'')"
proof -
  have c: "chosen_id (Some ''w'') f = ''w''" for f by (simp add: chosen_id_def)
  have n: "n_cwd sample_creation = ''/w''" by (simp add: sample_creation_def)
  have e: "find_worker ''w'' empty_db = None" "fresh_event e empty_db" for e
    by (simp_all add: empty_db_def find_worker_def fresh_event_def)
  note total = create_worker_total [of no_env empty_db Some sample_creation "''/w''" "Some ''w''" "''f''" "''e1''" 10,
        unfolded c n, OF empty_ok refl sample_creation_valid e]
  from total obtain d row where d: "create_worker no_env Some sample_creation (Some ''w'') ''f'' 10 ''e1'' empty_db
        = (d, Inr \<lparr>wr_row = row, wr_result_summary = None\<rparr>)" "find_worker ''w'' d = Some row"
      "row = (new_row ''w'' ''/w'' sample_creation 10)\<lparr>w_last_event_at := Some 10\<rparr>"
      "\<forall>e. fresh_event e d \<longleftrightarrow> fresh_event e empty_db \<and> e \<noteq> ''e1''"
    by (elim exE conjE)
  show ?thesis unfolding sample_db_def d(1) fst_conv sample_row_def using d(2-4) e by simp
qed

lemma create_step: "store_step env db (fst (create_worker env resolve n given fresh now eid db))"
  by (rule store_step.create [OF prod.collapse [symmetric]])

lemma sample_reachable: "reachable no_env sample_db"
  unfolding reachable_def sample_db_def by (rule r_into_rtranclp [of "store_step no_env", OF create_step])

definition sample_running :: db where
  "sample_running = fst (append_event no_env ''w'' ''worker.state_changed'' (state_payload Running) 11 ''e2'' sample_db)"

lemma sample_running_step: "store_step no_env sample_db sample_running"
  unfolding sample_running_def
  by (rule store_step.append [OF prod.collapse [symmetric]]) simp

lemma sample_running_logged:
  "\<exists>ev w. logged no_env ''w'' sample_row ''worker.state_changed'' (state_payload Running) 11 ''e2''
     sample_db sample_running ev w \<and> w_state w = Running"
proof -
  have "sample_running = fst (append_event no_env ''w'' ''worker.state_changed'' (state_payload Running) 11 ''e2'' sample_db)"
    by (rule sample_running_def)
  moreover have "w_state sample_row = Starting" by (simp add: sample_row_def new_row_def)
  ultimately show ?thesis
    using append_state_logged [OF reachable_ok [OF sample_reachable], of "''w''" sample_row "''e2''" Running 11]
      sample_created by auto
qed

section \<open>The log and the row\<close>

text \<open>C5: The row of a worker is the fold of its event log. In every reachable database the events read
  back completely from cursor 0, their sequence numbers are 1, 2, ... without gaps up to the latest
  cursor, and replaying them gives the attempt, state and health in the row; the last event carries
  the row's \<open>last_event_at\<close>.\<close>

theorem row_is_replayed_log:
  assumes "reachable env db" and "find_worker wid db = Some w"
  shows "\<exists>evs. events_since wid 0 db = Inr evs \<and> evs \<noteq> []
     \<and> map e_sequence evs = [1..<Suc (length evs)] \<and> latest_event_cursor wid db = length evs
     \<and> replay evs = Some (w_attempt w, w_state w, w_health w)
     \<and> w_last_event_at w = Some (e_timestamp (last evs))"
proof -
  note ok = reachable_ok [OF assms(1)]
  have "events_ok env w (events_of wid db)" using store_okD [OF ok assms(2)] by (simp add: view_ok_def)
  then show ?thesis
    using events_since_eq [OF ok, of 0 wid] latest_cursor_eq [OF ok, of wid] number_records [of "events_of wid db"]
    by (auto simp: events_ok_def last_map record_of_def)
qed

theorem row_is_replayed_log_witness:
  "\<exists>evs. events_since ''w'' 0 sample_db = Inr evs \<and> replay evs = Some (1, Starting, HealthUnknown)
     \<and> latest_event_cursor ''w'' sample_db = length evs"
  using row_is_replayed_log [OF sample_reachable, of "''w''" sample_row] sample_created
  by (auto simp: sample_row_def new_row_def)

text \<open>C8: Polling by cursor misses nothing and repeats nothing: whatever operations run between two
  polls, succeeding or failing, the events read at the second poll from the cursor reached at the first are
  exactly the continuation of what the first poll read; earlier events never change.\<close>

theorem polling_lossless:
  assumes "reachable env db" and "(store_step env)\<^sup>*\<^sup>* db db'" and "events_since wid 0 db = Inr evs"
  shows "\<exists>more. events_since wid (int (latest_event_cursor wid db)) db' = Inr more
     \<and> events_since wid 0 db' = Inr (evs @ more)"
proof -
  note ok = reachable_ok [OF assms(1)] and ok' = reachable_ok [OF reachable_steps [OF assms(1,2)]]
  have "events_of wid db' = events_of wid db @ drop (length (events_of wid db)) (events_of wid db')"
    using event_log.nothing_missed [OF assms(2) ok, of wid] unfolding event_log.read_from [OF ok'] .
  moreover have "evs = map record_of (events_of wid db)"
    using assms(3) events_since_eq [OF ok, of 0 wid] by simp
  ultimately show ?thesis
    using events_since_eq [OF ok', of 0 wid] events_since_eq [OF ok', of _ wid] latest_cursor_eq [OF ok, of wid]
    by (metis drop0 map_append nat_0 nat_int of_nat_0_le_iff order_refl)
qed

theorem polling_lossless_witness:
  "\<exists>evs more. events_since ''w'' 0 sample_db = Inr evs
     \<and> events_since ''w'' (int (latest_event_cursor ''w'' sample_db)) sample_running = Inr more
     \<and> events_since ''w'' 0 sample_running = Inr (evs @ more)"
proof -
  have "events_since ''w'' 0 sample_db = Inr (map record_of (events_of ''w'' sample_db))"
    using events_since_eq [OF reachable_ok [OF sample_reachable], of 0 "''w''"] by simp
  with polling_lossless [OF sample_reachable r_into_rtranclp [of "store_step no_env", OF sample_running_step] this]
  show ?thesis by blast
qed

section \<open>Attempts and the history of a worker\<close>

text \<open>C25: Attempts are numbered 1, 2, ... without gaps; the last one is the attempt in the worker's row
  and mirrors its state and its start and end times, every earlier one ended failed, cancelled or lost; a
  worker has an end time exactly in the four terminal states, and a start time once it has run.\<close>

theorem attempts_mirror_row:
  assumes "reachable env db" and "find_worker wid db = Some w"
  shows "map a_attempt (attempts_of wid db) = [1..<Suc (w_attempt w)]
     \<and> (let cur = last (attempts_of wid db) in a_state cur = w_state w
          \<and> a_started_at cur = w_started_at w \<and> a_ended_at cur = w_ended_at w)
     \<and> list_all (\<lambda>a. a_state a \<in> {Failed, Cancelled, Lost}) (butlast (attempts_of wid db))
     \<and> (w_ended_at w \<noteq> None \<longleftrightarrow> terminal_state (w_state w))
     \<and> (if w_state w \<in> {Running, RequiresAction, Completed, Lost} then w_started_at w \<noteq> None else True)"
proof -
  have v: "attempts_ok w (attempts_of wid db)" "coherent w"
    using store_okD [OF reachable_ok [OF assms(1)] assms(2)] by (simp_all add: view_ok_def)
  then obtain olds cur where oc: "attempts_of wid db = olds @ [cur]"
    "map a_attempt (attempts_of wid db) = [1..<Suc (w_attempt w)]"
    "a_state cur = w_state w" "a_started_at cur = w_started_at w" "a_ended_at cur = w_ended_at w"
    "\<forall>a \<in> set olds. a_state a \<in> {Failed, Cancelled, Lost}" unfolding attempts_ok_def by blast
  have "list_all (\<lambda>a. a_state a \<in> {Failed, Cancelled, Lost}) (butlast (attempts_of wid db))"
    using oc(1,6) by (simp add: list_all_iff)
  with oc(1-5) v(2) show ?thesis by (simp only: Let_def last_snoc coherent_def if_split) blast
qed

theorem attempts_mirror_row_witness:
  "map a_attempt (attempts_of ''w'' sample_db) = [1] \<and> a_state (last (attempts_of ''w'' sample_db)) = Starting"
  using attempts_mirror_row [OF sample_reachable, of "''w''" sample_row] sample_created
  by (simp add: sample_row_def new_row_def Let_def)



end
