(* ===== verification/Store_Operations.thy ===== *)
theory Store_Operations
  imports Store_Properties "HOL-Library.Multiset"
begin

text \<open>
  The exact outcome of the operations of the worker database: new attempts, approvals, results,
  listings, identifiers, and what a failure leaves behind.
\<close>

section \<open>Failures\<close>

named_theorems unchanged \<open>a raising operation returns the database it was given\<close>

lemma transaction_unchanged [unchanged]: "isl (snd (transaction db body)) \<Longrightarrow> fst (transaction db body) = db"
  by (auto simp: transaction_def split: sum.splits prod.splits)

lemma created_summary:
  assumes "insert_worker (new_row wid cwd n now) db = Inr d1" and "insert_attempt a d1 = Inr d2"
    and "append_row env wid 1 ty p now eid d2 = Inr (d3, ev)"
  shows "\<exists>w. find_worker wid d3 = Some w \<and> w_result_summary w = None"
proof -
  have idn: "w_worker_id (new_row wid cwd n now) = wid" by (simp add: new_row_def)
  have f: "find_worker wid d2 = Some (new_row wid cwd n now)"
    using find_worker_insert [OF assms(1), unfolded idn] insert_attempt_view [OF assms(2)] by simp
  from assms(3) obtain d q where "insert_event q d2 = Inr d"
    and d3: "d3 = update_worker wid (\<lambda>w. w\<lparr>w_last_event_at := Some now\<rparr>) d"
    by (auto simp: append_row_def res_simps Let_def)
  then have "find_worker wid d = Some (new_row wid cwd n now)"
    using insert_event_view f by force
  then show ?thesis by (simp add: d3 views new_row_def)
qed

lemma worker_from_new_row: "w_result_summary w = None \<Longrightarrow> \<exists>r. worker_from_row w = Inr r"
  by (simp add: worker_from_row_def load_json_object_def)

lemma create_worker_unchanged [unchanged]:
  assumes "isl (snd (create_worker env resolve n given fresh now eid db))"
  shows "fst (create_worker env resolve n given fresh now eid db) = db"
proof (cases "resolve (n_cwd n)")
  case (Some cwd)
  let ?wid = "chosen_id given fresh"
  let ?body = "res_bind (insert_worker (new_row ?wid cwd n now) db) (\<lambda>db.
      res_bind (insert_attempt (new_attempt ?wid 1 now) db) (\<lambda>db.
      append_row env ?wid 1 ''worker.created'' (created_payload cwd (n_role n)) now eid db))"
  show ?thesis
  proof (cases ?body)
    case (Inl e)
    with Some show ?thesis
      by (simp add: create_worker_def Let_def transaction_def split: sum.split)
  next
    case (Inr r)
    then obtain d1 d2 d3 ev where "r = (d3, ev)" "insert_worker (new_row ?wid cwd n now) db = Inr d1"
      "insert_attempt (new_attempt ?wid 1 now) d1 = Inr d2"
      "append_row env ?wid 1 ''worker.created'' (created_payload cwd (n_role n)) now eid d2 = Inr (d3, ev)"
      by (cases r) (auto simp: res_simps)
    moreover from this obtain w x where "find_worker ?wid d3 = Some w" "worker_from_row w = Inr x"
      using created_summary worker_from_new_row by metis
    ultimately show ?thesis
      using Some assms by (auto simp: create_worker_def Let_def transaction_def worker_or_def split: sum.splits)
  qed
qed (simp add: create_worker_def Let_def)

lemma operations_unchanged [unchanged]:
  "isl (snd (start_attempt env wid now eid db)) \<Longrightarrow> fst (start_attempt env wid now eid db) = db"
  "isl (snd (append_event env wid ty payload now eid db)) \<Longrightarrow> fst (append_event env wid ty payload now eid db) = db"
  "isl (snd (record_approval_request env wid k payload now eid eid' db)) \<Longrightarrow>
   fst (record_approval_request env wid k payload now eid eid' db) = db"
  "isl (snd (record_approval_resolution env wid k payload restore now eid eid' db)) \<Longrightarrow>
   fst (record_approval_resolution env wid k payload restore now eid eid' db) = db"
  "isl (snd (expire_approval_requests env wid k rids now ids db)) \<Longrightarrow>
   fst (expire_approval_requests env wid k rids now ids db) = db"
  "isl (snd (record_result env wid oc summary f now eid db)) \<Longrightarrow>
   fst (record_result env wid oc summary f now eid db) = db"
  unfolding start_attempt_def append_event_def record_approval_request_def
    record_approval_resolution_def expire_approval_requests_def record_result_def
  by (auto split: sum.splits if_splits intro: transaction_unchanged)


section \<open>New attempts\<close>

lemma transition_table: "t \<in> set (transitions s) \<longleftrightarrow> transition s t = Inr t"
  by (simp add: transition_def)

text \<open>A worker can be resumed exactly when its last attempt failed, was cancelled or was lost. Then a
  new attempt, numbered one more, is created: the row goes back to starting with the session, result,
  warnings and times of the old attempt cleared, and one event announces the attempt. In any other state,
  and for an unknown worker, the call fails and nothing changes.\<close>

lemma start_attempt_exact:
  assumes "reachable env db" and "fresh_event eid db"
  shows "case find_worker wid db of
      None \<Rightarrow> start_attempt env wid now eid db = (db, Inl (unknown_worker wid))
    | Some w \<Rightarrow>
        if w_state w \<in> {Failed, Cancelled, Lost}
        then (\<exists>db' ev. start_attempt env wid now eid db = (db', Inr (new_attempt wid (w_attempt w + 1) now))
          \<and> find_worker wid db' = Some ((restart_row (w_attempt w + 1) w)\<lparr>w_last_event_at := Some now\<rparr>)
          \<and> events_since wid (int (latest_event_cursor wid db)) db' = Inr [ev]
          \<and> e_attempt ev = w_attempt w + 1 \<and> event_state ev = Some Starting)
        else fst (start_attempt env wid now eid db) = db
          \<and> snd (start_attempt env wid now eid db) = Inl (ValueError
              (''Invalid worker lifecycle transition: '' @ state_name (w_state w) @ '' -> starting''))"
proof (cases "find_worker wid db")
  case None
  then show ?thesis by (simp add: start_attempt_def transaction_def worker_or_def)
next
  case (Some w)
  note ok = reachable_ok [OF assms(1)]
  let ?n = "w_attempt w + 1"
  have "w_state w \<in> {Failed, Cancelled, Lost} \<longleftrightarrow> Starting \<in> set (transitions (w_state w))"
    by (cases "w_state w") simp_all
  moreover have "\<exists>db' ev. start_attempt env wid now eid db = (db', Inr (new_attempt wid ?n now))
        \<and> find_worker wid db' = Some ((restart_row ?n w)\<lparr>w_last_event_at := Some now\<rparr>)
        \<and> events_since wid (int (latest_event_cursor wid db)) db' = Inr [ev]
        \<and> e_attempt ev = ?n \<and> event_state ev = Some Starting"
    if t: "Starting \<in> set (transitions (w_state w))"
  proof -
    let ?d1 = "db\<lparr>attempts := attempts db @ [new_attempt wid ?n now]\<rparr>"
    let ?d2 = "update_worker wid (restart_row ?n) ?d1"
    have nums: "map a_attempt (attempts_of wid db) = [1..<Suc (w_attempt w)]"
      using store_okD [OF ok Some] by (auto simp: view_ok_def attempts_ok_def simp del: upt_Suc)
    have "?n \<notin> set (map a_attempt (attempts_of wid db))" unfolding nums by simp
    then have i: "insert_attempt (new_attempt wid ?n now) db = Inr ?d1"
      using Some by (auto simp: insert_attempt_def new_attempt_def list_ex_iff attempts_of_def image_iff)
    note iv = insert_attempt_view [OF i]
    have fid: "w_worker_id (restart_row ?n x) = w_worker_id x" for x by (simp add: restart_row_def)
    have f2: "find_worker wid ?d2 = Some (restart_row ?n w)" "events_of wid ?d2 = events_of wid db"
      using iv Some fid by (simp_all add: views)
    obtain p where p: "validated_payload env ''worker.state_changed'' (attempt_payload ?n) = Inr p"
      "jget p ''state'' = Some (JStr ''starting'')" using attempt_payload_valid [of ?n env] by auto
    have "fresh_event eid ?d2" using assms(2) by (simp add: fresh_event_def views)
    then obtain db' ev where a: "append_row env wid ?n ''worker.state_changed'' (attempt_payload ?n) now eid ?d2
        = Inr (db', ev)"
      using append_row_total [OF p(1), of wid ?d2 ?n eid now] f2 event_log.numbered [OF ok, of wid]
      by (auto simp del: upt_Suc)
    have r: "start_attempt env wid now eid db = (db', Inr (new_attempt wid ?n now))"
      using Some t i a by (simp add: start_attempt_def transaction_def worker_or_def transition_def Let_def)
    obtain row where ap: "appended env wid ?n ''worker.state_changed'' (attempt_payload ?n) now ?d2 db' ev row"
      using append_row_appended [OF a] by auto
    have ok': "store_ok env db'"
      using start_attempt_ok [OF ok r] by (simp add: safe_op_def)
    have "event_state ev = Some Starting"
      using append_row_shape [OF a] p state_of_name_name [of Starting] by (simp add: event_state_def)
    then show ?thesis
      using r ap f2 events_since_eq [OF ok', of "int (length (events_of wid db))" wid]
        latest_cursor_eq [OF ok, of wid]
      by (auto simp: appended_def)
  qed
  ultimately show ?thesis
    using Some by (auto simp: start_attempt_def transaction_def worker_or_def transition_def)
qed

definition sample_failed :: db where
  "sample_failed = fst (append_event no_env ''w'' ''worker.state_changed'' (state_payload Failed) 11 ''e2'' sample_db)"

lemma sample_failed_worker:
  "reachable no_env sample_failed \<and> fresh_event ''e3'' sample_failed
   \<and> (\<exists>w. find_worker ''w'' sample_failed = Some w \<and> w_state w = Failed \<and> w_attempt w = 1)"
proof -
  have st: "w_state sample_row = Starting" "w_attempt sample_row = 1" by (simp_all add: sample_row_def new_row_def)
  then obtain ev w where l: "logged no_env ''w'' sample_row ''worker.state_changed'' (state_payload Failed) 11 ''e2''
      sample_db sample_failed ev w" "w_state w = Failed"
    using append_state_logged [OF reachable_ok [OF sample_reachable], of "''w''" sample_row "''e2''" Failed 11]
      sample_created by (auto simp: sample_failed_def)
  moreover have "store_step no_env sample_db sample_failed"
    unfolding sample_failed_def by (rule store_step.append [OF prod.collapse [symmetric]]) simp
  ultimately show ?thesis
    using logged_find [OF reachable_ok [OF sample_reachable] l(1)] sample_created st
      reachable_steps [OF sample_reachable, of sample_failed] by auto
qed

section \<open>Approvals\<close>

text \<open>The shape both operations share: an event that does not project, then a state change.\<close>

lemma event_then_state:
  assumes "reachable env db" and "fresh_event eid db" and "fresh_event eid' db" and "eid' \<noteq> eid"
    and "json_wf payload" and "validated_payload env ty payload = Inr p" and w: "find_worker wid db = Some w"
    and ty: "ty \<notin> set projecting"
  shows "\<exists>d1 e1 w1. append_row env wid (w_attempt w) ty p now eid db = Inr (d1, e1)
     \<and> events_since wid (int (latest_event_cursor wid db)) d1 = Inr [e1] \<and> e_type e1 = ty \<and> e_payload e1 = p
     \<and> find_worker wid d1 = Some w1 \<and> w_state w1 = w_state w \<and> w_attempt w1 = w_attempt w
     \<and> (\<forall>s \<in> set (transitions (w_state w)) - {Starting}. \<exists>d2 e2 w2.
          append_projected env wid (w_attempt w) ''worker.state_changed'' (state_payload s) now eid' d1 = Inr (d2, e2)
        \<and> events_since wid (int (latest_event_cursor wid db)) d2 = Inr [e1, e2] \<and> e_type e2 = ''worker.state_changed''
        \<and> find_worker wid d2 = Some w2 \<and> w_state w2 = s \<and> w_attempt w2 = w_attempt w)"
proof -
  note ok = reachable_ok [OF assms(1)]
  have "validated_payload env ty p = Inr p" "json_wf p"
    using validated_payload_again [OF assms(5,6)] validated_payload_wf [OF assms(5,6)] by simp_all
  then obtain d1 e1 w1 where a: "append_row env wid (w_attempt w) ty p now eid db = Inr (d1, e1)"
    "logged env wid w ty p now eid db d1 e1 w1" "w_state w1 = w_state w"
    using append_row_logged [OF ok w assms(2) _ _ ty] by blast
  note f1 = logged_find [OF ok a(2)]
  have "\<exists>d2 e2 w2.
          append_projected env wid (w_attempt w) ''worker.state_changed'' (state_payload s) now eid' d1 = Inr (d2, e2)
        \<and> events_since wid (int (latest_event_cursor wid db)) d2 = Inr [e1, e2] \<and> e_type e2 = ''worker.state_changed''
        \<and> find_worker wid d2 = Some w2 \<and> w_state w2 = s \<and> w_attempt w2 = w_attempt w"
    if "s \<in> set (transitions (w_state w)) - {Starting}" for s
  proof -
    have "fresh_event eid' d1" using f1 assms(3,4) by simp
    moreover have "s \<in> set (transitions (w_state w1))" "s \<noteq> Starting" using that a(3) by auto
    ultimately obtain d2 e2 w2 where b: "append_projected env wid (w_attempt w1) ''worker.state_changed''
        (state_payload s) now eid' d1 = Inr (d2, e2)"
      "logged env wid w1 ''worker.state_changed'' (state_payload s) now eid' d1 d2 e2 w2" "w_state w2 = s"
      using state_change_logged [of env d1 wid w1 eid' s now] f1 by blast
    then show ?thesis using logged_two [OF ok a(2) b(2)] f1 logged_find [OF _ b(2)] by auto
  qed
  with a f1 show ?thesis by blast
qed

text \<open>An approval request is recorded exactly for the live attempt it was made in: the attempt must be
  the expected one and the worker running or already waiting. The request and, for a running worker, the
  move to \<open>requires_action\<close> are stored together, as the next events of the log; in every other case
  the call fails with \<open>AttemptChangedError\<close> and nothing changes.\<close>

lemma approval_request_exact:
  assumes "reachable env db" and "fresh_event eid db" and "fresh_event eid' db" and "eid' \<noteq> eid"
    and "json_wf payload" and "validated_payload env ''approval.requested'' payload = Inr p"
    and "find_worker wid db = Some w"
  shows "if w_attempt w = k \<and> w_state w \<in> {Running, RequiresAction}
    then (\<exists>db' evs w'. record_approval_request env wid k payload now eid eid' db = (db', Inr evs)
      \<and> events_since wid (int (latest_event_cursor wid db)) db' = Inr evs
      \<and> map e_type evs = ''approval.requested''
          # (if w_state w = Running then [''worker.state_changed''] else [])
      \<and> e_payload (hd evs) = p
      \<and> find_worker wid db' = Some w' \<and> w_state w' = RequiresAction \<and> w_attempt w' = k)
    else record_approval_request env wid k payload now eid eid' db = (db, Inl attempt_changed)"
proof (cases "w_attempt w = k \<and> w_state w \<in> {Running, RequiresAction}")
  case True
  obtain d1 e1 w1 where a: "append_row env wid k ''approval.requested'' p now eid db = Inr (d1, e1)"
    "events_since wid (int (latest_event_cursor wid db)) d1 = Inr [e1]" "e_type e1 = ''approval.requested''"
    "e_payload e1 = p" "find_worker wid d1 = Some w1" "w_state w1 = w_state w" "w_attempt w1 = k"
    and b: "\<forall>s \<in> set (transitions (w_state w)) - {Starting}. \<exists>d2 e2 w2.
          append_projected env wid k ''worker.state_changed'' (state_payload s) now eid' d1 = Inr (d2, e2)
        \<and> events_since wid (int (latest_event_cursor wid db)) d2 = Inr [e1, e2] \<and> e_type e2 = ''worker.state_changed''
        \<and> find_worker wid d2 = Some w2 \<and> w_state w2 = s \<and> w_attempt w2 = k"
    using event_then_state [OF assms approval_types(1), of now] True by blast
  show ?thesis
  proof (cases "w_state w = Running")
    case yes: True
    then obtain d2 e2 w2 where "append_projected env wid k ''worker.state_changed'' (state_payload RequiresAction) now eid' d1
        = Inr (d2, e2)" "events_since wid (int (latest_event_cursor wid db)) d2 = Inr [e1, e2]"
      "e_type e2 = ''worker.state_changed''"
      "find_worker wid d2 = Some w2" "w_state w2 = RequiresAction" "w_attempt w2 = k"
      using b True by (auto dest: bspec [of _ _ RequiresAction])
    then show ?thesis
      using True yes assms(6,7) a by (simp add: record_approval_request_def transaction_def worker_or_def require_def)
  next
    case False
    then show ?thesis
      using True assms(6,7) a by (auto simp: record_approval_request_def transaction_def worker_or_def require_def)
  qed
qed (use assms(6,7) in \<open>auto simp: record_approval_request_def transaction_def worker_or_def require_def\<close>)

lemma sample_running_state:
  "reachable no_env sample_running \<and> (\<forall>e. fresh_event e sample_running \<longleftrightarrow> e \<notin> {''e1'', ''e2''})
   \<and> (\<exists>w. find_worker ''w'' sample_running = Some w \<and> w_state w = Running \<and> w_attempt w = 1)"
proof -
  obtain ev w where l: "logged no_env ''w'' sample_row ''worker.state_changed'' (state_payload Running) 11 ''e2''
     sample_db sample_running ev w" "w_state w = Running"
    using sample_running_logged by blast
  then show ?thesis
    using logged_find [OF reachable_ok [OF sample_reachable] l(1)] sample_created
      reachable_steps [OF sample_reachable r_into_rtranclp [of "store_step no_env", OF sample_running_step]]
    by (auto simp: sample_row_def new_row_def)
qed

lemma sample_waiting_state:
  "\<exists>db w. reachable no_env db \<and> fresh_event ''e5'' db \<and> fresh_event ''e6'' db
     \<and> find_worker ''w'' db = Some w \<and> w_state w = RequiresAction \<and> w_attempt w = 1"
proof -
  obtain w where w: "find_worker ''w'' sample_running = Some w" "w_state w = Running" "w_attempt w = 1"
    using sample_running_state by blast
  have r: "reachable no_env sample_running" using sample_running_state by simp
  obtain db ev w' where l: "append_event no_env ''w'' ''worker.state_changed'' (state_payload RequiresAction) 12 ''e3''
      sample_running = (db, Inr ev)"
    "logged no_env ''w'' w ''worker.state_changed'' (state_payload RequiresAction) 12 ''e3'' sample_running db ev w'"
    "w_state w' = RequiresAction"
    using append_state_logged [OF reachable_ok [OF r] w(1), of "''e3''" RequiresAction 12] w sample_running_state
    by auto
  note f = logged_find [OF reachable_ok [OF r] l(2)]
  have "store_step no_env sample_running db" using l(1) by (rule store_step.append) simp
  then have "reachable no_env db" using reachable_steps [OF r] by blast
  with f l(3) w sample_running_state show ?thesis by (intro exI [of _ db] exI [of _ w']) auto
qed

text \<open>An approval is resolved exactly in the waiting state of the attempt that asked. The resolution and,
  when it was the last one pending, the return to running are stored together as the next events; any
  other attempt or state fails with \<open>AttemptChangedError\<close> and nothing changes.\<close>

lemma approval_resolution_exact:
  assumes "reachable env db" and "fresh_event eid db" and "fresh_event eid' db" and "eid' \<noteq> eid"
    and "json_wf payload" and "validated_payload env ''approval.resolved'' payload = Inr p"
    and "find_worker wid db = Some w"
  shows "if w_attempt w = k \<and> w_state w = RequiresAction
    then (\<exists>db' evs w'. record_approval_resolution env wid k payload restore now eid eid' db = (db', Inr evs)
      \<and> events_since wid (int (latest_event_cursor wid db)) db' = Inr evs
      \<and> map e_type evs = ''approval.resolved'' # (if restore then [''worker.state_changed''] else [])
      \<and> e_payload (hd evs) = p
      \<and> find_worker wid db' = Some w' \<and> w_attempt w' = k
      \<and> w_state w' = (if restore then Running else RequiresAction))
    else record_approval_resolution env wid k payload restore now eid eid' db = (db, Inl attempt_changed)"
proof (cases "w_attempt w = k \<and> w_state w = RequiresAction")
  case True
  obtain d1 e1 w1 where a: "append_row env wid k ''approval.resolved'' p now eid db = Inr (d1, e1)"
    "events_since wid (int (latest_event_cursor wid db)) d1 = Inr [e1]" "e_type e1 = ''approval.resolved''"
    "e_payload e1 = p" "find_worker wid d1 = Some w1" "w_state w1 = w_state w" "w_attempt w1 = k"
    and b: "\<forall>s \<in> set (transitions (w_state w)) - {Starting}. \<exists>d2 e2 w2.
          append_projected env wid k ''worker.state_changed'' (state_payload s) now eid' d1 = Inr (d2, e2)
        \<and> events_since wid (int (latest_event_cursor wid db)) d2 = Inr [e1, e2] \<and> e_type e2 = ''worker.state_changed''
        \<and> find_worker wid d2 = Some w2 \<and> w_state w2 = s \<and> w_attempt w2 = k"
    using event_then_state [OF assms approval_types(2), of now] True by blast
  show ?thesis
  proof (cases "restore")
    case yes: True
    then obtain d2 e2 w2 where "append_projected env wid k ''worker.state_changed'' (state_payload Running) now eid' d1
        = Inr (d2, e2)" "events_since wid (int (latest_event_cursor wid db)) d2 = Inr [e1, e2]"
      "e_type e2 = ''worker.state_changed''"
      "find_worker wid d2 = Some w2" "w_state w2 = Running" "w_attempt w2 = k"
      using b True by (auto dest: bspec [of _ _ Running])
    then show ?thesis
      using True yes assms(6,7) a by (simp add: record_approval_resolution_def transaction_def worker_or_def require_def)
  next
    case False
    then show ?thesis
      using True assms(6,7) a by (auto simp: record_approval_resolution_def transaction_def worker_or_def require_def)
  qed
qed (use assms(6,7) in \<open>auto simp: record_approval_resolution_def transaction_def worker_or_def require_def\<close>)

section \<open>Results and listings\<close>

lemma worker_from_coherent:
  assumes "coherent w"
  shows "\<exists>s. worker_from_row w = Inr \<lparr>wr_row = w, wr_result_summary = s\<rparr>"
proof (cases "w_result_summary w")
  case (Some t)
  with assms obtain j where j: "json_wf j" "is_jdict j" "t = json_text True True j"
    by (auto simp: coherent_def summary_ok_def)
  moreover have "is_jdict (sort_keys j)" using j(2) by (cases j) simp_all
  ultimately show ?thesis using Some by (simp add: worker_from_row_def load_json_object_def json_roundtrip_sorted)
qed (simp add: worker_from_row_def load_json_object_def)

text \<open>C24: A result that was recorded reads back: the worker's summary is the sanitized summary (keys
  sorted), beside the models, session, nested state and warnings that came with it; state and attempt are
  those before, and the log has gained exactly the \<open>result.received\<close> event.\<close>

theorem result_reads_back:
  assumes "reachable env db" and "json_wf summary"
    and "record_result env wid oc summary f now eid db = (db', Inr ev)"
  shows "\<exists>w w' safe. find_worker wid db = Some w \<and> safe_result_summary env oc summary = Inr safe
     \<and> get_worker wid db' = Inr (Some \<lparr>wr_row = w', wr_result_summary = Some (sort_keys safe)\<rparr>)
     \<and> w_state w' = w_state w \<and> w_attempt w' = w_attempt w
     \<and> w_resolved_model w' = f_resolved_model f \<and> w_actual_models w' = f_actual_models f
     \<and> w_session_id w' = f_session_id f \<and> w_nested_state w' = f_nested_state f \<and> w_warnings w' = f_warnings f
     \<and> events_since wid (int (latest_event_cursor wid db)) db' = Inr [ev]"
proof -
  note ok = reachable_ok [OF assms(1)]
  obtain w w1 d1 safe where r: "find_worker wid db = Some w" "safe_result_summary env oc summary = Inr safe"
    "advanced env wid w ev db d1 w1" "w_state w1 = w_state w" "db' = update_worker wid (store_result safe f) d1"
    "safe_op env db db'" "find_worker wid db' = Some (store_result safe f w1)"
    using record_result_ok [OF ok assms(3,2)] by blast
  have wf: "json_wf safe" "is_jdict safe" using summary_wf [OF r(2) assms(2)] by simp_all
  moreover have "is_jdict (sort_keys safe)" using wf(2) by (cases safe) simp_all
  ultimately have "get_worker wid db'
      = Inr (Some \<lparr>wr_row = store_result safe f w1, wr_result_summary = Some (sort_keys safe)\<rparr>)"
    using r(7) by (simp add: get_worker_def worker_from_row_def load_json_object_def store_result_def
        json_roundtrip_sorted)
  moreover have "events_of wid db' = events_of wid d1" by (simp add: r(5) views)
  moreover have "store_ok env db'" using r(6) by (simp add: safe_op_def)
  ultimately show ?thesis
    using r(1-4) ok
    by (intro exI [of _ w] exI [of _ "store_result safe f w1"] exI [of _ safe])
      (auto simp: advanced_def events_since_eq latest_cursor_eq store_result_def)
qed

definition sample_fields :: result_fields where
  "sample_fields = \<lparr>f_resolved_model = None, f_actual_models = [], f_session_id = Some ''w'',
     f_nested_state = NestedNone, f_warnings = []\<rparr>"

theorem result_reads_back_witness:
  "\<exists>db' r. fst (record_result no_env ''w'' OutPartial sample_summary sample_fields 14 ''e7'' sample_db) = db'
     \<and> get_worker ''w'' db' = Inr (Some r) \<and> w_session_id (wr_row r) = Some ''w''
     \<and> wr_result_summary r \<noteq> None"
proof -
  note ok = reachable_ok [OF sample_reachable]
  obtain safe where s: "safe_result_summary no_env OutPartial sample_summary = Inr safe"
    using sample_summary_stored by blast
  have v: "validate_result_fields sample_fields = Inr ()"
    using sample_metadata(1) by (simp add: validate_result_fields_def sample_fields_def Let_def require_def)
  obtain p where p: "validated_payload no_env ''result.received'' (result_payload OutPartial None) = Inr p"
    using result_payload_valid [of no_env OutPartial None] by auto
  obtain d ev where "append_row no_env ''w'' (w_attempt sample_row) ''result.received''
      (result_payload OutPartial None) 14 ''e7'' sample_db = Inr (d, ev)"
    using append_row_logged [OF ok _ _ p _ approval_types(3), of "''w''" sample_row "''e7''" 14] sample_created
    by auto
  then have r: "record_result no_env ''w'' OutPartial sample_summary sample_fields 14 ''e7'' sample_db
      = (update_worker ''w'' (store_result safe sample_fields) d, Inr ev)"
    using s v sample_created
    by (simp add: record_result_def transaction_def worker_or_def) (simp add: sample_fields_def)
  have "json_wf sample_summary" by (simp add: sample_summary_def)
  from result_reads_back [OF sample_reachable this r] show ?thesis
    unfolding r by (auto simp: sample_fields_def)
qed

lemma find_member: "distinct (map f xs) \<Longrightarrow> x \<in> set xs \<Longrightarrow> find (\<lambda>y. f y = f x) xs = Some x"
  by (induction xs) auto

lemma find_worker_member:
  "distinct (map w_worker_id (workers db)) \<Longrightarrow> w \<in> set (workers db) \<Longrightarrow>
   find_worker (w_worker_id w) db = Some w"
  unfolding find_worker_def by (rule find_member)

text \<open>Listing workers returns every worker exactly once, newest first (ties by identifier), each with
  the cursor of its last event; no row of a reachable database fails to load.\<close>

lemma list_workers_complete:
  assumes "reachable env db"
  shows "\<exists>ls. list_workers db = Inr ls \<and> mset (map (\<lambda>(r, c). wr_row r) ls) = mset (workers db)
     \<and> distinct (map (\<lambda>(r, c). w_worker_id (wr_row r)) ls)
     \<and> sorted_wrt (\<lambda>a b. b \<le> a) (map (\<lambda>(r, c). (w_created_at (wr_row r), w_worker_id (wr_row r))) ls)
     \<and> list_all (\<lambda>(r, c). events_since (w_worker_id (wr_row r)) (int c) db = Inr []
          \<and> c = latest_event_cursor (w_worker_id (wr_row r)) db) ls"
proof -
  note ok = reachable_ok [OF assms]
  let ?key = "\<lambda>w. (w_created_at w, w_worker_id w)"
  let ?ws = "rev (sort_key ?key (workers db))"
  define load where "load w = (case worker_from_row w of Inr r \<Rightarrow> r)" for w
  have dist: "distinct (map w_worker_id (workers db))" using ok by (simp add: store_ok_def)
  have ld: "worker_from_row w = Inr (load w) \<and> wr_row (load w) = w" if "w \<in> set ?ws" for w
  proof -
    have "find_worker (w_worker_id w) db = Some w" using dist that by (intro find_worker_member) simp_all
    then have "coherent w" using store_okD [OF ok] by (simp add: view_ok_def)
    from worker_from_coherent [OF this] show ?thesis by (auto simp: load_def)
  qed
  define ls where "ls = map (\<lambda>w. (load w, last_sequence (w_worker_id w) db)) ?ws"
  have rows: "map (\<lambda>(r, c). f (wr_row r)) ls = map f ?ws" for f :: "worker_row \<Rightarrow> 'b"
    using ld by (simp add: ls_def)
  have "list_workers db = Inr ls"
    unfolding list_workers_def ls_def by (rule map_res_Inr) (use ld in simp)
  moreover have "mset (map (\<lambda>(r, c). wr_row r) ls) = mset (workers db)"
    using rows [of "\<lambda>w. w"] by simp
  moreover have "distinct (map (\<lambda>(r, c). w_worker_id (wr_row r)) ls)"
    unfolding rows using dist by (simp add: distinct_map)
  moreover have "sorted_wrt (\<lambda>a b. b \<le> a) (map (\<lambda>(r, c). ?key (wr_row r)) ls)"
    unfolding rows [of ?key] rev_map [symmetric] sorted_wrt_rev by (rule sorted_sort_key)
  moreover have "list_all (\<lambda>(r, c). events_since (w_worker_id (wr_row r)) (int c) db = Inr []
      \<and> c = latest_event_cursor (w_worker_id (wr_row r)) db) ls"
    using ld events_since_eq [OF ok] latest_cursor_eq [OF ok]
    by (auto simp: ls_def list_all_iff latest_event_cursor_def)
  ultimately show ?thesis by blast
qed

end
