(* ===== verification/Control.thy ===== *)
theory Control
  imports Store_Properties
begin

text \<open>
  Live control of a worker, \<open>src/qworker/control.py\<close>: approval requests, the bounded copy of an
  elicitation schema, the display record of a request, and the parser of responses.

  The jsonschema package is a parameter, \<open>schema_lib\<close>: whether a schema passes \<open>check_schema\<close>,
  and whether content validates against a schema. An exception of either that the code catches is
  \<open>False\<close>. Mappings with keys that are not strings are outside the model's JSON values.
\<close>

section \<open>Requests and decisions\<close>

datatype elicitation_mode = FormMode | UrlMode

fun mode_name :: "elicitation_mode \<Rightarrow> string" where
  "mode_name FormMode = ''form''"
| "mode_name UrlMode = ''url''"

record permission_request =
  pr_tool_name :: string
  pr_agent_id :: "string option"
  pr_display_message :: string

record elicitation_request =
  el_server_name :: string
  el_mode :: elicitation_mode
  el_display_message :: string
  el_requested_schema :: "json option"

datatype approval_request =
    PermissionRequest permission_request
  | ElicitationRequest elicitation_request

datatype permission_action = AllowAction | DenyAction

datatype elicitation_action = AcceptAction | DeclineAction | CancelAction

datatype approval_decision =
    PermissionDecision permission_action
  | ElicitationDecision elicitation_action "(string \<times> json) list option"

record schema_lib =
  sl_check :: "json \<Rightarrow> bool"
  sl_valid :: "json \<Rightarrow> json \<Rightarrow> bool"

section \<open>The bounded copy of a schema\<close>

definition max_display_fields :: nat where
  "max_display_fields = 32"

definition max_schema_depth :: nat where
  "max_schema_depth = 16"

definition max_schema_nodes :: nat where
  "max_schema_nodes = 1024"

definition max_schema_string_chars :: nat where
  "max_schema_string_chars = 4096"

definition schema_references :: "string list" where
  "schema_references = [''$ref'', ''$dynamicRef'', ''$recursiveRef'']"

text \<open>\<open>copy_json\<close> with the budget it shares through the enclosing list.\<close>

function (sequential) copy_schema :: "json \<Rightarrow> nat \<Rightarrow> nat \<Rightarrow> (nat \<times> json) res"
  and copy_schema_items :: "json list \<Rightarrow> nat \<Rightarrow> nat \<Rightarrow> (nat \<times> json list) res"
  and copy_schema_members ::
      "(string \<times> json) list \<Rightarrow> nat \<Rightarrow> nat \<Rightarrow> (string \<times> json) list \<Rightarrow> (nat \<times> (string \<times> json) list) res"
where
  "copy_schema item depth budget =
     (if budget = 0 \<or> max_schema_depth < depth
      then Inl (ValueError ''Elicitation schema is too complex.'')
      else
        (let budget = budget - 1 in
         case item of
           JNull \<Rightarrow> Inr (budget, item)
         | JBool b \<Rightarrow> Inr (budget, item)
         | JInt i \<Rightarrow> Inr (budget, item)
         | JStr s \<Rightarrow>
             if max_schema_string_chars < length s
             then Inl (ValueError ''Elicitation schema string is too long.'') else Inr (budget, item)
         | JFloat f \<Rightarrow>
             (case f of
                FiniteFloat l \<Rightarrow> Inr (budget, item)
              | _ \<Rightarrow> Inl (ValueError ''Elicitation schema number is not finite.''))
         | JDict d \<Rightarrow>
             res_bind (copy_schema_members d (depth + 1) budget []) (\<lambda>(budget, copied).
             Inr (budget, JDict copied))
         | JList items \<Rightarrow>
             res_bind (copy_schema_items items (depth + 1) budget) (\<lambda>(budget, copied).
             Inr (budget, JList copied))
         | JOpaque \<Rightarrow> Inl (TypeError ''Elicitation schema is not JSON-compatible.'')))"
| "copy_schema_items [] depth budget = Inr (budget, [])"
| "copy_schema_items (x # xs) depth budget =
     res_bind (copy_schema x depth budget) (\<lambda>(budget, y).
     res_bind (copy_schema_items xs depth budget) (\<lambda>(budget, ys). Inr (budget, y # ys)))"
| "copy_schema_members [] depth budget copied = Inr (budget, copied)"
| "copy_schema_members ((key, nested) # d) depth budget copied =
     (if max_schema_string_chars < length key then Inl (ValueError ''Elicitation schema key is invalid.'')
      else if key \<in> set schema_references
      then Inl (ValueError ''Elicitation schema references are unsupported.'')
      else
        res_bind (copy_schema nested depth budget) (\<lambda>(budget, y).
        copy_schema_members d depth budget (assoc_put key y copied)))"
  by pat_completeness auto
termination
  by (relation "measure (\<lambda>a. case a of
        Inl (item, depth, budget) \<Rightarrow> size item
      | Inr (Inl (items, depth, budget)) \<Rightarrow> size_list size items
      | Inr (Inr (d, depth, budget, copied)) \<Rightarrow> size_list (size_prod (\<lambda>_. 0) size) d)")
    (auto simp: size_list_estimation)

declare copy_schema.simps [simp del]

definition bounded_json_schema :: "json \<Rightarrow> json res" where
  "bounded_json_schema v =
     res_bind (copy_schema v 0 max_schema_nodes) (\<lambda>(budget, copied).
     res_bind (require (is_jdict copied) (TypeError ''Elicitation form schema must be an object.'')) (\<lambda>_.
     Inr copied))"

text \<open>A snapshot is the text of its schema.\<close>

definition snapshot_elicitation_schema :: "schema_lib \<Rightarrow> json option \<Rightarrow> string option res" where
  "snapshot_elicitation_schema lib requested_schema =
     (case requested_schema of
        None \<Rightarrow> Inr None
      | Some v \<Rightarrow>
          (case bounded_json_schema v of
             Inr copied \<Rightarrow>
               if sl_check lib copied
               then res_bind (json_dumps True True copied) (\<lambda>t. Inr (Some t))
               else Inl (ValueError ''Elicitation form schema is unsupported.'')
           | Inl e \<Rightarrow> Inl (ValueError ''Elicitation form schema is unsupported.'')))"

definition schema_from_snapshot :: "string \<Rightarrow> json res" where
  "schema_from_snapshot encoded =
     (case json_loads encoded of
        None \<Rightarrow> Inl (ValueError ''JSON'')
      | Some decoded \<Rightarrow>
          res_bind (require (is_jdict decoded)
            (TypeError ''Elicitation form schema snapshot must be an object.'')) (\<lambda>_. Inr decoded))"

section \<open>The display record\<close>

definition field_type :: "json \<Rightarrow> string" where
  "field_type field_schema =
     (case jget field_schema ''type'' of
        Some (JStr t) \<Rightarrow>
          if t \<in> {''array'', ''boolean'', ''integer'', ''null'', ''number'', ''object'', ''string''}
          then t else ''value''
      | _ \<Rightarrow> ''value'')"

text \<open>One step of the loop over the sorted properties; the state is the fields and the safe names.\<close>

definition display_step ::
    "string \<times> json \<Rightarrow> string list \<times> string list \<Rightarrow> string list \<times> string list" where
  "display_step = (\<lambda>(name, field_schema) (fields, safe_names).
     if length fields = max_display_fields \<or> \<not> safe_metadata_text name \<or> \<not> is_jdict field_schema
     then (fields, safe_names)
     else (fields @ [name @ '':'' @ field_type field_schema], safe_names @ [name]))"

definition required_names :: "json option \<Rightarrow> string list \<Rightarrow> string list" where
  "required_names req safe_names =
     (case req of
        Some (JList items) \<Rightarrow>
          take max_display_fields
            (sort (remdups (filter (\<lambda>s. s \<in> set safe_names) (List.map_filter jstr items))))
      | _ \<Rightarrow> [])"

definition schema_display :: "string option \<Rightarrow> (string list \<times> string list) res" where
  "schema_display snapshot =
     (case snapshot of
        None \<Rightarrow> Inr ([], [])
      | Some encoded \<Rightarrow>
          res_bind (schema_from_snapshot encoded) (\<lambda>decoded.
          case jget decoded ''properties'' of
            Some (JDict properties) \<Rightarrow>
              (let (fields, safe_names) = fold display_step (sort_key fst properties) ([], [])
               in Inr (fields, required_names (jget decoded ''required'') safe_names))
          | _ \<Rightarrow> Inr ([], [])))"

definition approval_display ::
    "environ \<Rightarrow> string \<Rightarrow> nat \<Rightarrow> approval_request \<Rightarrow> string option \<Rightarrow> (string \<times> json) list option res"
where
  "approval_display env request_id attempt request snapshot =
     (case request of
        PermissionRequest r \<Rightarrow>
          if \<not> safe_metadata_text (pr_tool_name r) then Inr None
          else
            Inr (Some
              ([(''request_id'', JStr request_id), (''attempt'', JInt (int attempt)),
                (''kind'', JStr ''tool_permission''), (''tool_name'', JStr (pr_tool_name r)),
                (''prompt'', JStr (''Allow tool '' @ pr_tool_name r @ '' for this turn?'')),
                (''choices'', permission_choices)]
               @ (case pr_agent_id r of
                    Some a \<Rightarrow> if safe_metadata_text a then [(''agent_id'', JStr a)] else []
                  | None \<Rightarrow> [])))
      | ElicitationRequest r \<Rightarrow>
          (let server_name = (if safe_metadata_text (el_server_name r) then el_server_name r else ''unknown'');
               text = safe_display_text env (el_display_message r);
               prompt = (if text = [] then ''Input requested by '' @ server_name @ ''.'' else text) in
           res_bind (schema_display snapshot) (\<lambda>(fields, required_fields).
           Inr (Some
             ([(''request_id'', JStr request_id), (''attempt'', JInt (int attempt)),
               (''kind'', JStr ''elicitation''), (''server_name'', JStr server_name),
               (''mode'', JStr (mode_name (el_mode r))), (''prompt'', JStr prompt),
               (''choices'', elicitation_choices)]
              @ (if el_mode r = FormMode \<and> fields \<noteq> [] then [(''fields'', jstrings fields)] else [])
              @ (if el_mode r = FormMode \<and> required_fields \<noteq> []
                 then [(''required_fields'', jstrings required_fields)] else []))))))"

text \<open>The payload that \<open>_request_approval\<close> of the supervisor stores for a display.\<close>

definition approval_payload :: "(string \<times> json) list \<Rightarrow> json" where
  "approval_payload display = JDict (assoc_pop ''attempt'' ((''schema_version'', JInt 1) # display))"

section \<open>Responses\<close>

definition response_error :: "string \<Rightarrow> approval_decision res" where
  "response_error m = Inl (ValueError m)"

definition only_fields :: "string list \<Rightarrow> (string \<times> json) list \<Rightarrow> bool" where
  "only_fields names response = (set (map fst response) = set names)"

definition validate_elicitation_content ::
    "schema_lib \<Rightarrow> (string \<times> json) list \<Rightarrow> string option \<Rightarrow> unit res" where
  "validate_elicitation_content lib content snapshot =
     (case snapshot of
        None \<Rightarrow> Inr ()
      | Some encoded \<Rightarrow>
          (case schema_from_snapshot encoded of
             Inr decoded \<Rightarrow>
               require (sl_valid lib decoded (JDict content))
                 (ValueError ''Elicitation content does not match the requested form schema.'')
           | Inl e \<Rightarrow> Inl (ValueError ''Elicitation content does not match the requested form schema.'')))"

definition parse_approval_response ::
    "schema_lib \<Rightarrow> approval_request \<Rightarrow> (string \<times> json) list \<Rightarrow> string option \<Rightarrow> approval_decision res" where
  "parse_approval_response lib request response snapshot =
     (let action = map_of response ''action'' in
      case request of
        PermissionRequest r \<Rightarrow>
          if only_fields [''action''] response \<and> action = Some (JStr ''allow'')
          then Inr (PermissionDecision AllowAction)
          else if only_fields [''action''] response \<and> action = Some (JStr ''deny'')
          then Inr (PermissionDecision DenyAction)
          else response_error ''Permission response must contain only action=allow|deny.''
      | ElicitationRequest r \<Rightarrow>
          if action = Some (JStr ''decline'') \<or> action = Some (JStr ''cancel'') then
            (if only_fields [''action''] response
             then Inr (ElicitationDecision
               (if action = Some (JStr ''decline'') then DeclineAction else CancelAction) None)
             else response_error ''Declined or cancelled elicitation must contain only action.'')
          else if action \<noteq> Some (JStr ''accept'')
          then response_error ''Elicitation response action must be accept, decline, or cancel.''
          else if el_mode r = UrlMode then
            (if only_fields [''action''] response then Inr (ElicitationDecision AcceptAction None)
             else response_error ''Accepted URL elicitation must contain only action.'')
          else if \<not> only_fields [''action'', ''content''] response
          then response_error ''Accepted form elicitation must contain action and object content.''
          else
            (case map_of response ''content'' of
               Some (JDict content) \<Rightarrow>
                 res_bind (validate_elicitation_content lib content snapshot) (\<lambda>_.
                 Inr (ElicitationDecision AcceptAction (Some content)))
             | _ \<Rightarrow> Inl (TypeError ''Accepted elicitation content must be an object.'')))"

text \<open>What the supervisor answers when nobody does, and the status it stores for an answer.\<close>

fun default_decision :: "approval_request \<Rightarrow> approval_decision" where
  "default_decision (PermissionRequest r) = PermissionDecision DenyAction"
| "default_decision (ElicitationRequest r) = ElicitationDecision CancelAction None"

fun approval_status :: "approval_decision \<Rightarrow> string" where
  "approval_status (PermissionDecision AllowAction) = ''allowed''"
| "approval_status (PermissionDecision DenyAction) = ''denied''"
| "approval_status (ElicitationDecision AcceptAction c) = ''answered''"
| "approval_status (ElicitationDecision a c) = ''denied''"

section \<open>The copy is exact\<close>

fun node_count :: "json \<Rightarrow> nat" where
  "node_count (JList xs) = Suc (sum_list (map node_count xs))"
| "node_count (JDict d) = Suc (sum_list (map (\<lambda>kv. node_count (snd kv)) d))"
| "node_count _ = 1"

fun schema_fits :: "nat \<Rightarrow> json \<Rightarrow> bool" where
  "schema_fits depth (JList xs) =
     (depth \<le> max_schema_depth \<and> list_all (schema_fits (Suc depth)) xs)"
| "schema_fits depth (JDict d) =
     (depth \<le> max_schema_depth \<and> list_all (\<lambda>kv. length (fst kv) \<le> max_schema_string_chars
        \<and> fst kv \<notin> set schema_references \<and> schema_fits (Suc depth) (snd kv)) d)"
| "schema_fits depth (JStr s) = (depth \<le> max_schema_depth \<and> length s \<le> max_schema_string_chars)"
| "schema_fits depth (JFloat f) = (depth \<le> max_schema_depth \<and> (\<exists>l. f = FiniteFloat l))"
| "schema_fits depth JOpaque = False"
| "schema_fits depth _ = (depth \<le> max_schema_depth)"

lemma node_count_pos: "0 < node_count v"
  by (cases v) simp_all

lemma copy_schema_exact:
  shows "json_wf v \<Longrightarrow> copy_schema v depth b = Inr (b', w) \<longleftrightarrow>
       w = v \<and> b = b' + node_count v \<and> schema_fits depth v"
    and "\<forall>x \<in> set xs. json_wf x \<Longrightarrow> copy_schema_items xs depth b = Inr (b', ws) \<longleftrightarrow>
       ws = xs \<and> b = b' + sum_list (map node_count xs) \<and> list_all (schema_fits depth) xs"
    and "\<forall>kv \<in> set d. json_wf (snd kv) \<Longrightarrow> distinct (map fst (acc @ d)) \<Longrightarrow>
       copy_schema_members d depth b acc = Inr (b', out) \<longleftrightarrow>
       out = acc @ d \<and> b = b' + sum_list (map (\<lambda>kv. node_count (snd kv)) d)
       \<and> list_all (\<lambda>kv. length (fst kv) \<le> max_schema_string_chars
            \<and> fst kv \<notin> set schema_references \<and> schema_fits depth (snd kv)) d"
proof (induction v depth b and xs depth b and d depth b acc
    arbitrary: b' w and b' ws and b' out rule: copy_schema_copy_schema_items_copy_schema_members.induct)
  case (1 v depth b)
  show ?case
  proof (cases "b = 0 \<or> max_schema_depth < depth")
    case True
    then show ?thesis
      using node_count_pos [of v] by (cases v) (auto simp: copy_schema.simps)
  next
    case False
    then obtain k where k: "b = Suc k" by (cases b) simp_all
    with False 1 show ?thesis
      by (cases v) (auto simp: copy_schema.simps res_simps split: pyfloat.splits)
  qed
next
  case (3 x xs depth b)
  then show ?case by (fastforce simp: res_simps)
next
  case (5 key nested d depth b acc)
  then show ?case
    by (auto simp: res_simps assoc_put_new image_iff)
qed auto

text \<open>C31: The copy that a live elicitation schema is reduced to is the schema itself or nothing: it is accepted
  exactly when it is an object of at most 1024 nodes nested at most 16 deep, with no string or key over 4096
  characters, no reference and only finite numbers, and then it is copied unchanged.\<close>

theorem bounded_schema_exact:
  assumes "json_wf v"
  shows "bounded_json_schema v = Inr w \<longleftrightarrow>
     w = v \<and> is_jdict v \<and> node_count v \<le> max_schema_nodes \<and> schema_fits 0 v"
proof -
  have "(\<exists>b'. copy_schema v 0 max_schema_nodes = Inr (b', w)) \<longleftrightarrow>
      w = v \<and> node_count v \<le> max_schema_nodes \<and> schema_fits 0 v"
    unfolding copy_schema_exact(1) [OF assms] by (auto simp: le_iff_add add.commute)
  then show ?thesis by (auto simp: bounded_json_schema_def res_simps)
qed

definition sample_schema :: json where
  "sample_schema = JDict [(''type'', JStr ''object''),
     (''properties'', JDict [(''age'', JDict [(''type'', JStr ''integer'')]), (''name'', JDict [(''type'', JStr ''string'')])]),
     (''required'', JList [JStr ''name''])]"

lemma sample_schema_ok: "json_wf sample_schema" "node_count sample_schema = 9" "schema_fits 0 sample_schema"
    "is_jdict sample_schema"
  by (simp_all add: sample_schema_def max_schema_depth_def max_schema_string_chars_def schema_references_def)

theorem bounded_schema_exact_witness: "bounded_json_schema sample_schema = Inr sample_schema"
  using bounded_schema_exact [OF sample_schema_ok(1), of sample_schema] sample_schema_ok
  by (simp add: max_schema_nodes_def)

text \<open>What a snapshot stands for when it is read back.\<close>

lemma snapshot_reads_back:
  assumes "json_wf v" and "snapshot_elicitation_schema lib (Some v) = Inr (Some t)"
  shows "schema_from_snapshot t = Inr (sort_keys v) \<and> sl_check lib v \<and> is_jdict v"
proof -
  obtain w where w: "bounded_json_schema v = Inr w" "sl_check lib w" "json_dumps True True w = Inr t"
    using assms(2) by (auto simp: snapshot_elicitation_schema_def res_simps split: sum.splits if_splits)
  from w(1) have v: "w = v" "is_jdict v"
    by (auto simp: bounded_json_schema_def res_simps copy_schema_exact(1) [OF assms(1)])
  moreover have "is_jdict (sort_keys v)" using v(2) by (cases v) simp_all
  ultimately show ?thesis
    using w json_wf_jsonable [OF assms(1)] json_roundtrip_sorted [OF assms(1)]
    by (auto simp: schema_from_snapshot_def json_dumps_def)
qed

section \<open>Displays and the store's schema\<close>

lemma split_last_colon_field:
  "CHR '':'' \<notin> set ty \<Longrightarrow> split_last_colon (nm @ '':'' @ ty) = Some (nm, ty)"
  by (simp add: split_last_colon_def takeWhile_append dropWhile_append Let_def)

lemma field_type_listed: "field_type j \<in> set field_types \<and> CHR '':'' \<notin> set (field_type j)"
  by (simp add: field_type_def field_types_def split: option.split json.split)

definition displayable :: "string list \<times> string list \<Rightarrow> bool" where
  "displayable = (\<lambda>(fs, names). length fs \<le> max_display_fields
     \<and> list_all (\<lambda>f. display_field (JStr f)) fs \<and> list_all safe_metadata_text names)"

lemma display_step_ok: "displayable st \<Longrightarrow> displayable (display_step kv st)"
proof -
  assume st: "displayable st"
  obtain fs names where [simp]: "st = (fs, names)" by (cases st)
  obtain nm j where [simp]: "kv = (nm, j)" by (cases kv)
  have "display_field (JStr (nm @ '':'' @ field_type j))" if "safe_metadata_text nm"
    using that field_type_listed [of j] split_last_colon_field [of "field_type j" nm]
    by (simp add: display_field_def)
  with st show ?thesis by (auto simp: displayable_def display_step_def)
qed

lemma display_steps_ok: "displayable st \<Longrightarrow> displayable (fold display_step kvs st)"
  by (induction kvs arbitrary: st) (simp_all add: display_step_ok)

lemma required_names_ok:
  assumes "list_all safe_metadata_text names"
  shows "length (required_names req names) \<le> max_display_fields
     \<and> list_all safe_metadata_text (required_names req names)"
proof (cases "\<exists>items. req = Some (JList items)")
  case True
  then obtain items where r: "req = Some (JList items)" by blast
  have "set (required_names req names) \<subseteq> set names"
    by (auto simp: r required_names_def dest: in_set_takeD)
  with assms show ?thesis by (auto simp: r required_names_def list_all_iff)
qed (auto simp: required_names_def split: option.split json.split)

lemma schema_display_ok:
  assumes "schema_display snapshot = Inr (fs, req)"
  shows "display_fields (jstrings fs) \<and> required_display_fields (jstrings req)"
proof -
  have "length fs \<le> max_display_fields \<and> list_all (\<lambda>f. display_field (JStr f)) fs
      \<and> length req \<le> max_display_fields \<and> list_all safe_metadata_text req"
  proof (cases "fs = [] \<and> req = []")
    case False
    then obtain encoded decoded where "snapshot = Some encoded" and d: "schema_from_snapshot encoded = Inr decoded"
      using assms by (cases snapshot) (auto simp: schema_display_def res_simps)
    with assms have e: "(case jget decoded ''properties'' of
            Some (JDict properties) \<Rightarrow>
              (let (fs, safe_names) = fold display_step (sort_key fst properties) ([], [])
               in Inr (fs, required_names (jget decoded ''required'') safe_names))
          | _ \<Rightarrow> Inr ([], [])) = (Inr (fs, req) :: (string list \<times> string list) res)"
      by (simp add: schema_display_def)
    have "\<exists>properties. jget decoded ''properties'' = Some (JDict properties)"
    proof (cases "jget decoded ''properties''")
      case (Some j)
      with e False show ?thesis by (cases j) simp_all
    qed (use e False in simp)
    then obtain properties names r where
      f: "fold display_step (sort_key fst properties) ([], []) = (fs, names)" and r: "req = required_names r names"
      using e by (auto split: prod.splits)
    have "displayable (fs, names)"
      unfolding f [symmetric] by (rule display_steps_ok) (simp add: displayable_def)
    then show ?thesis using required_names_ok by (simp add: displayable_def r)
  qed simp
  then show ?thesis
    by (simp add: display_fields_def required_display_fields_def jstrings_def list_all_iff max_display_fields_def
        safe_metadata_def)
qed

lemma safe_metadata_JStr [simp]: "safe_metadata (JStr t) = safe_metadata_text t"
  by (simp add: safe_metadata_def)

lemma unknown_server_safe: "safe_metadata_text ''unknown''"
  by code_simp

lemma mode_name_cases: "mode_name m = ''form'' \<or> mode_name m = ''url''"
  by (cases m) simp_all

lemma permission_storable:
  assumes "safe_metadata_text rid" and "safe_metadata_text tool"
    and "agent = [] \<or> (\<exists>a. agent = [(''agent_id'', JStr a)] \<and> safe_metadata_text a)"
  shows "(\<exists>p. validated_payload env ''approval.requested'' (approval_payload
      ([(''request_id'', JStr rid), (''attempt'', JInt n), (''kind'', JStr ''tool_permission''),
        (''tool_name'', JStr tool), (''prompt'', JStr prompt), (''choices'', permission_choices)] @ agent)) = Inr p)
    \<longleftrightarrow> safe_display_value env (JStr prompt)"
proof -
  have wf: "json_wf permission_choices" by (simp add: permission_choices_def jstrings_def)
  from assms(3) show ?thesis
  proof
    assume "agent = []"
    with wf assms(1,2) show ?thesis
      by (simp add: approval_payload_def assoc_pop_def validated_payload_iff)
        (auto simp: event_schemas_def schema_def conforms_def one_of_def invalid_field_def
          approval_choices_def validate_approval_request_shape_def permission_choices_def)
  next
    assume "\<exists>a. agent = [(''agent_id'', JStr a)] \<and> safe_metadata_text a"
    with wf assms(1,2) show ?thesis
      by (elim exE conjE) (simp add: approval_payload_def assoc_pop_def validated_payload_iff,
        auto simp: event_schemas_def schema_def conforms_def one_of_def invalid_field_def
          approval_choices_def validate_approval_request_shape_def permission_choices_def)
  qed
qed

lemma elicitation_storable:
  assumes "safe_metadata_text rid" and "safe_metadata_text server"
    and "fs = [] \<or> (mode = ''form'' \<and> (\<exists>j. fs = [(''fields'', j)] \<and> json_wf j \<and> sort_keys j = j \<and> display_fields j))"
    and "rs = [] \<or> (mode = ''form'' \<and> (\<exists>j. rs = [(''required_fields'', j)] \<and> json_wf j \<and> sort_keys j = j
        \<and> required_display_fields j))"
    and "mode = ''form'' \<or> mode = ''url''"
  shows "(\<exists>p. validated_payload env ''approval.requested'' (approval_payload
      ([(''request_id'', JStr rid), (''attempt'', JInt n), (''kind'', JStr ''elicitation''),
        (''server_name'', JStr server), (''mode'', JStr mode), (''prompt'', JStr prompt),
        (''choices'', elicitation_choices)] @ fs @ rs)) = Inr p)
    \<longleftrightarrow> safe_display_value env (JStr prompt)"
proof -
  have wf: "json_wf elicitation_choices" by (simp add: elicitation_choices_def jstrings_def)
  let ?goal = "\<lambda>fs rs. (\<exists>p. validated_payload env ''approval.requested'' (approval_payload
      ([(''request_id'', JStr rid), (''attempt'', JInt n), (''kind'', JStr ''elicitation''),
        (''server_name'', JStr server), (''mode'', JStr mode), (''prompt'', JStr prompt),
        (''choices'', elicitation_choices)] @ fs @ rs)) = Inr p) \<longleftrightarrow> safe_display_value env (JStr prompt)"
  note defs = event_schemas_def schema_def conforms_def one_of_def invalid_field_def
    approval_choices_def validate_approval_request_shape_def elicitation_choices_def permission_choices_def
  have 1: "?goal [] []"
    using wf assms(1,2,5) by (simp add: approval_payload_def assoc_pop_def validated_payload_iff) (auto simp: defs)
  have 2: "?goal [(''fields'', j)] []" if "json_wf j" "sort_keys j = j" "display_fields j" "mode = ''form''" for j
    using wf assms(1,2) that
    by (simp add: approval_payload_def assoc_pop_def validated_payload_iff) (auto simp: defs)
  have 3: "?goal [] [(''required_fields'', j)]"
    if "json_wf j" "sort_keys j = j" "required_display_fields j" "mode = ''form''" for j
    using wf assms(1,2) that
    by (simp add: approval_payload_def assoc_pop_def validated_payload_iff) (auto simp: defs)
  have 4: "?goal [(''fields'', j)] [(''required_fields'', k)]"
    if "json_wf j" "sort_keys j = j" "display_fields j" "json_wf k" "sort_keys k = k" "required_display_fields k"
      "mode = ''form''" for j k
    using wf assms(1,2) that
    by (simp add: approval_payload_def assoc_pop_def validated_payload_iff) (auto simp: defs)
  show ?thesis using assms(3,4) 1 2 3 4 by fast
qed

lemma jstrings_wf: "json_wf (jstrings ss)" "sort_keys (jstrings ss) = jstrings ss"
  by (induction ss) (simp_all add: jstrings_def)

text \<open>Every display record that the control layer builds fits the schema of the store: of all its fields
  only the prompt can make the store refuse it (it must still look credential-free after it was rendered).
  Nothing else a tool, an agent, a server or an elicitation schema names can.\<close>

lemma display_storable:
  assumes "approval_display env rid n request snapshot = Inr (Some d)" and "safe_metadata_text rid"
  shows "(\<exists>p. validated_payload env ''approval.requested'' (approval_payload d) = Inr p) \<longleftrightarrow>
     (case map_of d ''prompt'' of Some prompt \<Rightarrow> safe_display_value env prompt | None \<Rightarrow> False)"
proof (cases request)
  case (PermissionRequest r)
  define agent where "agent = (case pr_agent_id r of
      Some a \<Rightarrow> if safe_metadata_text a then [(''agent_id'', JStr a)] else [] | None \<Rightarrow> [])"
  have "agent = [] \<or> (\<exists>a. agent = [(''agent_id'', JStr a)] \<and> safe_metadata_text a)"
    by (simp add: agent_def split: option.split)
  moreover have tool: "safe_metadata_text (pr_tool_name r)"
    using assms(1) PermissionRequest by (auto simp: approval_display_def split: if_splits)
  ultimately have "(\<exists>p. validated_payload env ''approval.requested'' (approval_payload
      ([(''request_id'', JStr rid), (''attempt'', JInt (int n)), (''kind'', JStr ''tool_permission''),
        (''tool_name'', JStr (pr_tool_name r)), (''prompt'', JStr prompt), (''choices'', permission_choices)]
       @ agent)) = Inr p) \<longleftrightarrow> safe_display_value env (JStr prompt)" for prompt
    by (intro permission_storable assms(2))
  moreover have "d = [(''request_id'', JStr rid), (''attempt'', JInt (int n)),
      (''kind'', JStr ''tool_permission''), (''tool_name'', JStr (pr_tool_name r)),
      (''prompt'', JStr (''Allow tool '' @ pr_tool_name r @ '' for this turn?'')), (''choices'', permission_choices)]
      @ agent"
    using assms(1) tool by (simp only: PermissionRequest approval_display_def approval_request.case agent_def
        if_False not_True_eq_False sum.inject option.inject)
  ultimately show ?thesis by (simp only:) simp
next
  case (ElicitationRequest r)
  define server where "server = (if safe_metadata_text (el_server_name r) then el_server_name r else ''unknown'')"
  have server: "safe_metadata_text server" using unknown_server_safe by (simp add: server_def)
  obtain fs req where sd: "schema_display snapshot = Inr (fs, req)"
    using assms(1) ElicitationRequest by (auto simp: approval_display_def Let_def res_simps)
  define f where "f = (if el_mode r = FormMode \<and> fs \<noteq> [] then [(''fields'', jstrings fs)] else [])"
  define q where "q = (if el_mode r = FormMode \<and> req \<noteq> [] then [(''required_fields'', jstrings req)] else [])"
  have m: "mode_name (el_mode r) = ''form'' \<or> mode_name (el_mode r) = ''url''" by (rule mode_name_cases)
  have f: "f = [] \<or> (mode_name (el_mode r) = ''form'' \<and> (\<exists>j. f = [(''fields'', j)] \<and> json_wf j \<and> sort_keys j = j
      \<and> display_fields j))"
    using schema_display_ok [OF sd] jstrings_wf by (simp add: f_def)
  have q: "q = [] \<or> (mode_name (el_mode r) = ''form'' \<and> (\<exists>j. q = [(''required_fields'', j)] \<and> json_wf j
      \<and> sort_keys j = j \<and> required_display_fields j))"
    using schema_display_ok [OF sd] jstrings_wf by (simp add: q_def)
  have prompt: "(\<exists>p. validated_payload env ''approval.requested'' (approval_payload
      ([(''request_id'', JStr rid), (''attempt'', JInt (int n)), (''kind'', JStr ''elicitation''),
        (''server_name'', JStr server), (''mode'', JStr (mode_name (el_mode r))), (''prompt'', JStr prompt),
        (''choices'', elicitation_choices)] @ f @ q)) = Inr p) \<longleftrightarrow> safe_display_value env (JStr prompt)" for prompt
    by (rule elicitation_storable [OF assms(2) server f q m])
  define shown where "shown = (if safe_display_text env (el_display_message r) = []
      then ''Input requested by '' @ server @ ''.'' else safe_display_text env (el_display_message r))"
  have "d = [(''request_id'', JStr rid), (''attempt'', JInt (int n)), (''kind'', JStr ''elicitation''),
        (''server_name'', JStr server), (''mode'', JStr (mode_name (el_mode r))), (''prompt'', JStr shown),
        (''choices'', elicitation_choices)] @ f @ q"
    using assms(1) sd by (simp add: ElicitationRequest approval_display_def Let_def server_def [symmetric]
        f_def [symmetric] q_def [symmetric] shown_def)
  then show ?thesis using prompt [of shown] by (simp only:) simp
qed

definition sample_tool :: approval_request where
  "sample_tool = PermissionRequest \<lparr>pr_tool_name = ''w'', pr_agent_id = None, pr_display_message = []\<rparr>"

section \<open>Responses fit their requests\<close>

text \<open>A response is parsed into a decision of the kind that was asked for, and only into one: permission is
  granted only by a response whose one field is \<open>action = allow\<close>; an elicitation is accepted with content
  only in form mode, by a response with exactly \<open>action\<close> and \<open>content\<close>, when the content is an object that is
  valid for the schema the live request carried. Refusals carry no content.\<close>

lemma response_fits_request:
  assumes "parse_approval_response lib request response snapshot = Inr decision"
  shows "case request of
      PermissionRequest r \<Rightarrow> \<exists>a. decision = PermissionDecision a \<and> set (map fst response) = {''action''}
        \<and> map_of response ''action'' = Some (JStr (case a of AllowAction \<Rightarrow> ''allow'' | DenyAction \<Rightarrow> ''deny''))
    | ElicitationRequest r \<Rightarrow>
        (\<exists>a. decision = ElicitationDecision a None \<and> set (map fst response) = {''action''}
          \<and> map_of response ''action'' = Some (JStr (case a of AcceptAction \<Rightarrow> ''accept'' | DeclineAction \<Rightarrow> ''decline''
               | CancelAction \<Rightarrow> ''cancel''))
          \<and> (if a = AcceptAction then el_mode r = UrlMode else True))
        \<or> (\<exists>content. decision = ElicitationDecision AcceptAction (Some content) \<and> el_mode r = FormMode
          \<and> set (map fst response) = {''action'', ''content''}
          \<and> map_of response ''action'' = Some (JStr ''accept'')
          \<and> map_of response ''content'' = Some (JDict content)
          \<and> (case snapshot of None \<Rightarrow> True | Some t \<Rightarrow>
               (case schema_from_snapshot t of Inr sch \<Rightarrow> sl_valid lib sch (JDict content) | Inl e \<Rightarrow> False)))"
proof (cases request)
  case (PermissionRequest r)
  with assms have "only_fields [''action''] response
      \<and> ((map_of response ''action'' = Some (JStr ''allow'') \<and> decision = PermissionDecision AllowAction)
        \<or> (map_of response ''action'' = Some (JStr ''deny'') \<and> decision = PermissionDecision DenyAction))"
    by (simp add: parse_approval_response_def Let_def response_error_def split: if_splits)
  then show ?thesis
    by (elim conjE disjE) (simp_all add: PermissionRequest only_fields_def)
next
  case (ElicitationRequest r)
  show ?thesis
  proof (cases "map_of response ''action'' = Some (JStr ''decline'') \<or> map_of response ''action'' = Some (JStr ''cancel'')")
    case True
    with assms ElicitationRequest have "only_fields [''action''] response
        \<and> decision = ElicitationDecision
          (if map_of response ''action'' = Some (JStr ''decline'') then DeclineAction else CancelAction) None"
      by (simp add: parse_approval_response_def Let_def response_error_def split: if_splits)
    with True show ?thesis
      by (elim disjE) (simp_all add: ElicitationRequest only_fields_def)
  next
    case no: False
    with assms ElicitationRequest have a: "map_of response ''action'' = Some (JStr ''accept'')"
      by (auto simp: parse_approval_response_def Let_def response_error_def split: if_splits)
    show ?thesis
    proof (cases "el_mode r")
      case UrlMode
      with a assms ElicitationRequest
      have "only_fields [''action''] response \<and> decision = ElicitationDecision AcceptAction None"
        by (simp add: parse_approval_response_def Let_def response_error_def split: if_splits)
      with a UrlMode show ?thesis by (simp add: ElicitationRequest only_fields_def)
    next
      case FormMode
      with a assms ElicitationRequest have o: "only_fields [''action'', ''content''] response"
        by (simp add: parse_approval_response_def Let_def response_error_def split: if_splits)
      then have c: "(case map_of response ''content'' of
               Some (JDict content) \<Rightarrow>
                 res_bind (validate_elicitation_content lib content snapshot) (\<lambda>_.
                 Inr (ElicitationDecision AcceptAction (Some content)))
             | _ \<Rightarrow> Inl (TypeError ''Accepted elicitation content must be an object.'')) = Inr decision"
        using a FormMode assms ElicitationRequest by (simp add: parse_approval_response_def)
      then obtain content where "map_of response ''content'' = Some (JDict content)"
        by (cases "map_of response ''content''") (auto split: json.splits)
      with c o a FormMode ElicitationRequest show ?thesis
        by (auto simp: only_fields_def res_simps validate_elicitation_content_def split: option.splits sum.splits)
    qed
  qed
qed

definition accept_all :: schema_lib where
  "accept_all = \<lparr>sl_check = (\<lambda>s. True), sl_valid = (\<lambda>s c. True)\<rparr>"

end
