(* ===== verification/Config.thy ===== *)
theory Config
  imports Redaction Json
begin

text \<open>
  The closed user and project configuration, \<open>src/qworker/config.py\<close>.

  A configuration file is what the operating system and \<open>tomllib\<close> make of it: absent, not
  readable, of a size, decoded or not. A decoded table is a dictionary; TOML values that are not
  JSON (dates and times) are \<open>JOpaque\<close>. \<open>Path.expanduser\<close>, which reads the user database and
  can raise, is an argument.
\<close>

section \<open>Files\<close>

datatype config_file =
    NoFile
  | StatFailed
  | ConfigFile nat "(string \<times> json) list option"

definition max_config_bytes :: nat where
  "max_config_bytes = 1024 * 1024"

type_synonym toml = "(string \<times> json) list"

definition read_toml :: "config_file \<Rightarrow> string \<Rightarrow> toml res" where
  "read_toml file label =
     (case file of
        NoFile \<Rightarrow> Inr []
      | StatFailed \<Rightarrow> Inl (ConfigError (''Unable to read '' @ map to_lower label @ '' configuration.''))
      | ConfigFile bytes content \<Rightarrow>
          if max_config_bytes < bytes
          then Inl (ConfigError (label @ '' configuration exceeds the size limit.''))
          else (case content of
              None \<Rightarrow> Inl (ConfigError (label @ '' configuration is invalid TOML.''))
            | Some decoded \<Rightarrow> Inr decoded))"

section \<open>Policies\<close>

datatype permission_mode = DontAsk | DefaultMode | AcceptEdits

fun permission_name :: "permission_mode \<Rightarrow> string" where
  "permission_name DontAsk = ''dontAsk''"
| "permission_name DefaultMode = ''default''"
| "permission_name AcceptEdits = ''acceptEdits''"

fun permission_rank :: "permission_mode \<Rightarrow> nat" where
  "permission_rank DontAsk = 0"
| "permission_rank DefaultMode = 1"
| "permission_rank AcceptEdits = 2"

definition permission_of_name :: "string \<Rightarrow> permission_mode option" where
  "permission_of_name n = find (\<lambda>m. permission_name m = n) [DontAsk, DefaultMode, AcceptEdits]"

definition policy_fields :: "string list" where
  "policy_fields = [''proactive_auditor'', ''proactive_coder'', ''coder_permission_mode'',
     ''coder_denied_tools'', ''auditor_web_access'']"

record policy_config =
  proactive_auditor :: bool
  proactive_coder :: bool
  coder_permission_mode :: permission_mode
  coder_denied_tools :: "string list"
  auditor_web_access :: bool

definition default_policy :: policy_config where
  "default_policy = \<lparr>proactive_auditor = True, proactive_coder = False, coder_permission_mode = AcceptEdits,
     coder_denied_tools = [], auditor_web_access = True\<rparr>"

record effective_config =
  cfg_runtime_path :: "string option"
  cfg_service_account_env :: "string option"
  cfg_reuse_qodercli_auth :: bool
  cfg_allow_project_expansion :: bool
  cfg_policy :: policy_config

section \<open>Fields\<close>

definition unknown_fields :: "toml \<Rightarrow> string list \<Rightarrow> bool" where
  "unknown_fields t allowed = list_ex (\<lambda>kv. fst kv \<notin> set allowed) t"

definition get_table :: "toml \<Rightarrow> string \<Rightarrow> string \<Rightarrow> toml res" where
  "get_table data name label =
     (case map_of data name of
        None \<Rightarrow> Inr []
      | Some (JDict d) \<Rightarrow> Inr d
      | Some _ \<Rightarrow> Inl (ConfigError (label @ '' ['' @ name @ ''] must be a table.'')))"

definition optional_boolean :: "toml \<Rightarrow> string \<Rightarrow> bool \<Rightarrow> string \<Rightarrow> bool res" where
  "optional_boolean values field dflt qualified =
     (case map_of values field of
        None \<Rightarrow> Inr dflt
      | Some (JBool b) \<Rightarrow> Inr b
      | Some _ \<Rightarrow> Inl (ConfigError (qualified @ '' must be a boolean.'')))"

definition config_string :: "json \<Rightarrow> string \<Rightarrow> string res" where
  "config_string v qualified =
     (case v of
        JStr s \<Rightarrow> if s = [] then Inl (ConfigError (qualified @ '' must be a non-empty string.'')) else Inr s
      | _ \<Rightarrow> Inl (ConfigError (qualified @ '' must be a non-empty string.'')))"

definition tool_names :: "json \<Rightarrow> string list res" where
  "tool_names v =
     (case jstr_list v of
        Some items \<Rightarrow>
          if list_all (\<lambda>s. s \<noteq> [] \<and> length s \<le> 128) items then Inr (sort (remdups items))
          else Inl (ConfigError ''policy.coder_denied_tools must be an array of non-empty tool names.'')
      | None \<Rightarrow> Inl (ConfigError ''policy.coder_denied_tools must be an array of non-empty tool names.''))"

definition environment_name :: "string \<Rightarrow> bool" where
  "environment_name s =
     (case s of [] \<Rightarrow> False
      | c # t \<Rightarrow> (is_upper c \<or> is_lower c \<or> c = CHR ''_'') \<and> list_all (alnum_or ''_'') t)"

section \<open>Applying a policy\<close>

definition apply_policy :: "policy_config \<Rightarrow> toml \<Rightarrow> policy_config res" where
  "apply_policy base values =
     res_bind (case map_of values ''coder_permission_mode'' of
         None \<Rightarrow> Inr (coder_permission_mode base)
       | Some v \<Rightarrow>
           res_bind (config_string v ''policy.coder_permission_mode'') (\<lambda>raw.
           case permission_of_name raw of
             Some m \<Rightarrow> Inr m
           | None \<Rightarrow> Inl (ConfigError
               ''policy.coder_permission_mode must be dontAsk, default, or acceptEdits.''))) (\<lambda>mode.
     res_bind (case map_of values ''coder_denied_tools'' of
         None \<Rightarrow> Inr (coder_denied_tools base)
       | Some v \<Rightarrow> tool_names v) (\<lambda>denied.
     res_bind (optional_boolean values ''proactive_auditor'' (proactive_auditor base)
         ''policy.proactive_auditor'') (\<lambda>auditor.
     res_bind (optional_boolean values ''proactive_coder'' (proactive_coder base)
         ''policy.proactive_coder'') (\<lambda>coder.
     res_bind (optional_boolean values ''auditor_web_access'' (auditor_web_access base)
         ''policy.auditor_web_access'') (\<lambda>web.
     Inr \<lparr>proactive_auditor = auditor, proactive_coder = coder, coder_permission_mode = mode,
       coder_denied_tools = denied, auditor_web_access = web\<rparr>)))))"

definition expanded_policy_field :: "policy_config \<Rightarrow> policy_config \<Rightarrow> string option" where
  "expanded_policy_field current candidate =
     (if \<not> proactive_auditor current \<and> proactive_auditor candidate then Some ''proactive_auditor''
      else if \<not> proactive_coder current \<and> proactive_coder candidate then Some ''proactive_coder''
      else if \<not> auditor_web_access current \<and> auditor_web_access candidate then Some ''auditor_web_access''
      else if permission_rank (coder_permission_mode candidate) > permission_rank (coder_permission_mode current)
      then Some ''coder_permission_mode''
      else if \<not> list_all (\<lambda>t. t \<in> set (coder_denied_tools candidate)) (coder_denied_tools current)
      then Some ''coder_denied_tools''
      else None)"

definition apply_project_policy :: "effective_config \<Rightarrow> toml \<Rightarrow> policy_config res" where
  "apply_project_policy config values =
     res_bind (apply_policy (cfg_policy config) values) (\<lambda>candidate.
     if cfg_allow_project_expansion config then Inr candidate
     else (case expanded_policy_field (cfg_policy config) candidate of
         Some changed \<Rightarrow> Inl (ConfigError (''Project configuration expands policy field '' @ [CHR 0x27] @ changed
           @ [CHR 0x27] @ ''; user configuration must set project.allow_expansion = true.''))
       | None \<Rightarrow> Inr candidate))"

section \<open>Loading\<close>

definition parse_user_config :: "(string \<Rightarrow> string res) \<Rightarrow> toml \<Rightarrow> effective_config res" where
  "parse_user_config expanduser data =
     (if unknown_fields data [''project'', ''runtime'', ''auth'', ''policy'']
      then Inl (ConfigError ''User configuration contains an unknown table.'')
      else
        res_bind (get_table data ''project'' ''User'') (\<lambda>project.
        res_bind (get_table data ''runtime'' ''User'') (\<lambda>runtime.
        res_bind (get_table data ''auth'' ''User'') (\<lambda>auth.
        res_bind (get_table data ''policy'' ''User'') (\<lambda>policy.
        if unknown_fields project [''allow_expansion'']
        then Inl (ConfigError ''User [project] contains an unknown field.'')
        else if unknown_fields runtime [''path'']
        then Inl (ConfigError ''User [runtime] contains an unknown field.'')
        else if unknown_fields auth [''service_account_env'', ''reuse_qodercli'']
        then Inl (ConfigError ''User [auth] contains an unknown field.'')
        else if unknown_fields policy policy_fields
        then Inl (ConfigError ''User [policy] contains an unknown field.'')
        else
          res_bind (case map_of runtime ''path'' of
              None \<Rightarrow> Inr None
            | Some v \<Rightarrow>
                res_bind (config_string v ''runtime.path'') (\<lambda>raw.
                res_bind (expanduser raw) (\<lambda>p.
                if starts_with ''/'' p then Inr (Some p)
                else Inl (ConfigError ''runtime.path must be absolute.'')))) (\<lambda>path.
          res_bind (case map_of auth ''service_account_env'' of
              None \<Rightarrow> Inr None
            | Some v \<Rightarrow>
                res_bind (config_string v ''auth.service_account_env'') (\<lambda>name.
                if environment_name name then Inr (Some name)
                else Inl (ConfigError ''auth.service_account_env must be an environment name.''))) (\<lambda>account.
          res_bind (optional_boolean auth ''reuse_qodercli'' False ''auth.reuse_qodercli'') (\<lambda>reuse.
          res_bind (optional_boolean project ''allow_expansion'' False ''project.allow_expansion'') (\<lambda>expansion.
          res_bind (apply_policy default_policy policy) (\<lambda>p.
          Inr \<lparr>cfg_runtime_path = path, cfg_service_account_env = account, cfg_reuse_qodercli_auth = reuse,
            cfg_allow_project_expansion = expansion, cfg_policy = p\<rparr>))))))))))"

definition load_config :: "(string \<Rightarrow> string res) \<Rightarrow> config_file \<Rightarrow> config_file \<Rightarrow> effective_config res" where
  "load_config expanduser user_file project_file =
     res_bind (read_toml user_file ''User'') (\<lambda>user_data.
     res_bind (parse_user_config expanduser user_data) (\<lambda>config.
     res_bind (read_toml project_file ''Project'') (\<lambda>project_data.
     if project_data = [] then Inr config
     else if unknown_fields project_data [''policy'']
     then Inl (ConfigError ''Project configuration may only contain [policy].'')
     else
       res_bind (get_table project_data ''policy'' ''Project'') (\<lambda>project_policy.
       if unknown_fields project_policy policy_fields
       then Inl (ConfigError ''Project [policy] contains an unknown field.'')
       else
         res_bind (apply_project_policy config project_policy) (\<lambda>policy.
         Inr (config\<lparr>cfg_policy := policy\<rparr>))))))"

section \<open>A project only narrows\<close>

text \<open>The order in which a policy grants no more than another.\<close>

definition narrower :: "policy_config \<Rightarrow> policy_config \<Rightarrow> bool" where
  "narrower p q \<longleftrightarrow>
     (proactive_auditor p \<le> proactive_auditor q) \<and> (proactive_coder p \<le> proactive_coder q)
     \<and> (auditor_web_access p \<le> auditor_web_access q)
     \<and> permission_rank (coder_permission_mode p) \<le> permission_rank (coder_permission_mode q)
     \<and> set (coder_denied_tools q) \<subseteq> set (coder_denied_tools p)"

lemma narrower_refl: "narrower p p"
  by (simp add: narrower_def)

lemma narrower_trans: "narrower p q \<Longrightarrow> narrower q r \<Longrightarrow> narrower p r"
  by (auto simp: narrower_def)

lemma expanded_None: "expanded_policy_field current candidate = None \<longleftrightarrow> narrower candidate current"
  by (auto simp: expanded_policy_field_def narrower_def list_all_iff)

lemma apply_project_policy_iff:
  "apply_project_policy config values = Inr p \<longleftrightarrow> apply_policy (cfg_policy config) values = Inr p
     \<and> (cfg_allow_project_expansion config \<or> narrower p (cfg_policy config))"
  by (auto simp: apply_project_policy_def res_simps expanded_None [symmetric] split: option.splits)

text \<open>A project's configuration file can change nothing but the policy, and unless the user allowed
  expansion it can only narrow it: no proactive flag or web access turned on, no higher permission mode, no
  tool removed from the denied ones. Runtime, credentials and the permission to expand are the user's.\<close>

lemma project_only_narrows:
  assumes "load_config expanduser user_file NoFile = Inr user"
    and "load_config expanduser user_file project_file = Inr config"
  shows "config\<lparr>cfg_policy := cfg_policy user\<rparr> = user
     \<and> (if cfg_allow_project_expansion user then True else narrower (cfg_policy config) (cfg_policy user))"
proof -
  have u: "res_bind (read_toml user_file ''User'') (parse_user_config expanduser) = Inr user"
    using assms(1) by (auto simp: load_config_def res_simps read_toml_def)
  with assms(2) show ?thesis
    by (auto simp: load_config_def res_simps apply_project_policy_iff narrower_refl split: if_splits)
qed

section \<open>Failures\<close>

named_theorems loader_intros \<open>where the exceptions of the parts of the loader come from\<close>

definition loader_failure :: "(string \<Rightarrow> string res) \<Rightarrow> 'a res \<Rightarrow> bool" where
  "loader_failure ex r \<longleftrightarrow> (\<forall>e. r = Inl e \<longrightarrow> (\<exists>m. e = ConfigError m) \<or> (\<exists>raw. ex raw = Inl e))"

lemma loader_failure_simps [simp]:
  "loader_failure ex (Inr x)" "loader_failure ex (Inl (ConfigError m))" "loader_failure ex (ex raw)"
  by (auto simp: loader_failure_def)

lemma loader_failure_bind [loader_intros]:
  "loader_failure ex r \<Longrightarrow> (\<And>x. loader_failure ex (f x)) \<Longrightarrow> loader_failure ex (res_bind r f)"
  by (cases r) (simp_all add: loader_failure_def)

lemma loader_failure_parts [simp]:
  "loader_failure ex (read_toml f l)" "loader_failure ex (get_table t n l)"
  "loader_failure ex (optional_boolean vs g d q)" "loader_failure ex (config_string v q)"
  "loader_failure ex (tool_names v)"
  by (simp_all add: read_toml_def get_table_def optional_boolean_def config_string_def tool_names_def
      split: config_file.split option.split json.split)

lemma apply_policy_failure [simp]: "loader_failure ex (apply_policy base vs)"
  unfolding apply_policy_def by (auto intro!: loader_intros split: option.split)

lemma apply_project_policy_failure [simp]: "loader_failure ex (apply_project_policy config vs)"
  unfolding apply_project_policy_def by (auto intro!: loader_intros split: option.split)

lemma parse_user_config_failure [simp]: "loader_failure ex (parse_user_config ex data)"
  unfolding parse_user_config_def by (auto intro!: loader_intros split: option.split)

text \<open>Loading a configuration fails only with a \<open>ConfigError\<close>, whatever the two files contain, except
  for what \<open>Path.expanduser\<close> itself raises on the configured runtime path.\<close>

lemma load_config_failures:
  assumes "load_config expanduser user_file project_file = Inl e"
  shows "(\<exists>m. e = ConfigError m) \<or> (\<exists>raw. expanduser raw = Inl e)"
proof -
  have "loader_failure expanduser (load_config expanduser user_file project_file)"
    unfolding load_config_def by (auto intro!: loader_intros)
  with assms show ?thesis by (simp add: loader_failure_def)
qed

end
