(* ===== verification/Preflight.thy ===== *)
theory Preflight
  imports Config
begin

text \<open>
  Runtime and authentication preflight, \<open>src/qworker/preflight.py\<close>.

  The backend (the SDK adapter in the program) is a record of its four calls; each returns a value
  or the exception that leaves it. \<open>except Exception\<close> catches everything but a cancellation.
\<close>

section \<open>Records\<close>

datatype auth_source = PersonalAccessToken | ServiceAccount | QoderCli

fun source_name :: "auth_source \<Rightarrow> string" where
  "source_name PersonalAccessToken = ''personal_access_token''"
| "source_name ServiceAccount = ''service_account''"
| "source_name QoderCli = ''qodercli''"

record auth_selection =
  au_source :: auth_source
  au_env_var :: "string option"

record runtime_info =
  rt_recorded_path :: string
  rt_executable :: string
  rt_version :: string

record preflight_diagnostic =
  pd_code :: string
  pd_message :: string

record doctor_result =
  dr_ok :: bool
  dr_sdk_version :: "string option"
  dr_runtime_path :: "string option"
  dr_runtime_version :: "string option"
  dr_auth_source :: "auth_source option"
  dr_capabilities :: "string list"
  dr_warnings :: "string list"
  dr_error :: "preflight_diagnostic option"

record backend =
  b_sdk_version :: "string res"
  b_resolve_runtime :: "string option \<Rightarrow> runtime_info res"
  b_initialize :: "string \<Rightarrow> runtime_info \<Rightarrow> auth_selection \<Rightarrow> string list res"
  b_local_login_status :: "runtime_info \<Rightarrow> bool res"

definition doctor_json :: "doctor_result \<Rightarrow> json" where
  "doctor_json d = JDict
     ([(''ok'', JBool (dr_ok d)), (''sdk_version'', opt_json (dr_sdk_version d)),
       (''runtime'', (case dr_runtime_path d of
          None \<Rightarrow> JNull
        | Some p \<Rightarrow> JDict [(''path'', JStr p), (''version'', opt_json (dr_runtime_version d))])),
       (''auth'', (case dr_auth_source d of
          None \<Rightarrow> JNull | Some a \<Rightarrow> JDict [(''source'', JStr (source_name a))])),
       (''capabilities'', jstrings (dr_capabilities d)), (''warnings'', jstrings (dr_warnings d))]
      @ (case dr_error d of
           None \<Rightarrow> []
         | Some e \<Rightarrow> [(''error'', JDict [(''code'', JStr (pd_code e)), (''message'', JStr (pd_message e))])]))"

section \<open>Fixed diagnostics\<close>

definition max_diagnostic_chars :: nat where
  "max_diagnostic_chars = 512"

definition bounded_diagnostic_message :: "string \<Rightarrow> string" where
  "bounded_diagnostic_message m =
     (if length m \<le> max_diagnostic_chars then m else take (max_diagnostic_chars - 3) m @ ''...'')"

definition preflight_diagnostics :: "(string \<times> string) list" where
  "preflight_diagnostics =
     [(''auth_required'', ''Qoder authentication is required.''),
      (''initialize_timeout'', ''Qoder control initialization timed out.''),
      (''invalid_request'', ''Qoder preflight configuration is invalid.''),
      (''runtime_not_found'', ''Qoder runtime was not found.''),
      (''runtime_incompatible'', ''Qoder runtime is incompatible.''),
      (''sdk_protocol_error'', ''Qoder control initialization failed.'')]"

definition safe_preflight_failure :: "string \<Rightarrow> preflight_diagnostic" where
  "safe_preflight_failure code =
     (let code = (if code \<in> set (map fst preflight_diagnostics) then code else ''sdk_protocol_error'')
      in \<lparr>pd_code = code, pd_message = the (map_of preflight_diagnostics code)\<rparr>)"

definition normalize_server_capabilities :: "string list \<Rightarrow> string list" where
  "normalize_server_capabilities caps = sort (remdups (filter (\<lambda>c. c = ''modelPolicy'') caps))"

definition auth_reuse_failed :: string where
  "auth_reuse_failed = ''qodercli_auth_reuse_failed''"

definition normalize_preflight_warnings :: "string list \<Rightarrow> string list" where
  "normalize_preflight_warnings ws = (if auth_reuse_failed \<in> set ws then [auth_reuse_failed] else [])"

definition failed_result ::
    "string \<Rightarrow> string \<Rightarrow> string option \<Rightarrow> runtime_info option \<Rightarrow> auth_selection option \<Rightarrow> string list \<Rightarrow> doctor_result"
where
  "failed_result code message sdk runtime auth ws =
     \<lparr>dr_ok = False, dr_sdk_version = sdk, dr_runtime_path = map_option rt_recorded_path runtime,
      dr_runtime_version = map_option rt_version runtime, dr_auth_source = map_option au_source auth,
      dr_capabilities = [], dr_warnings = ws,
      dr_error = Some \<lparr>pd_code = code, pd_message = bounded_diagnostic_message message\<rparr>\<rparr>"

section \<open>Authentication\<close>

definition pat_variable :: string where
  "pat_variable = ''QODER_PERSONAL_ACCESS_TOKEN''"

definition select_auth :: "effective_config \<Rightarrow> environ \<Rightarrow> auth_selection res" where
  "select_auth config env =
     (if env pat_variable \<notin> {None, Some []} then Inr \<lparr>au_source = PersonalAccessToken, au_env_var = Some pat_variable\<rparr>
      else (case cfg_service_account_env config of
          Some v \<Rightarrow> Inr \<lparr>au_source = ServiceAccount, au_env_var = Some v\<rparr>
        | None \<Rightarrow>
            if cfg_reuse_qodercli_auth config then Inr \<lparr>au_source = QoderCli, au_env_var = None\<rparr>
            else Inl (PreflightFailure ''auth_required''
              (''Set QODER_PERSONAL_ACCESS_TOKEN, configure a service-account environment ''
               @ ''variable, or enable qodercli auth reuse.''))))"

section \<open>The run\<close>

definition safe_failed ::
    "string \<Rightarrow> string \<Rightarrow> runtime_info option \<Rightarrow> auth_selection option \<Rightarrow> string list \<Rightarrow> doctor_result" where
  "safe_failed code sdk runtime auth ws =
     (let d = safe_preflight_failure code in failed_result (pd_code d) (pd_message d) (Some sdk) runtime auth ws)"

definition preflight_initialize ::
    "backend \<Rightarrow> string \<Rightarrow> string \<Rightarrow> runtime_info \<Rightarrow> auth_selection \<Rightarrow> doctor_result res" where
  "preflight_initialize b cwd sdk runtime auth =
     (case b_initialize b cwd runtime auth of
        Inr caps \<Rightarrow> Inr \<lparr>dr_ok = True, dr_sdk_version = Some sdk,
          dr_runtime_path = Some (rt_recorded_path runtime), dr_runtime_version = Some (rt_version runtime),
          dr_auth_source = Some (au_source auth), dr_capabilities = normalize_server_capabilities caps,
          dr_warnings = [], dr_error = None\<rparr>
      | Inl (PreflightFailure code m) \<Rightarrow>
          if au_source auth = QoderCli \<and> pd_code (safe_preflight_failure code) = ''initialize_timeout''
          then (case b_local_login_status b runtime of
              Inr ok \<Rightarrow> Inr (safe_failed code sdk (Some runtime) (Some auth) (if ok then [auth_reuse_failed] else []))
            | Inl e \<Rightarrow>
                if e = CancelledError then Inl e else Inr (safe_failed code sdk (Some runtime) (Some auth) []))
          else Inr (safe_failed code sdk (Some runtime) (Some auth) [])
      | Inl e \<Rightarrow>
          if e = CancelledError then Inl e
          else Inr (failed_result ''sdk_protocol_error'' ''Qoder control initialization failed.''
            (Some sdk) (Some runtime) (Some auth) []))"

definition preflight_run ::
    "backend \<Rightarrow> effective_config res \<Rightarrow> environ \<Rightarrow> string \<Rightarrow> doctor_result res" where
  "preflight_run b loaded env cwd =
     (case b_sdk_version b of
        Inl e \<Rightarrow>
          if e = CancelledError then Inl e
          else Inr (failed_result ''sdk_protocol_error'' ''Unable to import Qoder SDK.'' None None None [])
      | Inr sdk \<Rightarrow>
          (case loaded of
             Inl (ConfigError m) \<Rightarrow> Inr (failed_result ''invalid_request'' m (Some sdk) None None [])
           | Inl e \<Rightarrow> Inl e
           | Inr config \<Rightarrow>
               (case b_resolve_runtime b (cfg_runtime_path config) of
                  Inl (PreflightFailure code m) \<Rightarrow> Inr (safe_failed code sdk None None [])
                | Inl e \<Rightarrow>
                    if e = CancelledError then Inl e
                    else Inr (failed_result ''sdk_protocol_error'' ''Unable to resolve Qoder runtime.''
                      (Some sdk) None None [])
                | Inr runtime \<Rightarrow>
                    (case select_auth config env of
                       Inl (PreflightFailure code m) \<Rightarrow> Inr (safe_failed code sdk (Some runtime) None [])
                     | Inl e \<Rightarrow> Inl e
                     | Inr auth \<Rightarrow> preflight_initialize b cwd sdk runtime auth))))"

section \<open>What a preflight reports\<close>

definition fixed_messages :: "(string \<times> string) list" where
  "fixed_messages = preflight_diagnostics
     @ [(''sdk_protocol_error'', ''Unable to import Qoder SDK.''),
        (''sdk_protocol_error'', ''Unable to resolve Qoder runtime.'')]"

lemma safe_preflight_failure_fixed:
  "(pd_code (safe_preflight_failure c), pd_message (safe_preflight_failure c)) \<in> set preflight_diagnostics"
proof -
  have "\<exists>m. map_of preflight_diagnostics k = Some m \<and> (k, m) \<in> set preflight_diagnostics"
    if "k \<in> set (map fst preflight_diagnostics)" for k
    using that by (metis map_of_SomeD map_of_eq_None_iff not_None_eq set_map)
  moreover have "''sdk_protocol_error'' \<in> set (map fst preflight_diagnostics)"
    by (simp add: preflight_diagnostics_def)
  ultimately show ?thesis by (fastforce simp: safe_preflight_failure_def Let_def)
qed

lemma fixed_messages_short: "(c, m) \<in> set fixed_messages \<Longrightarrow> bounded_diagnostic_message m = m"
  by (auto simp: fixed_messages_def preflight_diagnostics_def bounded_diagnostic_message_def max_diagnostic_chars_def)

definition reported :: "effective_config res \<Rightarrow> doctor_result \<Rightarrow> bool" where
  "reported loaded d \<longleftrightarrow> \<not> dr_ok d \<and> dr_capabilities d = []
     \<and> (\<exists>e. dr_error d = Some e \<and> length (pd_message e) \<le> max_diagnostic_chars
        \<and> ((pd_code e, pd_message e) \<in> set fixed_messages
           \<or> (\<exists>m. loaded = Inl (ConfigError m) \<and> pd_code e = ''invalid_request''
                \<and> pd_message e = bounded_diagnostic_message m)))"

lemma bounded_length: "length (bounded_diagnostic_message m) \<le> max_diagnostic_chars"
  by (simp add: bounded_diagnostic_message_def max_diagnostic_chars_def)

lemma failed_reported:
  "(c, m) \<in> set fixed_messages \<Longrightarrow> reported loaded (failed_result c m sdk rt au ws)"
  using bounded_length [of m] fixed_messages_short [of c m] by (simp add: reported_def failed_result_def)

lemma safe_failed_reported: "reported loaded (safe_failed c sdk rt au ws)"
proof -
  have "(pd_code (safe_preflight_failure c), pd_message (safe_preflight_failure c)) \<in> set fixed_messages"
    using safe_preflight_failure_fixed [of c] by (simp add: fixed_messages_def)
  then show ?thesis by (simp add: safe_failed_def Let_def failed_reported)
qed

lemma config_reported:
  "loaded = Inl (ConfigError m) \<Longrightarrow> reported loaded (failed_result ''invalid_request'' m sdk rt au ws)"
  using bounded_length [of m] by (auto simp: reported_def failed_result_def)

lemma own_messages:
  "(''sdk_protocol_error'', ''Qoder control initialization failed.'') \<in> set fixed_messages"
  "(''sdk_protocol_error'', ''Unable to import Qoder SDK.'') \<in> set fixed_messages"
  "(''sdk_protocol_error'', ''Unable to resolve Qoder runtime.'') \<in> set fixed_messages"
  by (simp_all add: fixed_messages_def preflight_diagnostics_def)

lemma initialize_outcome:
  assumes "preflight_initialize b cwd sdk rt au = Inr d"
  shows "(dr_ok d \<and> (\<exists>caps. b_initialize b cwd rt au = Inr caps \<and> dr_sdk_version d = Some sdk
       \<and> dr_runtime_path d = Some (rt_recorded_path rt) \<and> dr_auth_source d = Some (au_source au)
       \<and> dr_runtime_version d = Some (rt_version rt) \<and> dr_capabilities d = normalize_server_capabilities caps \<and> dr_warnings d = [] \<and> dr_error d = None))
     \<or> reported loaded d"
proof (cases "b_initialize b cwd rt au")
  case (Inl e)
  with assms own_messages show ?thesis
    by (cases e) (auto simp: preflight_initialize_def safe_failed_reported failed_reported
        split: if_splits sum.splits)
qed (use assms in \<open>auto simp: preflight_initialize_def\<close>)

text \<open>A preflight succeeds only when the SDK imports, the configuration loads, the runtime resolves, an
  authentication is selected and the control connection initializes, in that order, and then reports that
  runtime, that source and the allowlisted capabilities. Otherwise its diagnostic is one of the fixed ones,
  or the text of the configuration error cut to 512 characters: nothing the backend says is shown.\<close>

lemma preflight_reports_fixed:
  assumes "preflight_run b loaded env cwd = Inr d"
  shows "(dr_ok d \<and> (\<exists>sdk config rt au caps. b_sdk_version b = Inr sdk \<and> loaded = Inr config
       \<and> b_resolve_runtime b (cfg_runtime_path config) = Inr rt \<and> select_auth config env = Inr au
       \<and> b_initialize b cwd rt au = Inr caps \<and> dr_sdk_version d = Some sdk
       \<and> dr_runtime_path d = Some (rt_recorded_path rt) \<and> dr_auth_source d = Some (au_source au)
       \<and> dr_runtime_version d = Some (rt_version rt) \<and> dr_capabilities d = normalize_server_capabilities caps \<and> dr_error d = None))
     \<or> reported loaded d"
proof (cases "b_sdk_version b")
  case (Inl e)
  with assms own_messages show ?thesis
    by (auto simp: preflight_run_def failed_reported split: if_splits)
next
  case (Inr sdk)
  note sdk = this
  show ?thesis
  proof (cases loaded)
    case (Inl e)
    with assms sdk show ?thesis
      by (cases e) (auto simp: preflight_run_def config_reported)
  next
    case (Inr config)
    note config = this
    show ?thesis
    proof (cases "b_resolve_runtime b (cfg_runtime_path config)")
      case (Inl e)
      with assms sdk config own_messages show ?thesis
        by (cases e) (auto simp: preflight_run_def failed_reported safe_failed_reported)
    next
      case (Inr rt)
      note rt = this
      show ?thesis
      proof (cases "select_auth config env")
        case (Inl e)
        with assms sdk config rt show ?thesis
          by (cases e) (auto simp: preflight_run_def safe_failed_reported)
      next
        case (Inr au)
        with assms sdk config rt have "preflight_initialize b cwd sdk rt au = Inr d"
          by (simp add: preflight_run_def)
        from initialize_outcome [OF this, of loaded] sdk config rt Inr show ?thesis by blast
      qed
    qed
  qed
qed

definition sample_backend :: backend where
  "sample_backend = \<lparr>b_sdk_version = Inr ''1.0'',
     b_resolve_runtime = (\<lambda>p. Inr \<lparr>rt_recorded_path = ''bundled'', rt_executable = ''/q'', rt_version = ''1.0''\<rparr>),
     b_initialize = (\<lambda>cwd rt au. Inr [''modelPolicy'', ''other'']), b_local_login_status = (\<lambda>rt. Inr True)\<rparr>"

text \<open>An expansion of the runtime path that raises is not caught by the preflight: the exception leaves it.\<close>

lemma preflight_expansion_escapes:
  "preflight_run b (load_config (\<lambda>p. Inl (RuntimeError m))
       (ConfigFile 40 (Some [(''runtime'', JDict [(''path'', JStr ''~ghost/q'')])])) NoFile) env cwd
   = (case b_sdk_version b of
        Inl e \<Rightarrow> (if e = CancelledError then Inl e
          else Inr (failed_result ''sdk_protocol_error'' ''Unable to import Qoder SDK.'' None None None []))
      | Inr sdk \<Rightarrow> Inl (RuntimeError m))"
  by (simp add: preflight_run_def load_config_def read_toml_def parse_user_config_def max_config_bytes_def
      unknown_fields_def get_table_def config_string_def split: sum.split)

end
