(* ===== verification/Workspace.thy ===== *)
theory Workspace
  imports Py_Text "HOL-Library.Sublist"
begin

text \<open>
  Overlap of shared workspaces, \<open>src/qworker/workspace.py\<close>.

  The file system is an argument, \<open>resolve\<close>: the canonical absolute path of an existing
  directory, \<open>None\<close> when \<open>Path.resolve\<close> fails or the path is no directory. Canonical paths
  compare by their components.
\<close>

definition path_parts :: "string \<Rightarrow> string list" where
  "path_parts p = filter (\<lambda>part. part \<noteq> []) (split_on CHR ''/'' p)"

text \<open>\<open>PurePath.parents\<close>, nearest first, as component lists.\<close>

definition path_parents :: "string list \<Rightarrow> string list list" where
  "path_parents parts = rev (butlast (prefixes parts))"

datatype workspace_relation = SameWorkspace | AncestorWorkspace | DescendantWorkspace

fun relation_name :: "workspace_relation \<Rightarrow> string" where
  "relation_name SameWorkspace = ''same''"
| "relation_name AncestorWorkspace = ''ancestor''"
| "relation_name DescendantWorkspace = ''descendant''"

definition canonical_workspace :: "(string \<Rightarrow> string option) \<Rightarrow> string \<Rightarrow> string res" where
  "canonical_workspace resolve cwd =
     (case resolve cwd of
        None \<Rightarrow> Inl (ValueError ''Workspace must be an existing directory.'')
      | Some canonical \<Rightarrow> Inr canonical)"

definition classify_workspace_overlap ::
    "(string \<Rightarrow> string option) \<Rightarrow> string \<Rightarrow> string \<Rightarrow> workspace_relation option res" where
  "classify_workspace_overlap resolve requested_cwd live_cwd =
     res_bind (canonical_workspace resolve requested_cwd) (\<lambda>requested.
     res_bind (canonical_workspace resolve live_cwd) (\<lambda>live.
     if path_parts requested = path_parts live then Inr (Some SameWorkspace)
     else if path_parts live \<in> set (path_parents (path_parts requested)) then Inr (Some AncestorWorkspace)
     else if path_parts requested \<in> set (path_parents (path_parts live)) then Inr (Some DescendantWorkspace)
     else Inr None))"

section \<open>What the relation says\<close>

lemma set_path_parents: "set (path_parents xs) = {ys. strict_prefix ys xs}"
proof (cases xs rule: rev_cases)
  case (snoc zs z)
  have "set (path_parents xs) = set (prefixes zs)"
    by (simp add: snoc path_parents_def prefixes_snoc)
  also have "\<dots> = {ys. prefix ys zs}" by (simp add: set_eq_iff)
  also have "\<dots> = {ys. strict_prefix ys xs}" by (auto simp: snoc strict_prefix_def)
  finally show ?thesis .
qed (simp add: path_parents_def)

text \<open>The directories at or below a canonical path.\<close>

definition below :: "string \<Rightarrow> string list set" where
  "below p = {q. prefix (path_parts p) q}"

text \<open>Two existing workspaces are reported to overlap exactly when some directory lies in both, and the
  relation says how: \<open>same\<close>, or \<open>ancestor\<close> when everything requested lies inside the live one, or
  \<open>descendant\<close> when everything live lies inside the requested one.\<close>

lemma overlap_exact:
  assumes "resolve requested = Some r" and "resolve live = Some l"
  shows "\<exists>rel. classify_workspace_overlap resolve requested live = Inr rel
     \<and> (rel = None \<longleftrightarrow> below r \<inter> below l = {})
     \<and> (rel = Some SameWorkspace \<longleftrightarrow> below r = below l)
     \<and> (rel = Some AncestorWorkspace \<longleftrightarrow> below r \<subset> below l)
     \<and> (rel = Some DescendantWorkspace \<longleftrightarrow> below l \<subset> below r)"
proof -
  let ?r = "path_parts r" and ?l = "path_parts l"
  have sub: "{q. prefix a q} \<subseteq> {q. prefix b q} \<longleftrightarrow> prefix b a" for a b :: "string list"
    using prefix_order.trans by blast
  have disj: "{q. prefix a q} \<inter> {q. prefix b q} = {} \<longleftrightarrow> \<not> prefix a b \<and> \<not> prefix b a" for a b :: "string list"
    using prefix_same_cases by blast
  have rel: "below r \<inter> below l = {} \<longleftrightarrow> \<not> prefix ?r ?l \<and> \<not> prefix ?l ?r"
    "below r \<subseteq> below l \<longleftrightarrow> prefix ?l ?r" "below l \<subseteq> below r \<longleftrightarrow> prefix ?r ?l"
    unfolding below_def by (rule disj, rule sub, rule sub)
  have "classify_workspace_overlap resolve requested live = Inr
      (if ?r = ?l then Some SameWorkspace else if strict_prefix ?l ?r then Some AncestorWorkspace
       else if strict_prefix ?r ?l then Some DescendantWorkspace else None)"
    using assms by (simp add: classify_workspace_overlap_def canonical_workspace_def set_path_parents)
  then show ?thesis
    unfolding psubset_eq set_eq_subset [of "below r" "below l"] set_eq_subset [of "below l" "below r"] rel
    by (auto simp: strict_prefix_def dest: prefix_order.antisym)
qed

end
