(* ===== verification/Supervisor.thy ===== *)
theory Supervisor
  imports Store_Operations Control Preflight Workspace Foreground
begin

text \<open>
  \<open>Supervisor\<close> of \<open>src/qworker/supervisor.py\<close>: the owner of the live workers.

  The supervisor is an asyncio program. Its state is what its handlers share; a handler is a
  function on that state that returns a value or raises, and keeps the effects it had. Handlers
  that await a transport are cut there: what runs before the await and what runs after it are two
  functions, so that other handlers can run in between. Store operations do not await.

  A task and a transport are named by the attempt they serve. A future is resolved by an entry in
  \<open>s_answers\<close>. The n-th draw gives the n-th identifier and reading of the clock. Rendering of
  instants, the file system and the foreign packages are arguments in \<open>sup_conf\<close>.
\<close>

section \<open>State\<close>

record pending_approval =
  pa_worker_id :: worker_id
  pa_attempt :: nat
  pa_request :: approval_request
  pa_snapshot :: "string option"
  pa_display :: "(string \<times> json) list"

record sup =
  s_db :: db
  s_closed :: bool
  s_tasks :: "(worker_id \<times> nat) list"
  s_live :: "(worker_id \<times> nat) list"
  s_stop_requests :: "(worker_id \<times> nat) list"
  s_pending :: "(string \<times> pending_approval) list"
  s_answers :: "(string \<times> approval_decision) list"
  s_draws :: nat

record sup_conf =
  c_env :: environ
  c_resolve :: "string \<Rightarrow> string option"
  c_is_dir :: "string \<Rightarrow> bool"
  c_lib :: schema_lib
  c_now :: "nat \<Rightarrow> instant"
  c_id :: "nat \<Rightarrow> string"
  c_uuid :: "nat \<Rightarrow> string"
  c_iso :: "instant \<Rightarrow> string"
  c_sdk_version :: string
  c_runtime_path :: string
  c_runtime_version :: "string option"
  c_preflight :: "(string \<Rightarrow> doctor_result res) option"
  c_auditor_resume :: bool
  c_coder_resume :: bool

text \<open>\<open>canonical_workspace\<close> as a partial function: an existing path that is a directory.\<close>

definition workspace_at :: "sup_conf \<Rightarrow> string \<Rightarrow> string option" where
  "workspace_at c p = (case c_resolve c p of None \<Rightarrow> None | Some q \<Rightarrow> if c_is_dir c q then Some q else None)"

datatype worker_contract = AuditorContract contract | CoderContract contract

datatype run_result = AuditRun audit_result | CoderRun worker_result

section \<open>Effects with exceptions\<close>

type_synonym 'a act = "sup \<Rightarrow> sup \<times> 'a res"

definition ret :: "'a \<Rightarrow> 'a act" where
  "ret x s = (s, Inr x)"

definition raise_exn :: "py_exn \<Rightarrow> 'a act" where
  "raise_exn e s = (s, Inl e)"

definition act_bind :: "'a act \<Rightarrow> ('a \<Rightarrow> 'b act) \<Rightarrow> 'b act" where
  "act_bind m f s = (case m s of (s', Inl e) \<Rightarrow> (s', Inl e) | (s', Inr x) \<Rightarrow> f x s')"

definition act_then :: "unit act \<Rightarrow> 'b act \<Rightarrow> 'b act" where
  "act_then m n = act_bind m (\<lambda>_. n)"

definition from_res :: "'a res \<Rightarrow> 'a act" where
  "from_res r s = (s, r)"

definition reading :: "(sup \<Rightarrow> 'a) \<Rightarrow> 'a act" where
  "reading f s = (s, Inr (f s))"

definition modify :: "(sup \<Rightarrow> sup) \<Rightarrow> unit act" where
  "modify f s = (f s, Inr ())"

definition guard_act :: "bool \<Rightarrow> py_exn \<Rightarrow> unit act" where
  "guard_act b e = (if b then ret () else raise_exn e)"

text \<open>\<open>try: m except E: h\<close>, where \<open>h\<close> gives \<open>None\<close> for what is not caught.\<close>

definition catching :: "'a act \<Rightarrow> (py_exn \<Rightarrow> 'a act option) \<Rightarrow> 'a act" where
  "catching m h s =
     (case m s of
        (s', Inl e) \<Rightarrow> (case h e of None \<Rightarrow> (s', Inl e) | Some k \<Rightarrow> k s')
      | (s', Inr x) \<Rightarrow> (s', Inr x))"

text \<open>\<open>for x in xs: f x\<close>.\<close>

fun for_each :: "('a \<Rightarrow> unit act) \<Rightarrow> 'a list \<Rightarrow> unit act" where
  "for_each f [] = ret ()"
| "for_each f (x # xs) = act_then (f x) (for_each f xs)"

text \<open>A store operation that draws at most \<open>k\<close> identifiers.\<close>

definition on_store ::
    "sup_conf \<Rightarrow> nat \<Rightarrow> (instant \<Rightarrow> (nat \<Rightarrow> string) \<Rightarrow> db \<Rightarrow> db \<times> 'a res) \<Rightarrow> 'a act" where
  "on_store c k f s =
     (case f (c_now c (s_draws s)) (\<lambda>i. c_id c (s_draws s + i)) (s_db s) of
        (db, r) \<Rightarrow> (s\<lparr>s_db := db, s_draws := s_draws s + k\<rparr>, r))"

definition sup_error :: "string \<Rightarrow> string \<Rightarrow> py_exn" where
  "sup_error code message = SupervisorError code message []"

definition supervisor_closed :: py_exn where
  "supervisor_closed = sup_error ''supervisor_unavailable'' ''Supervisor is closed.''"

section \<open>Helpers\<close>

definition sup_append :: "sup_conf \<Rightarrow> worker_id \<Rightarrow> string \<Rightarrow> json \<Rightarrow> event_record act" where
  "sup_append c wid ty payload =
     on_store c 1 (\<lambda>now ids. append_event (c_env c) wid ty payload now (ids 0))"

definition append_event_act :: "sup_conf \<Rightarrow> worker_id \<Rightarrow> string \<Rightarrow> json \<Rightarrow> unit act" where
  "append_event_act c wid ty payload = act_bind (sup_append c wid ty payload) (\<lambda>_. ret ())"

definition require_worker :: "worker_id \<Rightarrow> worker_record act" where
  "require_worker wid =
     act_bind (reading s_db) (\<lambda>db.
     act_bind (from_res (get_worker wid db)) (\<lambda>found.
     case found of
       None \<Rightarrow> raise_exn (sup_error ''worker_not_found'' (''Unknown worker: '' @ wid))
     | Some w \<Rightarrow> ret w))"

definition require_live_attempt :: "worker_id \<Rightarrow> nat act" where
  "require_live_attempt wid =
     act_bind (reading s_closed) (\<lambda>closed.
     act_then (guard_act (\<not> closed) supervisor_closed)
    (act_bind (require_worker wid) (\<lambda>w.
     act_bind (reading s_live) (\<lambda>live.
     case map_of live wid of
       None \<Rightarrow> raise_exn (sup_error ''worker_not_live'' ''Worker has no live attempt.'')
     | Some n \<Rightarrow>
         if n \<noteq> w_attempt (wr_row w) \<or> w_state (wr_row w) \<notin> {Running, RequiresAction}
         then raise_exn (sup_error ''worker_not_live'' ''Worker has no live attempt.'')
         else ret n))))"

definition health_payload :: "worker_health \<Rightarrow> json" where
  "health_payload h = JDict [(''schema_version'', JInt 1), (''health'', JStr (health_name h))]"

definition warning_payload :: "string \<Rightarrow> json" where
  "warning_payload code = JDict [(''schema_version'', JInt 1), (''code'', JStr code)]"

definition model_payload :: "string \<Rightarrow> json" where
  "model_payload m = JDict [(''schema_version'', JInt 1), (''model'', JStr m)]"

section \<open>JSON for callers\<close>

definition opt_iso :: "sup_conf \<Rightarrow> instant option \<Rightarrow> json" where
  "opt_iso c t = (case t of None \<Rightarrow> JNull | Some i \<Rightarrow> JStr (c_iso c i))"

definition worker_json :: "sup_conf \<Rightarrow> worker_record \<Rightarrow> nat \<Rightarrow> (string \<times> json) list" where
  "worker_json c wr cursor =
     (let w = wr_row wr in
      [(''worker_id'', JStr (w_worker_id w)), (''role'', JStr (role_name (w_role w))), (''cwd'', JStr (w_cwd w)),
       (''state'', JStr (state_name (w_state w))), (''health'', JStr (health_name (w_health w))),
       (''write_capability'', JStr (capability_name (w_capability w))),
       (''requested_model'', JStr (w_requested_model w)), (''resolved_model'', opt_json (w_resolved_model w)),
       (''actual_models'', jstrings (w_actual_models w)), (''session_id'', opt_json (w_session_id w)),
       (''attempt'', JInt (int (w_attempt w))), (''runtime_path'', JStr (w_runtime_path w)),
       (''runtime_version'', opt_json (w_runtime_version w)), (''sdk_version'', JStr (w_sdk_version w)),
       (''created_at'', JStr (c_iso c (w_created_at w))), (''started_at'', opt_iso c (w_started_at w)),
       (''last_event_at'', opt_iso c (w_last_event_at w)), (''ended_at'', opt_iso c (w_ended_at w)),
       (''result_summary'', (case wr_result_summary wr of None \<Rightarrow> JNull | Some j \<Rightarrow> j)),
       (''nested_state'', JStr (nested_name (w_nested_state w))), (''warnings'', jstrings (w_warnings w)),
       (''event_cursor'', JInt (int cursor))])"

definition listed_worker_json :: "sup_conf \<Rightarrow> worker_record \<times> nat \<Rightarrow> json" where
  "listed_worker_json c = (\<lambda>(wr, cursor). let w = wr_row wr in JDict
      [(''worker_id'', JStr (w_worker_id w)), (''role'', JStr (role_name (w_role w))), (''cwd'', JStr (w_cwd w)),
       (''state'', JStr (state_name (w_state w))), (''health'', JStr (health_name (w_health w))),
       (''attempt'', JInt (int (w_attempt w))),
       (''write_capability'', JStr (capability_name (w_capability w))),
       (''requested_model'', JStr (w_requested_model w)), (''resolved_model'', opt_json (w_resolved_model w)),
       (''created_at'', JStr (c_iso c (w_created_at w))), (''ended_at'', opt_iso c (w_ended_at w)),
       (''warnings'', jstrings (w_warnings w)), (''event_cursor'', JInt (int cursor))])"

definition event_json :: "sup_conf \<Rightarrow> event_record \<Rightarrow> json" where
  "event_json c e = JDict
     [(''sequence'', JInt (int (e_sequence e))), (''event_id'', JStr (e_event_id e)),
      (''worker_id'', JStr (e_worker_id e)), (''attempt'', JInt (int (e_attempt e))),
      (''timestamp'', JStr (c_iso c (e_timestamp e))), (''type'', JStr (e_type e)), (''payload'', e_payload e)]"

definition finding_dict :: "audit_finding \<Rightarrow> json" where
  "finding_dict f = JDict [(''severity'', JStr (severity f)), (''evidence'', JStr (evidence f)),
     (''affected_requirement_or_location'', opt_json (affected f))]"

definition common_json :: "'a worker_result_scheme \<Rightarrow> (string \<times> json) list" where
  "common_json r =
     [(''outcome'', JStr (outcome_name (r_outcome r))), (''summary'', JStr (r_summary r)),
      (''files'', jstrings (r_files r)), (''validation'', jstrings (r_validation r)), (''risks'', jstrings (r_risks r)),
      (''requested_model'', JStr (r_requested_model r)), (''resolved_model'', opt_json (r_resolved_model r)),
      (''actual_models'', jstrings (r_actual_models r)), (''session_id'', opt_json (r_session_id r)),
      (''nested_state'', JStr (nested_name (r_nested_state r))), (''warnings'', jstrings (r_warnings r)),
      (''errors'', jstrings (r_errors r))]"

fun result_json :: "run_result \<Rightarrow> json" where
  "result_json (CoderRun r) = JDict (common_json r)"
| "result_json (AuditRun r) = JDict (common_json r
     @ [(''verdict'', opt_json (r_verdict r)), (''confirmed'', jstrings (r_confirmed r)),
        (''findings'', JList (map finding_dict (r_findings r))),
        (''required_changes'', jstrings (r_required_changes r))])"

text \<open>The fields both kinds of result have.\<close>

fun base_result :: "run_result \<Rightarrow> worker_result" where
  "base_result (CoderRun r) = r"
| "base_result (AuditRun r) = worker_result.truncate r"

fun with_warnings :: "string list \<Rightarrow> run_result \<Rightarrow> run_result" where
  "with_warnings ws (CoderRun r) = CoderRun (r\<lparr>r_warnings := ws\<rparr>)"
| "with_warnings ws (AuditRun r) = AuditRun (r\<lparr>r_warnings := ws\<rparr>)"

end
