(* ===== verification/Handlers.thy ===== *)
theory Handlers
  imports Supervisor
begin

text \<open>
  The handlers of the supervisor, in the order of \<open>src/qworker/supervisor.py\<close>: spawning and
  resuming, queries, steering, stopping, approvals, and the phases of a worker's run.
\<close>

section \<open>Spawning\<close>

record runtime_versions =
  v_sdk :: string
  v_path :: string
  v_runtime :: "string option"

fun contract_of :: "worker_contract \<Rightarrow> contract" where
  "contract_of (AuditorContract k) = k"
| "contract_of (CoderContract k) = k"

fun contract_role :: "worker_contract \<Rightarrow> worker_role" where
  "contract_role (AuditorContract k) = Auditor"
| "contract_role (CoderContract k) = Coder"

fun contract_capability :: "worker_contract \<Rightarrow> write_capability" where
  "contract_capability (AuditorContract k) = ReadOnly"
| "contract_capability (CoderContract k) = SharedWorkspace"

fun canonical_contract :: "sup_conf \<Rightarrow> worker_contract \<Rightarrow> worker_contract res" where
  "canonical_contract c (AuditorContract k) = Inr (AuditorContract k)"
| "canonical_contract c (CoderContract k) =
     res_bind (canonical_workspace (workspace_at c) (k_cwd k)) (\<lambda>cwd. Inr (CoderContract (k\<lparr>k_cwd := cwd\<rparr>)))"

text \<open>What a preflight lets through.\<close>

definition admitted :: "sup_conf \<Rightarrow> string \<Rightarrow> runtime_versions res" where
  "admitted c cwd =
     (case c_preflight c of
        None \<Rightarrow> Inr \<lparr>v_sdk = c_sdk_version c, v_path = c_runtime_path c, v_runtime = c_runtime_version c\<rparr>
      | Some preflight \<Rightarrow>
          res_bind (preflight cwd) (\<lambda>d.
          if \<not> dr_ok d then
            (case dr_error d of
               None \<Rightarrow> Inl (sup_error ''sdk_protocol_error'' ''Qoder preflight returned no diagnostic.'')
             | Some e \<Rightarrow>
                 (let safe = safe_preflight_failure (pd_code e)
                  in Inl (SupervisorError (pd_code safe) (pd_message safe)
                       (normalize_preflight_warnings (dr_warnings d)))))
          else (case (dr_sdk_version d, dr_runtime_path d) of
              (Some sdk, Some path) \<Rightarrow> Inr \<lparr>v_sdk = sdk, v_path = path, v_runtime = dr_runtime_version d\<rparr>
            | _ \<Rightarrow> Inl (sup_error ''sdk_protocol_error'' ''Qoder preflight returned incomplete metadata.''))))"

record overlap_warning =
  ow_worker_id :: worker_id
  ow_cwd :: string
  ow_relation :: workspace_relation

text \<open>One round of \<open>_shared_workspace_warnings\<close>.\<close>

definition overlap_of :: "sup_conf \<Rightarrow> db \<Rightarrow> string \<Rightarrow> worker_id \<Rightarrow> overlap_warning option res" where
  "overlap_of c db requested wid =
     res_bind (get_worker wid db) (\<lambda>found.
     case found of
       None \<Rightarrow> Inr None
     | Some wr \<Rightarrow>
         (let w = wr_row wr in
          if terminal_state (w_state w) \<or> w_capability w \<noteq> SharedWorkspace then Inr None
          else
            res_bind (classify_workspace_overlap (workspace_at c) requested (w_cwd w)) (\<lambda>rel.
            case rel of
              None \<Rightarrow> Inr None
            | Some r \<Rightarrow> Inr (Some \<lparr>ow_worker_id = w_worker_id w, ow_cwd = w_cwd w, ow_relation = r\<rparr>))))"

definition shared_workspace_warnings :: "sup_conf \<Rightarrow> string \<Rightarrow> overlap_warning list act" where
  "shared_workspace_warnings c requested s =
     (s, res_bind (map_res (overlap_of c (s_db s) requested) (map fst (s_tasks s)))
           (\<lambda>found. Inr (List.map_filter (\<lambda>x. x) found)))"

definition overlap_fields :: "overlap_warning \<Rightarrow> (string \<times> json) list" where
  "overlap_fields o' = [(''code'', JStr ''write_conflict_warning''), (''worker_id'', JStr (ow_worker_id o')),
     (''cwd'', JStr (ow_cwd o')), (''relation'', JStr (relation_name (ow_relation o')))]"

definition new_worker :: "worker_contract \<Rightarrow> runtime_versions \<Rightarrow> creation" where
  "new_worker wc v =
     \<lparr>n_role = contract_role wc, n_cwd = k_cwd (contract_of wc), n_capability = contract_capability wc,
      n_requested_model = k_requested_model (contract_of wc), n_runtime_path = v_path v,
      n_sdk_version = v_sdk v, n_runtime_version = v_runtime v\<rparr>"

text \<open>\<open>spawn\<close> up to its lock, which is where it awaits the preflight, and under its lock.\<close>

definition spawn_admission :: "sup_conf \<Rightarrow> worker_contract \<Rightarrow> (worker_contract \<times> runtime_versions) act" where
  "spawn_admission c wc =
     act_bind (reading s_closed) (\<lambda>closed.
     act_then (guard_act (\<not> closed) supervisor_closed)
    (act_bind (from_res (canonical_contract c wc)) (\<lambda>wc.
     act_bind (from_res (admitted c (k_cwd (contract_of wc)))) (\<lambda>v. ret (wc, v)))))"

definition spawn_accept ::
    "sup_conf \<Rightarrow> worker_contract \<Rightarrow> runtime_versions \<Rightarrow> (string \<times> json) list act" where
  "spawn_accept c wc v =
     act_bind (reading s_closed) (\<lambda>closed.
     act_then (guard_act (\<not> closed) supervisor_closed)
    (act_bind (if contract_role wc = Coder then shared_workspace_warnings c (k_cwd (contract_of wc)) else ret [])
      (\<lambda>overlaps.
     act_bind (on_store c 2 (\<lambda>now ids.
         create_worker (c_env c) (workspace_at c) (new_worker wc v) None (ids 0) now (ids 1))) (\<lambda>wr.
     let w = wr_row wr; wid = w_worker_id w in
     act_then (for_each (\<lambda>o'. append_event_act c wid ''worker.warning''
         (JDict ((''schema_version'', JInt 1) # overlap_fields o'))) overlaps)
    (act_then (modify (\<lambda>s. s\<lparr>s_tasks := assoc_put wid (w_attempt w) (s_tasks s)\<rparr>))
    (act_bind (reading s_db) (\<lambda>db.
     ret ([(''worker_id'', JStr wid), (''state'', JStr (state_name (w_state w))),
           (''role'', JStr (role_name (w_role w))), (''cwd'', JStr (w_cwd w)),
           (''event_cursor'', JInt (int (latest_event_cursor wid db)))]
          @ (if overlaps \<noteq> [] then [(''warnings'', JList (map (\<lambda>o'. JDict (overlap_fields o')) overlaps))]
             else [])))))))))"

section \<open>Resuming\<close>

definition resume_recovery_message :: string where
  "resume_recovery_message =
     ''The prior Qoder process ended before this conversation was finished. '' @
     ''Recheck the current workspace state before continuing. '' @
     ''Do not assume interrupted work completed.''"

definition resume_not_possible :: "string \<Rightarrow> py_exn" where
  "resume_not_possible m = sup_error ''resume_not_possible'' m"

definition resume_contract :: "worker_row \<Rightarrow> string \<Rightarrow> worker_contract" where
  "resume_contract w canonical =
     (let k = \<lparr>k_objective = resume_recovery_message, k_cwd = canonical,
        k_requested_model = w_requested_model w, k_context = [], k_constraints = [], k_acceptance = []\<rparr>
      in if w_role w = Coder then CoderContract k else AuditorContract k)"

text \<open>The contract and session of the new attempt are returned beside the response: they go to its task.\<close>

definition resume ::
    "sup_conf \<Rightarrow> worker_id \<Rightarrow> ((string \<times> json) list \<times> worker_contract \<times> string) act" where
  "resume c wid =
     act_bind (reading s_closed) (\<lambda>closed.
     act_then (guard_act (\<not> closed) supervisor_closed)
    (act_bind (require_worker wid) (\<lambda>wr.
     let w = wr_row wr in
     act_then (guard_act (w_state w \<in> {Lost, Failed, Cancelled})
       (resume_not_possible ''Worker state is not eligible for resume.''))
    (case w_session_id w of
       None \<Rightarrow> raise_exn (resume_not_possible ''Worker has no stored Qoder session.'')
     | Some session \<Rightarrow>
         act_then (guard_act (if w_role w = Coder then c_coder_resume c else c_auditor_resume c)
           (resume_not_possible ''Resume transport is unavailable.''))
        (case c_resolve c (w_cwd w) of
           None \<Rightarrow> raise_exn (resume_not_possible ''Worker's original working directory is unavailable.'')
         | Some canonical \<Rightarrow>
             act_then (guard_act (path_parts canonical = path_parts (w_cwd w) \<and> c_is_dir c canonical)
               (resume_not_possible ''Worker's original working directory is invalid.''))
            (act_bind (on_store c 1 (\<lambda>now ids. start_attempt (c_env c) wid now (ids 0))) (\<lambda>a.
             act_then (modify (\<lambda>s. s\<lparr>s_tasks := assoc_put wid (a_attempt a) (s_tasks s)\<rparr>))
            (act_bind (reading s_db) (\<lambda>db.
             ret ([(''worker_id'', JStr wid), (''state'', JStr (state_name (a_state a))),
                   (''role'', JStr (role_name (w_role w))), (''cwd'', JStr canonical),
                   (''attempt'', JInt (int (a_attempt a))),
                   (''event_cursor'', JInt (int (latest_event_cursor wid db)))],
                  resume_contract w canonical, session))))))))))"

section \<open>Queries\<close>

definition status :: "sup_conf \<Rightarrow> worker_id \<Rightarrow> (string \<times> json) list act" where
  "status c wid =
     act_bind (require_worker wid) (\<lambda>wr.
     act_bind (reading (\<lambda>s. s)) (\<lambda>s.
     ret (worker_json c wr (latest_event_cursor wid (s_db s))
       @ [(''pending_approvals'', JList (map (\<lambda>p. JDict (pa_display p))
            (filter (\<lambda>p. pa_worker_id p = wid \<and> pa_attempt p = w_attempt (wr_row wr)
                \<and> w_state (wr_row wr) = RequiresAction) (map snd (s_pending s)))))])))"

definition sup_list_workers :: "sup_conf \<Rightarrow> json act" where
  "sup_list_workers c =
     act_bind (reading s_db) (\<lambda>db.
     act_bind (from_res (list_workers db)) (\<lambda>ws.
     ret (JDict [(''workers'', JList (map (listed_worker_json c) ws)), (''count'', JInt (int (length ws)))])))"

definition sup_result :: "worker_id \<Rightarrow> json option act" where
  "sup_result wid = act_bind (require_worker wid) (\<lambda>wr. ret (wr_result_summary wr))"

text \<open>One round of \<open>watch\<close>: events to deliver, the end, or a wait for the next notification.\<close>

datatype watch_outcome = WatchEvents "event_record list" | WatchEnd | WatchWait

definition watch_round :: "worker_id \<Rightarrow> int \<Rightarrow> bool \<Rightarrow> watch_outcome act" where
  "watch_round wid cursor follow =
     act_bind (reading s_db) (\<lambda>db.
     act_bind (from_res (events_since wid cursor db)) (\<lambda>evs.
     if evs \<noteq> [] then ret (WatchEvents evs)
     else if \<not> follow then ret WatchEnd
     else
       act_bind (reading s_closed) (\<lambda>closed.
       if closed then ret WatchEnd
       else
         act_bind (require_worker wid) (\<lambda>wr.
         ret (if terminal_state (w_state (wr_row wr)) then WatchEnd else WatchWait)))))"

definition watch_start :: "worker_id \<Rightarrow> int \<Rightarrow> unit act" where
  "watch_start wid since =
     act_then (guard_act (0 \<le> since) (sup_error ''invalid_request'' ''Event cursor must be non-negative.''))
      (act_bind (require_worker wid) (\<lambda>_. ret ()))"

section \<open>Steering\<close>

definition steering_priorities :: "string list" where
  "steering_priorities = [''now'', ''next'', ''later'']"

definition steer_begin :: "sup_conf \<Rightarrow> worker_id \<Rightarrow> string \<Rightarrow> string \<Rightarrow> string option \<Rightarrow> string act" where
  "steer_begin c wid message priority agent_id =
     act_then (guard_act (message \<noteq> []) (sup_error ''invalid_request'' ''Steering message must not be empty.''))
    (act_then (guard_act (priority \<in> set steering_priorities)
       (sup_error ''invalid_request'' ''Unknown steering priority.''))
    (act_then (guard_act (agent_id = None)
       (sup_error ''unsupported_operation'' ''Selected nested-agent steering is not supported.''))
    (act_bind (require_live_attempt wid) (\<lambda>live.
     act_bind (reading (\<lambda>s. c_uuid c (s_draws s))) (\<lambda>message_id.
     act_then (append_event_act c wid ''steer.queued''
         (JDict [(''schema_version'', JInt 1), (''message_id'', JStr message_id), (''priority'', JStr priority)]))
      (ret message_id))))))"

text \<open>\<open>sent\<close> is what the transport's call returned or raised.\<close>

definition transport_outcome :: "string \<Rightarrow> 'a res \<Rightarrow> 'a act" where
  "transport_outcome message sent =
     (case sent of
        Inr x \<Rightarrow> ret x
      | Inl e \<Rightarrow> if e = CancelledError then raise_exn e else raise_exn (sup_error ''sdk_protocol_error'' message))"

definition steer_end ::
    "sup_conf \<Rightarrow> worker_id \<Rightarrow> string \<Rightarrow> string \<Rightarrow> unit res \<Rightarrow> (string \<times> json) list act" where
  "steer_end c wid message_id priority sent =
     act_bind (transport_outcome ''Unable to deliver steering message.'' sent) (\<lambda>_.
     act_then (append_event_act c wid ''steer.delivered''
         (JDict [(''schema_version'', JInt 1), (''message_id'', JStr message_id)]))
      (ret [(''message_id'', JStr message_id), (''priority'', JStr priority), (''accepted'', JBool True)]))"

text \<open>\<open>str(uuid.UUID(m)) == m\<close>: the canonical text of a UUID.\<close>

definition canonical_uuid :: "string \<Rightarrow> bool" where
  "canonical_uuid m =
     (map length (split_on CHR ''-'' m) = [8, 4, 4, 4, 12]
      \<and> list_all (list_all (\<lambda>ch. is_digit ch \<or> ch \<in> set ''abcdef'')) (split_on CHR ''-'' m))"

definition cancel_begin :: "worker_id \<Rightarrow> string \<Rightarrow> nat act" where
  "cancel_begin wid message_id =
     act_then (guard_act (canonical_uuid message_id)
       (sup_error ''invalid_request'' ''message_id must be a canonical UUID.''))
      (require_live_attempt wid)"

definition cancel_end ::
    "sup_conf \<Rightarrow> worker_id \<Rightarrow> string \<Rightarrow> bool res \<Rightarrow> (string \<times> json) list act" where
  "cancel_end c wid message_id sent =
     act_bind (transport_outcome ''Unable to cancel steering message.'' sent) (\<lambda>cancelled.
     act_then (append_event_act c wid ''steer.cancelled''
         (JDict [(''schema_version'', JInt 1), (''message_id'', JStr message_id), (''cancelled'', JBool cancelled)]))
      (ret ([(''message_id'', JStr message_id), (''cancelled'', JBool cancelled)]
        @ (if cancelled then [] else [(''code'', JStr ''message_not_cancellable'')]))))"

section \<open>Approvals\<close>

text \<open>\<open>_request_approval\<close> up to its await: the default decision, or the identifier it waits for.\<close>

definition can_ask :: "worker_id \<Rightarrow> nat \<Rightarrow> worker_record option \<Rightarrow> sup \<Rightarrow> bool" where
  "can_ask wid attempt found s =
     (\<not> s_closed s \<and> map_of (s_live s) wid = Some attempt
      \<and> (case found of
           None \<Rightarrow> False
         | Some wr \<Rightarrow> w_attempt (wr_row wr) = attempt \<and> w_state (wr_row wr) \<in> {Running, RequiresAction}))"

fun kept_request :: "approval_request \<Rightarrow> approval_request" where
  "kept_request (PermissionRequest r) = PermissionRequest r"
| "kept_request (ElicitationRequest r) = ElicitationRequest (r\<lparr>el_requested_schema := None\<rparr>)"

fun request_snapshot :: "schema_lib \<Rightarrow> approval_request \<Rightarrow> string option res" where
  "request_snapshot lib (PermissionRequest r) = Inr None"
| "request_snapshot lib (ElicitationRequest r) = snapshot_elicitation_schema lib (el_requested_schema r)"

definition ask ::
    "sup_conf \<Rightarrow> worker_id \<Rightarrow> nat \<Rightarrow> approval_request \<Rightarrow> string option \<Rightarrow> (string \<times> json) list \<Rightarrow> string
     \<Rightarrow> (approval_decision + string) act" where
  "ask c wid attempt request snapshot display request_id =
     act_then (modify (\<lambda>s. s\<lparr>s_pending := assoc_put request_id
         \<lparr>pa_worker_id = wid, pa_attempt = attempt, pa_request = kept_request request,
          pa_snapshot = snapshot, pa_display = display\<rparr> (s_pending s)\<rparr>))
    (catching
      (act_bind (on_store c 3 (\<lambda>now ids. record_approval_request (c_env c) wid attempt
          (approval_payload display) now (ids 1) (ids 2))) (\<lambda>_. ret (Inr request_id)))
      (\<lambda>e. Some (act_then (modify (\<lambda>s. s\<lparr>s_pending := assoc_pop request_id (s_pending s)\<rparr>))
         (case e of AttemptChangedError m \<Rightarrow> ret (Inl (default_decision request)) | _ \<Rightarrow> raise_exn e))))"

definition request_approval ::
    "sup_conf \<Rightarrow> worker_id \<Rightarrow> nat \<Rightarrow> approval_request \<Rightarrow> (approval_decision + string) act" where
  "request_approval c wid attempt request =
     act_bind (reading s_db) (\<lambda>db.
     act_bind (from_res (get_worker wid db)) (\<lambda>found.
     act_bind (reading (can_ask wid attempt found)) (\<lambda>ok.
     if \<not> ok then ret (Inl (default_decision request))
     else
       (case request_snapshot (c_lib c) request of
          Inl e \<Rightarrow> ret (Inl (default_decision request))
        | Inr snapshot \<Rightarrow>
            act_bind (reading (\<lambda>s. c_id c (s_draws s))) (\<lambda>request_id.
            act_bind (from_res (approval_display (c_env c) request_id attempt (kept_request request) snapshot)) (\<lambda>shown.
            case shown of
              None \<Rightarrow> ret (Inl (default_decision request))
            | Some display \<Rightarrow> ask c wid attempt request snapshot display request_id))))))"

text \<open>The \<open>finally\<close> of the await: a cancelled future takes its request with it.\<close>

definition abandon_approval :: "string \<Rightarrow> unit act" where
  "abandon_approval request_id = modify (\<lambda>s. s\<lparr>s_pending := assoc_pop request_id (s_pending s)\<rparr>)"

definition not_live_approval :: py_exn where
  "not_live_approval = sup_error ''worker_not_live'' ''Approval belongs to an attempt that is no longer live.''"

definition answer :: "string \<Rightarrow> approval_decision \<Rightarrow> sup \<Rightarrow> sup" where
  "answer request_id decision s =
     s\<lparr>s_pending := assoc_pop request_id (s_pending s),
       s_answers := (if has_key request_id (s_answers s) then s_answers s
                     else assoc_put request_id decision (s_answers s))\<rparr>"

definition respond ::
    "sup_conf \<Rightarrow> worker_id \<Rightarrow> string \<Rightarrow> (string \<times> json) list \<Rightarrow> (string \<times> json) list act" where
  "respond c wid request_id response =
     act_bind (reading (\<lambda>s. map_of (s_pending s) request_id)) (\<lambda>found.
     case found of
       None \<Rightarrow> raise_exn (sup_error ''approval_not_pending'' ''Approval request is not pending.'')
     | Some p \<Rightarrow>
         act_then (guard_act (pa_worker_id p = wid)
           (sup_error ''approval_not_pending'' ''Approval request is not pending.''))
        (act_bind (require_worker wid) (\<lambda>wr.
         act_bind (reading s_live) (\<lambda>live.
         act_then (guard_act (w_attempt (wr_row wr) = pa_attempt p \<and> w_state (wr_row wr) = RequiresAction
             \<and> map_of live wid = Some (pa_attempt p)) not_live_approval)
        (case parse_approval_response (c_lib c) (pa_request p) response (pa_snapshot p) of
           Inl e \<Rightarrow> raise_exn
             (case e of ValueError m \<Rightarrow> sup_error ''invalid_request'' m
              | TypeError m \<Rightarrow> sup_error ''invalid_request'' m | _ \<Rightarrow> e)
         | Inr decision \<Rightarrow>
             act_bind (reading (\<lambda>s. list_ex (\<lambda>(r, q). r \<noteq> request_id \<and> pa_worker_id q = wid
                 \<and> pa_attempt q = pa_attempt p) (s_pending s))) (\<lambda>other_pending.
             act_bind (catching (on_store c 2 (\<lambda>now ids. record_approval_resolution (c_env c) wid (pa_attempt p)
                  (JDict [(''schema_version'', JInt 1), (''request_id'', JStr request_id),
                    (''status'', JStr (approval_status decision))])
                  (\<not> other_pending) now (ids 0) (ids 1)))
                (\<lambda>e. case e of AttemptChangedError m \<Rightarrow> Some (raise_exn not_live_approval) | _ \<Rightarrow> None)) (\<lambda>_.
             act_then (modify (answer request_id decision))
              (ret [(''request_id'', JStr request_id), (''status'', JStr (approval_status decision))]))))))))"

section \<open>The end of an attempt\<close>

text \<open>\<open>_complete_live_attempt\<close>: expire what is pending, answer it with the default, drop the transport.\<close>

definition complete_live_attempt :: "sup_conf \<Rightarrow> worker_id \<Rightarrow> nat \<Rightarrow> unit act" where
  "complete_live_attempt c wid attempt =
     act_bind (reading (\<lambda>s. s)) (\<lambda>s.
     if map_of (s_live s) wid \<noteq> Some attempt then ret ()
     else
       (let pending = filter (\<lambda>(r, p). pa_worker_id p = wid \<and> pa_attempt p = attempt) (s_pending s) in
        act_then
          (if pending = [] then ret ()
           else
             act_then (catching
               (act_bind (on_store c (Suc (length pending)) (\<lambda>now ids.
                  expire_approval_requests (c_env c) wid attempt (map fst pending) now ids)) (\<lambda>_. ret ()))
               (\<lambda>e. case e of AttemptChangedError m \<Rightarrow> Some (ret ()) | _ \<Rightarrow> None))
             (modify (fold (\<lambda>(r, p). answer r (default_decision (pa_request p))) pending)))
         (modify (\<lambda>s. s\<lparr>s_live := assoc_pop wid (s_live s)\<rparr>))))"

definition finalize_without_result :: "sup_conf \<Rightarrow> worker_id \<Rightarrow> nat \<Rightarrow> worker_state \<Rightarrow> unit act" where
  "finalize_without_result c wid attempt missing_state =
     act_then (complete_live_attempt c wid attempt)
    (act_bind (require_worker wid) (\<lambda>wr.
     let w = wr_row wr in
     if w_attempt w \<noteq> attempt \<or> terminal_state (w_state w) then ret ()
     else
       (let target = (case wr_result_summary wr of
            None \<Rightarrow> missing_state
          | Some summary \<Rightarrow> if jget summary ''outcome'' = Some (JStr ''failed'') then Failed else Completed) in
        act_then (if w_health w \<noteq> Exited then append_event_act c wid ''worker.health_changed'' (health_payload Exited)
                  else ret ())
       (act_bind (require_worker wid) (\<lambda>current.
        if w_attempt (wr_row current) = attempt \<and> \<not> terminal_state (w_state (wr_row current))
        then append_event_act c wid ''worker.state_changed'' (state_payload target)
        else ret ())))))"

definition discard_stop :: "worker_id \<Rightarrow> nat \<Rightarrow> unit act" where
  "discard_stop wid attempt =
     modify (\<lambda>s. s\<lparr>s_stop_requests := filter (\<lambda>k. k \<noteq> (wid, attempt)) (s_stop_requests s)\<rparr>)"

text \<open>\<open>_persist_accepted_result\<close>; the last argument is whether the result came before a stop.\<close>

definition final_state :: "bool \<Rightarrow> bool \<Rightarrow> outcome \<Rightarrow> worker_state" where
  "final_state stop_requested preceded oc =
     (if stop_requested \<and> \<not> preceded then Cancelled else if oc = OutFailed then Failed else Completed)"

definition result_fields_of :: "worker_result \<Rightarrow> result_fields" where
  "result_fields_of r = \<lparr>f_resolved_model = r_resolved_model r, f_actual_models = r_actual_models r,
     f_session_id = r_session_id r, f_nested_state = r_nested_state r, f_warnings = r_warnings r\<rparr>"

definition persist_accepted_result ::
    "sup_conf \<Rightarrow> worker_id \<Rightarrow> nat \<Rightarrow> run_result \<Rightarrow> bool \<Rightarrow> bool \<Rightarrow> unit act" where
  "persist_accepted_result c wid attempt result inited preceded =
     act_then (complete_live_attempt c wid attempt)
    (act_bind (require_worker wid) (\<lambda>wr.
     let stored = w_warnings (wr_row wr);
         new_warnings = filter (\<lambda>w. w \<notin> set stored) (r_warnings (base_result result));
         result = with_warnings (dedup (stored @ r_warnings (base_result result))) result;
         oc = r_outcome (base_result result) in
     act_bind (on_store c 1 (\<lambda>now ids. record_result (c_env c) wid oc (result_json result)
         (result_fields_of (base_result result)) now (ids 0))) (\<lambda>_.
     act_then (for_each (\<lambda>w. append_event_act c wid ''worker.warning'' (warning_payload w)) new_warnings)
    (act_bind (reading (\<lambda>s. (wid, attempt) \<in> set (s_stop_requests s))) (\<lambda>stopping.
     act_then (if inited then append_event_act c wid ''worker.health_changed'' (health_payload Exited)
               else ret ())
    (act_then (append_event_act c wid ''worker.state_changed'' (state_payload (final_state stopping preceded oc)))
       (discard_stop wid attempt)))))))"

section \<open>The run of a worker\<close>

text \<open>The factory the run gets, which makes its transport the live one, and \<open>on_initialized\<close>.\<close>

definition attach_transport :: "worker_id \<Rightarrow> nat \<Rightarrow> unit act" where
  "attach_transport wid attempt = modify (\<lambda>s. s\<lparr>s_live := assoc_put wid attempt (s_live s)\<rparr>)"

definition worker_initialized :: "sup_conf \<Rightarrow> worker_id \<Rightarrow> string \<Rightarrow> unit act" where
  "worker_initialized c wid resolved_model =
     act_then (append_event_act c wid ''model.resolved'' (model_payload resolved_model))
    (act_then (append_event_act c wid ''worker.state_changed'' (state_payload Running))
       (append_event_act c wid ''worker.health_changed'' (health_payload Healthy)))"

definition result_preceded_stop :: "worker_id \<Rightarrow> nat \<Rightarrow> bool act" where
  "result_preceded_stop wid attempt = reading (\<lambda>s. (wid, attempt) \<notin> set (s_stop_requests s))"

definition execution_failure :: "worker_contract \<Rightarrow> run_result" where
  "execution_failure wc =
     (let r = \<lparr>r_outcome = OutFailed, r_summary = ''Worker execution failed.'', r_files = [], r_validation = [],
            r_risks = [], r_requested_model = k_requested_model (contract_of wc), r_resolved_model = None,
            r_actual_models = [], r_session_id = None, r_nested_state = NestedNone, r_warnings = [],
            r_errors = [''sdk_protocol_error'']\<rparr> in
      if contract_role wc = Coder then CoderRun r
      else AuditRun (worker_result.extend r
        \<lparr>r_verdict = None, r_confirmed = [], r_findings = [], r_required_changes = []\<rparr>))"

text \<open>Outcomes of a run that leave no result behind.\<close>

fun lost_transport :: "py_exn \<Rightarrow> bool" where
  "lost_transport (BrokenPipeError m) = True"
| "lost_transport (ConnectionResetError m) = True"
| "lost_transport (EOFError m) = True"
| "lost_transport e = False"

definition missing_state :: "worker_id \<Rightarrow> nat \<Rightarrow> sup \<Rightarrow> worker_state" where
  "missing_state wid attempt s = (if (wid, attempt) \<in> set (s_stop_requests s) then Cancelled else Lost)"

definition finalize_missing :: "sup_conf \<Rightarrow> worker_id \<Rightarrow> nat \<Rightarrow> unit act" where
  "finalize_missing c wid attempt =
     act_bind (reading (missing_state wid attempt)) (finalize_without_result c wid attempt)"

definition finish_run ::
    "sup_conf \<Rightarrow> worker_id \<Rightarrow> nat \<Rightarrow> worker_contract \<Rightarrow> bool \<Rightarrow> bool \<Rightarrow> run_result res \<Rightarrow> unit act" where
  "finish_run c wid attempt wc inited preceded outcome =
     (case outcome of
        Inl e \<Rightarrow>
          if e = CancelledError then act_then (finalize_missing c wid attempt) (raise_exn CancelledError)
          else if lost_transport e then finalize_missing c wid attempt
          else persist_accepted_result c wid attempt (execution_failure wc) inited preceded
      | Inr result \<Rightarrow>
          if ''result_missing'' \<in> set (r_errors (base_result result)) then finalize_missing c wid attempt
          else persist_accepted_result c wid attempt result inited preceded)"

definition task_finished :: "worker_id \<Rightarrow> nat \<Rightarrow> unit act" where
  "task_finished wid attempt =
     modify (\<lambda>s. if map_of (s_tasks s) wid = Some attempt then s\<lparr>s_tasks := assoc_pop wid (s_tasks s)\<rparr> else s)"

section \<open>Stopping\<close>

datatype stop_start = StopAnswered "(string \<times> json) list" | StopRequested nat

text \<open>\<open>stop\<close> under its lock; the task it then waits for ends in \<open>stop_attempt_end\<close>, whose
  interruption, teardown and cancellation of the owner only await.\<close>

definition stop_begin :: "sup_conf \<Rightarrow> worker_id \<Rightarrow> bool \<Rightarrow> string option \<Rightarrow> stop_start act" where
  "stop_begin c wid force agent_id =
     act_then (guard_act (agent_id = None)
       (sup_error ''unsupported_operation'' ''Selected nested-agent stop is not supported.''))
    (act_bind (require_worker wid) (\<lambda>wr.
     let w = wr_row wr in
     if terminal_state (w_state w) then
       act_bind (reading s_db) (\<lambda>db.
       ret (StopAnswered (worker_json c wr (latest_event_cursor wid db)
         @ [(''pending_approvals'', JList []), (''force'', JBool force)])))
     else
       act_bind (reading s_tasks) (\<lambda>tasks.
       act_then (guard_act (has_key wid tasks) (sup_error ''worker_not_live'' ''Worker has no live attempt.''))
      (act_then (modify (\<lambda>s. s\<lparr>s_stop_requests := add_once (wid, w_attempt w) (s_stop_requests s)\<rparr>))
        (ret (StopRequested (w_attempt w)))))))"

definition stop_attempt_end :: "sup_conf \<Rightarrow> worker_id \<Rightarrow> nat \<Rightarrow> unit act" where
  "stop_attempt_end c wid attempt =
     act_then (finalize_without_result c wid attempt Cancelled) (discard_stop wid attempt)"

definition stop_response :: "sup_conf \<Rightarrow> worker_id \<Rightarrow> bool \<Rightarrow> (string \<times> json) list act" where
  "stop_response c wid force =
     act_bind (status c wid) (\<lambda>st. ret (st @ [(''force'', JBool force)]))"

section \<open>Shutting down\<close>

definition close_begin :: "unit act" where
  "close_begin = modify (\<lambda>s. s\<lparr>s_closed := True\<rparr>)"

definition close_end :: "unit act" where
  "close_end = modify (\<lambda>s. s\<lparr>s_tasks := []\<rparr>)"

end
