(* ===== verification/Rpc.thy ===== *)
theory Rpc
  imports Handlers
begin

text \<open>
  The RPC seam between the command line and the supervisor, \<open>src/qworker/rpc.py\<close>: one JSON object
  per line over a private socket. Framing, the recovery of a request's identifier from a frame that
  is too long, decoding and dispatch of requests, the loop of a connection, and the client.

  A connection is the bytes its peer sends until it closes; a byte is a character. The text of a
  frame is UTF-8, of which the code points below U+0100 are modelled; other bytes read as invalid
  JSON. A write that the socket refuses is not modelled.
\<close>

section \<open>Limits\<close>

definition max_frame_bytes :: nat where
  "max_frame_bytes = 4 * 1024 * 1024"

definition max_request_id_chars :: nat where
  "max_request_id_chars = 128"

definition max_encoded_request_id_bytes :: nat where
  "max_encoded_request_id_bytes = max_request_id_chars * 12 + 2"

definition frame_limit_message :: string where
  "frame_limit_message = ''RPC frame exceeds the '' @ nat_text max_frame_bytes @ ''-byte limit.''"

definition request_id_message :: string where
  "request_id_message =
     ''request_id must be a non-empty string of at most '' @ nat_text max_request_id_chars @ '' characters.''"

fun valid_request_id :: "json \<Rightarrow> bool" where
  "valid_request_id (JStr s) = (0 < length s \<and> length s \<le> max_request_id_chars)"
| "valid_request_id _ = False"

section \<open>Bytes\<close>

fun utf8_text :: "string \<Rightarrow> string option" where
  "utf8_text [] = Some []"
| "utf8_text (c # s) =
     (if code_point c < 128 then map_option ((#) c) (utf8_text s)
      else (case s of
          [] \<Rightarrow> None
        | d # t \<Rightarrow>
            if (code_point c = 0xC2 \<or> code_point c = 0xC3) \<and> 0x80 \<le> code_point d \<and> code_point d < 0xC0
            then map_option ((#) (char_of ((code_point c - 0xC0) * 64 + (code_point d - 0x80)))) (utf8_text t)
            else None))"

definition json_loads_bytes :: "string \<Rightarrow> json option" where
  "json_loads_bytes s = Option.bind (utf8_text s) json_loads"

definition newline :: char where
  "newline = CHR 0x0A"

section \<open>The identifier in the prefix of a frame\<close>

text \<open>The pattern of a JSON string literal, after its opening quote: up to the closing one.\<close>

fun scan_literal :: "string \<Rightarrow> string option" where
  "scan_literal [] = None"
| "scan_literal (c # s) =
     (if c = CHR 0x22 then Some [c]
      else if c = CHR 0x5C then
        (case s of
           [] \<Rightarrow> None
         | d # t \<Rightarrow> if d = newline then None else map_option (\<lambda>r. c # d # r) (scan_literal t))
      else map_option ((#) c) (scan_literal s))"

definition is_blank_byte :: "char \<Rightarrow> bool" where
  "is_blank_byte c = (let n = code_point c in (9 \<le> n \<and> n \<le> 13) \<or> n = 32)"

definition request_id_key :: string where
  "request_id_key = [CHR 0x22] @ ''request_id'' @ [CHR 0x22]"

definition request_id_at :: "string \<Rightarrow> string option" where
  "request_id_at s =
     (if starts_with request_id_key s then
        (case dropWhile is_blank_byte (drop (length request_id_key) s) of
           c # t \<Rightarrow>
             if c = CHR '':'' then
               (case dropWhile is_blank_byte t of
                  q # u \<Rightarrow> if q = CHR 0x22 then map_option ((#) q) (scan_literal u) else None
                | [] \<Rightarrow> None)
             else None
         | [] \<Rightarrow> None)
      else None)"

fun search_request_id :: "string \<Rightarrow> string option" where
  "search_request_id [] = None"
| "search_request_id (c # s) =
     (case request_id_at (c # s) of Some l \<Rightarrow> Some l | None \<Rightarrow> search_request_id s)"

definition request_id_from_prefix :: "string \<Rightarrow> json" where
  "request_id_from_prefix front =
     (case search_request_id front of
        None \<Rightarrow> JNull
      | Some l \<Rightarrow>
          if max_encoded_request_id_bytes < length l then JNull
          else (case json_loads_bytes l of
              None \<Rightarrow> JNull
            | Some v \<Rightarrow> if valid_request_id v then v else JNull))"

section \<open>Frames\<close>

datatype rpc_exn = Raised py_exn | FrameTooLarge json

datatype frame_read = EndOfStream | Frame string string | Oversized json

text \<open>\<open>_read_frame\<close> on a stream whose limit is the frame limit: the frame and what is left.\<close>

definition read_frame :: "json \<Rightarrow> string \<Rightarrow> frame_read" where
  "read_frame request_id s =
     (let line = takeWhile (\<lambda>c. c \<noteq> newline) s;
          frame = take (Suc (length line)) s;
          known = (\<lambda>front. if request_id \<noteq> JNull then request_id else request_id_from_prefix front)
      in if max_frame_bytes < length line then Oversized (known (take max_frame_bytes s))
         else if s = [] then EndOfStream
         else if max_frame_bytes < length frame then Oversized (known frame)
         else Frame frame (drop (length frame) s))"

definition write_frame :: "(string \<times> json) list \<Rightarrow> rpc_exn + string" where
  "write_frame frame =
     (case json_dumps True False (JDict frame) of
        Inl e \<Rightarrow> Inl (Raised e)
      | Inr body \<Rightarrow>
          (let encoded = body @ [newline] in
           if max_frame_bytes < length encoded
           then Inl (FrameTooLarge (case map_of frame ''request_id'' of None \<Rightarrow> JNull | Some r \<Rightarrow> r))
           else Inr encoded))"

definition success :: "json \<Rightarrow> json \<Rightarrow> (string \<times> json) list" where
  "success request_id result =
     [(''request_id'', request_id), (''ok'', JBool True), (''result'', result)]"

definition failure :: "json \<Rightarrow> string \<Rightarrow> string \<Rightarrow> string list \<Rightarrow> (string \<times> json) list" where
  "failure request_id code message warnings =
     [(''request_id'', request_id), (''ok'', JBool False),
      (''error'', JDict ([(''code'', JStr code), (''message'', JStr message)]
        @ (if warnings \<noteq> [] then [(''warnings'', jstrings warnings)] else [])))]"

section \<open>Fields\<close>

definition validate_fields :: "(string \<times> json) list \<Rightarrow> string list \<Rightarrow> string list \<Rightarrow> unit res" where
  "validate_fields value needed others =
     (let missing = filter (\<lambda>f. \<not> has_key f value) needed;
          unexpected = filter (\<lambda>f. f \<notin> set (needed @ others)) (map fst value)
      in if missing \<noteq> [] then Inl (ValueError (''Missing field: '' @ py_join '', '' (sort (remdups missing))))
         else if unexpected \<noteq> []
         then Inl (ValueError (''Unexpected field: '' @ py_join '', '' (sort (remdups unexpected))))
         else Inr ())"

definition string_field :: "(string \<times> json) list \<Rightarrow> string \<Rightarrow> string res" where
  "string_field value field =
     (case map_of value field of
        None \<Rightarrow> Inl (KeyError field)
      | Some item \<Rightarrow>
          (case jstr item of
             None \<Rightarrow> Inl (ValueError (field @ '' must be a non-empty string.''))
           | Some s \<Rightarrow>
               if s = [] then Inl (ValueError (field @ '' must be a non-empty string.'')) else Inr s))"

definition optional_string :: "(string \<times> json) list \<Rightarrow> string \<Rightarrow> string \<Rightarrow> string res" where
  "optional_string value field dflt = (if has_key field value then string_field value field else Inr dflt)"

text \<open>\<open>_string(params, f) if f in params else None\<close>.\<close>

definition string_or_none :: "(string \<times> json) list \<Rightarrow> string \<Rightarrow> string option res" where
  "string_or_none value field =
     (if has_key field value then res_bind (string_field value field) (\<lambda>s. Inr (Some s)) else Inr None)"

definition string_tuple :: "(string \<times> json) list \<Rightarrow> string \<Rightarrow> string list res" where
  "string_tuple value field =
     (case map_of value field of
        None \<Rightarrow> Inr []
      | Some item \<Rightarrow>
          (case jstr_list item of
             None \<Rightarrow> Inl (ValueError (field @ '' must be an array of strings.''))
           | Some ss \<Rightarrow> Inr ss))"

definition natural_field :: "(string \<times> json) list \<Rightarrow> string \<Rightarrow> int \<Rightarrow> int res" where
  "natural_field value field dflt =
     (case map_of value field of
        None \<Rightarrow> Inr dflt
      | Some (JInt i) \<Rightarrow>
          if i < 0 then Inl (ValueError (field @ '' must be a non-negative integer.'')) else Inr i
      | Some _ \<Rightarrow> Inl (ValueError (field @ '' must be a non-negative integer.'')))"

definition boolean_field :: "(string \<times> json) list \<Rightarrow> string \<Rightarrow> bool \<Rightarrow> bool res" where
  "boolean_field value field dflt =
     (case map_of value field of
        None \<Rightarrow> Inr dflt
      | Some (JBool b) \<Rightarrow> Inr b
      | Some _ \<Rightarrow> Inl (TypeError (field @ '' must be a boolean.'')))"

section \<open>Requests\<close>

text \<open>\<open>str(Path(s))\<close>.\<close>

definition path_text :: "string \<Rightarrow> string" where
  "path_text s =
     (let root = (if starts_with ''//'' s \<and> \<not> starts_with ''///'' s then ''//''
                  else if starts_with ''/'' s then ''/'' else []);
          text = root @ py_join ''/'' (filter (\<lambda>p. p \<noteq> [] \<and> p \<noteq> ''.'') (split_on CHR ''/'' s))
      in if text = [] then ''.'' else text)"

record rpc_request =
  rq_id :: json
  rq_method :: string
  rq_params :: "(string \<times> json) list"

definition decode_request :: "string \<Rightarrow> rpc_request res" where
  "decode_request line =
     (case json_loads_bytes line of
        None \<Rightarrow> Inl (ValueError ''Request must be one UTF-8 JSON object.'')
      | Some (JDict request) \<Rightarrow>
          res_bind (validate_fields request [''request_id'', ''method'', ''params''] []) (\<lambda>_.
          let rid = the (map_of request ''request_id'');
              method = the (map_of request ''method'');
              params = the (map_of request ''params'')
          in if \<not> valid_request_id rid then Inl (ValueError request_id_message)
             else (case jstr method of
                 None \<Rightarrow> Inl (ValueError ''method must be a non-empty string.'')
               | Some m \<Rightarrow>
                   if m = [] then Inl (ValueError ''method must be a non-empty string.'')
                   else (case params of
                       JDict d \<Rightarrow> Inr \<lparr>rq_id = rid, rq_method = m, rq_params = d\<rparr>
                     | _ \<Rightarrow> Inl (TypeError ''params must be a JSON object.''))))
      | Some _ \<Rightarrow> Inl (ValueError ''Request must be a JSON object.''))"

text \<open>The calls on the supervisor that \<open>_dispatch\<close> makes.\<close>

datatype rpc_call =
    CallSpawn worker_contract
  | CallList
  | CallStatus worker_id
  | CallResult worker_id
  | CallResume worker_id
  | CallSteer worker_id string string "string option"
  | CallCancelMessage worker_id string
  | CallStop worker_id bool "string option"
  | CallRespond worker_id string "(string \<times> json) list"

definition parse_spawn :: "(string \<times> json) list \<Rightarrow> rpc_call res" where
  "parse_spawn params =
     res_bind (validate_fields params [''role'', ''cwd'', ''objective'']
        [''model'', ''context'', ''constraints'', ''acceptance_criteria'']) (\<lambda>_.
     res_bind (string_field params ''role'') (\<lambda>role.
     res_bind (require (role \<in> {''auditor'', ''coder''}) (ValueError ''role must be auditor or coder.'')) (\<lambda>_.
     res_bind (string_field params ''objective'') (\<lambda>objective.
     res_bind (string_field params ''cwd'') (\<lambda>cwd.
     res_bind (string_tuple params ''context'') (\<lambda>ctx.
     res_bind (string_tuple params ''constraints'') (\<lambda>constraints.
     res_bind (string_tuple params ''acceptance_criteria'') (\<lambda>acceptance.
     res_bind (optional_string params ''model'' (if role = ''coder'' then ''qwen-coder'' else ''qwen-auditor'')) (\<lambda>model.
     let k = \<lparr>k_objective = objective, k_cwd = path_text cwd, k_requested_model = model, k_context = ctx,
        k_constraints = constraints, k_acceptance = acceptance\<rparr>
     in Inr (CallSpawn (if role = ''coder'' then CoderContract k else AuditorContract k)))))))))))"

definition parse_worker_call :: "(worker_id \<Rightarrow> rpc_call) \<Rightarrow> (string \<times> json) list \<Rightarrow> rpc_call res" where
  "parse_worker_call call params =
     res_bind (validate_fields params [''worker_id''] []) (\<lambda>_.
     res_bind (string_field params ''worker_id'') (\<lambda>wid. Inr (call wid)))"

definition parse_steer :: "(string \<times> json) list \<Rightarrow> rpc_call res" where
  "parse_steer params =
     res_bind (validate_fields params [''worker_id'', ''message''] [''priority'', ''agent_id'']) (\<lambda>_.
     res_bind (optional_string params ''priority'' ''next'') (\<lambda>priority.
     res_bind (require (priority \<in> {''now'', ''next'', ''later''})
        (ValueError ''priority must be now, next, or later.'')) (\<lambda>_.
     res_bind (string_or_none params ''agent_id'') (\<lambda>agent_id.
     res_bind (string_field params ''worker_id'') (\<lambda>wid.
     res_bind (string_field params ''message'') (\<lambda>message.
     Inr (CallSteer wid message priority agent_id)))))))"

definition parse_cancel :: "(string \<times> json) list \<Rightarrow> rpc_call res" where
  "parse_cancel params =
     res_bind (validate_fields params [''worker_id'', ''message_id''] []) (\<lambda>_.
     res_bind (string_field params ''worker_id'') (\<lambda>wid.
     res_bind (string_field params ''message_id'') (\<lambda>mid. Inr (CallCancelMessage wid mid))))"

definition parse_stop :: "(string \<times> json) list \<Rightarrow> rpc_call res" where
  "parse_stop params =
     res_bind (validate_fields params [''worker_id''] [''force'', ''agent_id'']) (\<lambda>_.
     res_bind (string_or_none params ''agent_id'') (\<lambda>agent_id.
     res_bind (string_field params ''worker_id'') (\<lambda>wid.
     res_bind (boolean_field params ''force'' False) (\<lambda>force.
     Inr (CallStop wid force agent_id)))))"

definition parse_respond :: "(string \<times> json) list \<Rightarrow> rpc_call res" where
  "parse_respond params =
     res_bind (validate_fields params [''worker_id'', ''request_id'', ''response''] []) (\<lambda>_.
     case map_of params ''response'' of
       Some (JDict response) \<Rightarrow>
         res_bind (string_field params ''worker_id'') (\<lambda>wid.
         res_bind (string_field params ''request_id'') (\<lambda>rid. Inr (CallRespond wid rid response)))
     | _ \<Rightarrow> Inl (TypeError ''response must be a JSON object.''))"

definition parse_call :: "string \<Rightarrow> (string \<times> json) list \<Rightarrow> rpc_call res" where
  "parse_call method params =
     (if method = ''spawn'' then parse_spawn params
      else if method = ''list'' then res_bind (validate_fields params [] []) (\<lambda>_. Inr CallList)
      else if method = ''status'' then parse_worker_call CallStatus params
      else if method = ''result'' then parse_worker_call CallResult params
      else if method = ''resume'' then parse_worker_call CallResume params
      else if method = ''steer'' then parse_steer params
      else if method = ''cancel_message'' then parse_cancel params
      else if method = ''stop'' then parse_stop params
      else if method = ''respond'' then parse_respond params
      else Inl (ValueError (''Unknown RPC method: '' @ method)))"

text \<open>The supervisor a server serves, over a state of its own: what a call does, and what a watch
  sees: the events its generator yields, how it ends, and the status read afterwards.\<close>

record 's served =
  sv_call :: "rpc_call \<Rightarrow> 's \<Rightarrow> 's \<times> json res"
  sv_watch :: "worker_id \<Rightarrow> int \<Rightarrow> bool \<Rightarrow> 's \<Rightarrow> 's \<times> json list \<times> unit res"

definition dispatch :: "'s served \<Rightarrow> string \<Rightarrow> (string \<times> json) list \<Rightarrow> 's \<Rightarrow> 's \<times> json res" where
  "dispatch sv method params s =
     (case parse_call method params of Inl e \<Rightarrow> (s, Inl e) | Inr call \<Rightarrow> sv_call sv call s)"

section \<open>Watching\<close>

definition terminal_names :: "string list" where
  "terminal_names = [''completed'', ''failed'', ''cancelled'', ''lost'']"

text \<open>Frames written one after the other, up to the first that cannot be.\<close>

fun write_all :: "(string \<times> json) list list \<Rightarrow> string list \<times> (rpc_exn + unit)" where
  "write_all [] = ([], Inr ())"
| "write_all (f # fs) =
     (case write_frame f of
        Inl e \<Rightarrow> ([], Inl e)
      | Inr b \<Rightarrow> (let (out, r) = write_all fs in (b # out, r)))"

text \<open>\<open>isinstance(x, int)\<close>, which a boolean passes.\<close>

fun is_py_int :: "json \<Rightarrow> bool" where
  "is_py_int (JInt i) = True"
| "is_py_int (JBool b) = True"
| "is_py_int _ = False"

definition end_frame :: "json \<Rightarrow> bool \<Rightarrow> json \<Rightarrow> ((string \<times> json) list) res" where
  "end_frame rid follow st =
     (case (jget st ''state'', jget st ''event_cursor'') of
        (Some state, Some cursor) \<Rightarrow>
          if \<not> is_jstr state \<or> \<not> is_py_int cursor
          then Inl (sup_error ''sdk_protocol_error'' ''Worker status has invalid watch metadata.'')
          else if follow \<and> state \<notin> set (map JStr terminal_names)
          then Inl (sup_error ''worker_not_live'' ''Follow watch ended before worker termination.'')
          else Inr (success rid (JDict [(''end'', JDict
            [(''reason'', JStr (if follow then ''terminal'' else ''replay_complete'')),
             (''cursor'', cursor), (''state'', state)])]))
      | _ \<Rightarrow> Inl (KeyError ''state''))"

text \<open>Once the acknowledgement is out: events, then the end of the watch or the exception that ended it.\<close>

definition watch_frames ::
    "'s served \<Rightarrow> json \<Rightarrow> worker_id \<Rightarrow> int \<Rightarrow> bool \<Rightarrow> 's \<Rightarrow> 's \<times> string list \<times> (rpc_exn + unit)" where
  "watch_frames sv rid wid since follow s =
     (case write_frame (success rid (JDict [(''worker_id'', JStr wid), (''since'', JInt since),
             (''follow'', JBool follow)])) of
        Inl e \<Rightarrow> (s, [], Inl e)
      | Inr ack \<Rightarrow>
          (let (s1, events, ended) = sv_watch sv wid since follow s;
               (out, written) = write_all (map (\<lambda>e. success rid (JDict [(''event'', e)])) events)
           in case written of
                Inl e \<Rightarrow> (s1, ack # out, Inl e)
              | Inr _ \<Rightarrow>
                  (case ended of
                     Inl e \<Rightarrow> (s1, ack # out, Inl (Raised e))
                   | Inr _ \<Rightarrow>
                       (let (s2, st) = sv_call sv (CallStatus wid) s1 in
                        case res_bind st (end_frame rid follow) of
                          Inl e \<Rightarrow> (s2, ack # out, Inl (Raised e))
                        | Inr f \<Rightarrow>
                            (case write_frame f of
                               Inl e \<Rightarrow> (s2, ack # out, Inl e)
                             | Inr b \<Rightarrow> (s2, ack # out @ [b], Inr ()))))))"

definition parse_watch :: "(string \<times> json) list \<Rightarrow> (worker_id \<times> int \<times> bool) res" where
  "parse_watch params =
     res_bind (validate_fields params [''worker_id''] [''since'', ''follow'']) (\<lambda>_.
     res_bind (string_field params ''worker_id'') (\<lambda>wid.
     res_bind (natural_field params ''since'' 0) (\<lambda>since.
     res_bind (boolean_field params ''follow'' False) (\<lambda>follow.
     Inr (wid, since, follow)))))"

definition stream_watch ::
    "'s served \<Rightarrow> json \<Rightarrow> (string \<times> json) list \<Rightarrow> 's \<Rightarrow> 's \<times> string list \<times> (rpc_exn + unit)" where
  "stream_watch sv rid params s =
     (case parse_watch params of
        Inl e \<Rightarrow> (s, [], Inl (Raised e))
      | Inr (wid, since, follow) \<Rightarrow>
          (case sv_call sv (CallStatus wid) s of
             (s1, Inl e) \<Rightarrow> (s1, [], Inl (Raised e))
           | (s1, Inr _) \<Rightarrow> watch_frames sv rid wid since follow s1))"

section \<open>A connection\<close>

datatype conn_next = NextRequest | ConnectionDone | ConnectionRaises rpc_exn

text \<open>The exceptions that are a \<open>TypeError\<close> or a \<open>ValueError\<close>.\<close>

fun invalid_request_error :: "py_exn \<Rightarrow> bool" where
  "invalid_request_error (ValueError m) = True"
| "invalid_request_error (TypeError m) = True"
| "invalid_request_error (ConfigError m) = True"
| "invalid_request_error (ModelUnavailableError m) = True"
| "invalid_request_error e = False"

text \<open>The reply to an exception; a cancellation passes through.\<close>

definition error_reply :: "json \<Rightarrow> rpc_exn \<Rightarrow> (string \<times> json) list option" where
  "error_reply rid e =
     (case e of
        FrameTooLarge r \<Rightarrow>
          Some (failure (if r \<noteq> JNull then r else rid) ''frame_too_large'' frame_limit_message [])
      | Raised (SupervisorError code message warnings) \<Rightarrow> Some (failure rid code message warnings)
      | Raised x \<Rightarrow>
          if x = CancelledError then None
          else if invalid_request_error x then Some (failure rid ''invalid_request'' (exn_message x) [])
          else Some (failure rid ''sdk_protocol_error'' ''Supervisor request failed.'' []))"

definition answer_error :: "json \<Rightarrow> rpc_exn \<Rightarrow> string list \<times> conn_next" where
  "answer_error rid e =
     (case error_reply rid e of
        None \<Rightarrow> ([], ConnectionRaises e)
      | Some f \<Rightarrow>
          (case write_frame f of
             Inl raised \<Rightarrow> ([], ConnectionRaises raised)
           | Inr b \<Rightarrow> ([b], (case e of FrameTooLarge r \<Rightarrow> ConnectionDone | Raised x \<Rightarrow> NextRequest))))"

definition serve_line :: "'s served \<Rightarrow> string \<Rightarrow> 's \<Rightarrow> 's \<times> string list \<times> conn_next" where
  "serve_line sv line s =
     (case decode_request line of
        Inl e \<Rightarrow> (s, answer_error JNull (Raised e))
      | Inr rq \<Rightarrow>
          if rq_method rq = ''watch'' then
            (case stream_watch sv (rq_id rq) (rq_params rq) s of
               (s1, out, Inr _) \<Rightarrow> (s1, out, ConnectionDone)
             | (s1, out, Inl e) \<Rightarrow>
                 (let (reply, next) = answer_error (rq_id rq) e in (s1, out @ reply, next)))
          else
            (case dispatch sv (rq_method rq) (rq_params rq) s of
               (s1, Inl e) \<Rightarrow> (s1, answer_error (rq_id rq) (Raised e))
             | (s1, Inr v) \<Rightarrow>
                 (case write_frame (success (rq_id rq) v) of
                    Inl e \<Rightarrow> (s1, answer_error (rq_id rq) e)
                  | Inr b \<Rightarrow> (s1, [b], NextRequest))))"

lemma read_frame_shrinks: "read_frame rid s = Frame f r \<Longrightarrow> length r < length s"
  by (auto simp: read_frame_def Let_def split: if_splits)

text \<open>\<open>_handle_connection\<close>: the state left, the frames written and why it ended.\<close>

function serve :: "'s served \<Rightarrow> string \<Rightarrow> 's \<Rightarrow> 's \<times> string list \<times> conn_next" where
  "serve sv bytes s =
     (case read_frame JNull bytes of
        EndOfStream \<Rightarrow> (s, [], ConnectionDone)
      | Oversized r \<Rightarrow> (s, answer_error JNull (FrameTooLarge r))
      | Frame line rest \<Rightarrow>
          (case serve_line sv line s of
             (s1, out, NextRequest) \<Rightarrow>
               (let (s2, more, ended) = serve sv rest s1 in (s2, out @ more, ended))
           | (s1, out, ended) \<Rightarrow> (s1, out, ended)))"
  by pat_completeness auto
termination
  by (relation "measure (\<lambda>(sv, bytes, s). length bytes)") (auto dest: read_frame_shrinks)

declare serve.simps [simp del]

section \<open>The client\<close>

datatype client_exn = RPCClientError string string "string list" | ClientRaises py_exn

type_synonym 'a client = "client_exn + 'a"

definition client_error :: "string \<Rightarrow> string \<Rightarrow> client_exn" where
  "client_error code message = RPCClientError code message []"

definition protocol_error :: "string \<Rightarrow> 'a client" where
  "protocol_error message = Inl (client_error ''sdk_protocol_error'' message)"

definition frame_too_large :: client_exn where
  "frame_too_large = client_error ''frame_too_large'' frame_limit_message"

definition unavailable :: "string \<Rightarrow> 'a client" where
  "unavailable message = Inl (client_error ''supervisor_unavailable'' message)"

text \<open>The error object of a response.\<close>

definition response_failure :: "json option \<Rightarrow> client_exn" where
  "response_failure err =
     (let invalid = client_error ''sdk_protocol_error'' ''Supervisor returned an invalid error.'' in
      case err of
        Some (JDict d) \<Rightarrow>
          (case (Option.bind (map_of d ''code'') jstr, Option.bind (map_of d ''message'') jstr,
                 (case map_of d ''warnings'' of None \<Rightarrow> Some [] | Some w \<Rightarrow> jstr_list w)) of
             (Some code, Some message, Some raw) \<Rightarrow>
               if raw = normalize_preflight_warnings raw
               then RPCClientError code message raw else invalid
           | _ \<Rightarrow> invalid)
      | _ \<Rightarrow> invalid)"

definition validated_response :: "string \<Rightarrow> string \<Rightarrow> (string \<times> json) list client" where
  "validated_response line request_id =
     (case json_loads_bytes line of
        None \<Rightarrow> protocol_error ''Supervisor returned invalid JSON.''
      | Some (JDict response) \<Rightarrow>
          (case (map_of response ''request_id'' = Some (JStr request_id), map_of response ''ok'') of
             (True, Some (JBool ok)) \<Rightarrow>
               if \<not> ok then Inl (response_failure (map_of response ''error''))
               else if has_key ''result'' response then Inr response
               else protocol_error ''Supervisor response omitted its result.''
           | _ \<Rightarrow> protocol_error ''Supervisor response correlation failed.'')
      | Some _ \<Rightarrow> protocol_error ''Supervisor returned an invalid response.'')"

text \<open>\<open>_read_response\<close>: the response and what is left of the stream.\<close>

definition read_response :: "string \<Rightarrow> string \<Rightarrow> ((string \<times> json) list \<times> string) client" where
  "read_response bytes request_id =
     (case read_frame (JStr request_id) bytes of
        Oversized r \<Rightarrow> Inl frame_too_large
      | EndOfStream \<Rightarrow> protocol_error ''Supervisor closed without a response.''
      | Frame line rest \<Rightarrow>
          (case validated_response line request_id of Inl e \<Rightarrow> Inl e | Inr d \<Rightarrow> Inr (d, rest)))"

text \<open>What a client sends: nothing when its identifier is not valid or the frame is too long.\<close>

definition client_request :: "string \<Rightarrow> string \<Rightarrow> (string \<times> json) list \<Rightarrow> string client" where
  "client_request request_id method params =
     (if \<not> valid_request_id (JStr request_id) then Inl (client_error ''invalid_request'' request_id_message)
      else (case write_frame [(''request_id'', JStr request_id), (''method'', JStr method),
                (''params'', JDict params)] of
          Inl (FrameTooLarge r) \<Rightarrow> Inl frame_too_large
        | Inl (Raised e) \<Rightarrow> Inl (ClientRaises e)
        | Inr b \<Rightarrow> Inr b))"

text \<open>\<open>call\<close>: a peer is \<open>None\<close> when the socket cannot be opened, otherwise what it sends back.\<close>

definition client_call ::
    "(string \<Rightarrow> string) option \<Rightarrow> string \<Rightarrow> string \<Rightarrow> (string \<times> json) list \<Rightarrow> json client" where
  "client_call peer request_id method params =
     (if \<not> valid_request_id (JStr request_id) then Inl (client_error ''invalid_request'' request_id_message)
      else (case peer of
          None \<Rightarrow> unavailable ''qworker supervisor is unavailable.''
        | Some exchange \<Rightarrow>
            (case client_request request_id method params of
               Inl e \<Rightarrow> Inl e
             | Inr b \<Rightarrow>
                 (case read_response (exchange b) request_id of
                    Inl e \<Rightarrow> Inl e
                  | Inr (d, rest) \<Rightarrow> Inr (the (map_of d ''result''))))))"

text \<open>One frame of a watch, after its acknowledgement: an event, or the end.\<close>

definition watch_end_ok :: "bool \<Rightarrow> (string \<times> json) list \<Rightarrow> bool" where
  "watch_end_ok follow d =
     (case (map_of d ''reason'', map_of d ''cursor'', map_of d ''state'') of
        (Some why, Some (JInt cursor), Some (JStr state)) \<Rightarrow>
          why = JStr (if follow then ''terminal'' else ''replay_complete'') \<and> 0 \<le> cursor
          \<and> (follow \<longrightarrow> state \<in> set terminal_names)
      | _ \<Rightarrow> False)"

definition same_fields :: "(string \<times> json) list \<Rightarrow> string list \<Rightarrow> bool" where
  "same_fields d fs = (set (map fst d) = set fs)"

definition watch_item :: "bool \<Rightarrow> json \<Rightarrow> json option client" where
  "watch_item follow result =
     (case result of
        JDict d \<Rightarrow>
          if same_fields d [''event''] then
            (if is_jdict (the (map_of d ''event'')) then Inr (map_of d ''event'')
             else protocol_error ''Supervisor returned an invalid event.'')
          else (case (same_fields d [''end''], map_of d ''end'') of
              (True, Some (JDict e)) \<Rightarrow>
                if \<not> same_fields e [''reason'', ''cursor'', ''state'']
                then protocol_error ''Supervisor returned an invalid watch end.''
                else if watch_end_ok follow e then Inr None
                else protocol_error ''Supervisor returned an invalid watch end.''
            | _ \<Rightarrow> protocol_error ''Supervisor returned an invalid watch frame.'')
      | _ \<Rightarrow> protocol_error ''Supervisor returned an invalid watch frame.'')"

text \<open>The loop of \<open>watch\<close>: the events it yields and the error it ends with, if any.\<close>

function watch_loop :: "string \<Rightarrow> bool \<Rightarrow> string \<Rightarrow> json list \<times> client_exn option" where
  "watch_loop request_id follow bytes =
     (case read_frame (JStr request_id) bytes of
        Oversized r \<Rightarrow> ([], Some frame_too_large)
      | EndOfStream \<Rightarrow> ([], Some (client_error ''supervisor_unavailable''
          ''qworker watch connection ended before a terminal frame.''))
      | Frame line rest \<Rightarrow>
          (case validated_response line request_id of
             Inl e \<Rightarrow> ([], Some e)
           | Inr d \<Rightarrow>
               (case watch_item follow (the (map_of d ''result'')) of
                  Inl e \<Rightarrow> ([], Some e)
                | Inr None \<Rightarrow> ([], None)
                | Inr (Some event) \<Rightarrow>
                    (let (events, ended) = watch_loop request_id follow rest in (event # events, ended)))))"
  by pat_completeness auto
termination
  by (relation "measure (\<lambda>(rid, follow, bytes). length bytes)") (auto dest: read_frame_shrinks)

declare watch_loop.simps [simp del]

definition client_watch ::
    "(string \<Rightarrow> string) option \<Rightarrow> string \<Rightarrow> (string \<times> json) list \<Rightarrow> json list \<times> client_exn option" where
  "client_watch peer request_id params =
     (if \<not> valid_request_id (JStr request_id)
      then ([], Some (client_error ''invalid_request'' request_id_message))
      else (case peer of
          None \<Rightarrow> ([], Some (client_error ''supervisor_unavailable'' ''qworker supervisor is unavailable.''))
        | Some exchange \<Rightarrow>
            (case client_request request_id ''watch'' params of
               Inl e \<Rightarrow> ([], Some e)
             | Inr b \<Rightarrow>
                 (case read_response (exchange b) request_id of
                    Inl e \<Rightarrow> ([], Some e)
                  | Inr (d, rest) \<Rightarrow>
                      watch_loop request_id (map_of params ''follow'' = Some (JBool True)) rest))))"

end
