(* ===== verification/Rpc_Frames.thy ===== *)
theory Rpc_Frames
  imports Rpc
begin

text \<open>
  Frames are exact: what is written is one line of printable ASCII within the limit, it is read back
  as the frame it is however the stream goes on, and the identifier of a request is recovered from
  the front of a frame that is too long.
\<close>

section \<open>Rendered values are printable ASCII\<close>

definition printable :: "char \<Rightarrow> bool" where
  "printable c = (32 \<le> code_point c \<and> code_point c < 127)"

lemma printable_code: "(n :: nat) < 256 \<Longrightarrow> printable (char_of n) \<longleftrightarrow> 32 \<le> n \<and> n < 127"
  by (simp add: printable_def code_point_char)

lemma hex_digit_printable: "n < 16 \<Longrightarrow> printable (hex_digit n)"
  by (simp add: hex_digit_def printable_code)

lemma escape_printable: "list_all printable (escape_char True c)"
proof -
  have lit: "printable CHR 0x5C" "printable CHR ''u''" "printable CHR ''0''" "printable CHR 0x22"
    "printable CHR ''n''" "printable CHR ''r''" "printable CHR ''t''" "printable CHR ''f''" "printable CHR ''b''"
    by (simp_all add: printable_def code_point_def)
  have "code_point c div 16 < 16" using code_point_less [of c] by linarith
  then have "list_all printable (u_escape (code_point c))"
    by (simp add: u_escape_def hex_digit_printable lit)
  moreover have "printable c" if "\<not> (code_point c < 32 \<or> True \<and> 127 \<le> code_point c)"
    using that by (simp add: printable_def)
  ultimately show ?thesis
    unfolding escape_char_def Let_def by (simp only: list.pred_inject list_all_append lit split: if_split) blast
qed

lemma string_text_printable: "list_all printable (string_text True s)"
  using escape_printable by (auto simp: string_text_def list_all_iff) (simp_all add: printable_def code_point_def)

lemma digit_printable: "is_digit c \<Longrightarrow> printable c"
  by (simp add: is_digit_def printable_def)

lemma nat_text_printable: "list_all printable (nat_text n)"
  using nat_text_digits digit_printable by (auto simp: list_all_iff)

lemma int_text_printable: "list_all printable (int_text i)"
  by (simp add: int_text_def nat_text_printable) (simp add: printable_def code_point_def)

lemma digits_printable: "list_all printable (takeWhile is_digit s)"
  by (auto simp: list_all_iff dest: set_takeWhileD digit_printable)

lemma number_parts_printable:
  "list_all printable (fst (split_sign s))" "list_all printable (int_part s)"
  "list_all printable (frac_part s)" "list_all printable (exp_sign s)" "list_all printable (exp_part s)"
proof -
  show sg: "list_all printable (exp_sign t)" for t
    by (auto simp: exp_sign_def split: list.splits) (simp_all add: printable_def code_point_def)
  show "list_all printable (fst (split_sign s))"
    by (auto simp: split_sign_def split: list.splits) (simp add: printable_def code_point_def)
  show "list_all printable (int_part s)"
    using digits_printable by (auto simp: int_part_def printable_def code_point_def simp del: takeWhile.simps split: list.splits)
  show "list_all printable (frac_part s)"
    using digits_printable by (auto simp: frac_part_def split: list.splits) (simp add: printable_def code_point_def)
  show "list_all printable (exp_part s)"
    using digits_printable sg
    by (auto simp: exp_part_def Let_def split: list.splits) (simp_all add: printable_def code_point_def)
qed

lemma float_literal_printable:
  assumes "float_literal l"
  shows "list_all printable l"
proof -
  obtain sg s1 where sg: "split_sign l = (sg, s1)" by force
  define s2 where "s2 = drop (length (int_part s1)) s1"
  define s3 where "s3 = drop (length (frac_part s2)) s2"
  have "l = sg @ int_part s1 @ frac_part s2 @ exp_part s3"
    using assms sg by (auto simp: float_literal_def parse_number_def Let_def s2_def s3_def split: if_splits)
  then show ?thesis
    using number_parts_printable(1) [of l] sg by (metis number_parts_printable(2,3,5) fst_conv list_all_append)
qed

lemma py_join_printable:
  "list_all printable sep \<Longrightarrow> list_all (list_all printable) xs \<Longrightarrow> list_all printable (py_join sep xs)"
  by (induction sep xs rule: py_join.induct) auto

lemma literal_text_printable:
  "printable CHR ''{''" "printable CHR ''}''" "printable CHR ''[''" "printable CHR '']''"
  "printable CHR '',''" "printable CHR '':''" "printable CHR 0x22"
  by (simp_all add: printable_def code_point_def)

lemma json_text_printable: "json_wf v \<Longrightarrow> list_all printable (json_text True False v)"
proof (induction v)
  case JNull
  show ?case by (simp add: printable_def code_point_def)
next
  case (JBool b)
  show ?case by (simp add: printable_def code_point_def)
next
  case (JFloat f)
  have "list_all printable (float_text NotANumber)" "list_all printable (float_text PosInfinity)"
    "list_all printable (float_text NegInfinity)"
    by (simp_all add: printable_def code_point_def)
  with JFloat show ?case by (cases f) (simp_all add: float_literal_printable)
next
  case (JList xs)
  then have "list_all (list_all printable) (map (json_text True False) xs)" by (simp add: list_all_iff)
  then show ?case by (simp add: literal_text_printable py_join_printable)
next
  case (JDict d)
  have "list_all printable (member_text True (json_text True False) kv)" if "kv \<in> set d" for kv
    using that JDict.IH [of kv "snd kv"] JDict.prems string_text_printable
    by (auto simp: member_text_def literal_text_printable snds.simps)
  then have "list_all (list_all printable) (map (member_text True (json_text True False)) d)"
    by (simp add: list_all_iff)
  then show ?case
    unfolding json_text_dict by (simp add: literal_text_printable py_join_printable)
qed (simp_all add: literal_text_printable int_text_printable string_text_printable)

lemma utf8_ascii: "list_all (\<lambda>c. code_point c < 128) s \<Longrightarrow> utf8_text s = Some s"
  by (induction s) auto

lemma printable_lines:
  assumes "list_all printable s"
  shows "newline \<notin> set s" and "utf8_text s = Some s" and "utf8_text (s @ [newline]) = Some (s @ [newline])"
proof -
  have n: "\<not> printable newline" "code_point newline < 128"
    by (simp_all add: newline_def printable_def code_point_def)
  then show "newline \<notin> set s" using assms by (auto simp: list_all_iff)
  have "list_all (\<lambda>c. code_point c < 128) s" using assms by (auto simp: list_all_iff printable_def)
  then show "utf8_text s = Some s" "utf8_text (s @ [newline]) = Some (s @ [newline])"
    using n by (auto intro!: utf8_ascii)
qed

section \<open>A written frame is read back\<close>

lemma json_loads_line: "json_wf v \<Longrightarrow> json_loads (json_text True False v @ [newline]) = Some v"
proof -
  assume wf: "json_wf v"
  have stop: "number_stop [newline]" by (simp add: number_stop_def newline_def is_digit_def code_point_def)
  have "skip_space [newline] = []" by (simp add: skip_space_def newline_def is_json_space_def code_point_def)
  moreover have "skip_space (json_text True False v @ [newline]) = json_text True False v @ [newline]"
    using json_text_start [OF wf] by simp
  ultimately show ?thesis
    using parse_value_text [OF wf _ stop] by (simp add: json_loads_def)
qed

definition frame_fits :: "(string \<times> json) list \<Rightarrow> bool" where
  "frame_fits f = (length (json_text True False (JDict f)) < max_frame_bytes)"

definition frame_line :: "(string \<times> json) list \<Rightarrow> string" where
  "frame_line f = json_text True False (JDict f) @ [newline]"

lemma write_frame_eq:
  assumes "jsonable (JDict f)"
  shows "write_frame f = (if frame_fits f then Inr (frame_line f)
     else Inl (FrameTooLarge (case map_of f ''request_id'' of None \<Rightarrow> JNull | Some r \<Rightarrow> r)))"
  using assms by (simp add: write_frame_def json_dumps_def frame_fits_def frame_line_def Let_def not_less Suc_le_eq
      del: json_text.simps)

lemma frame_line_props:
  assumes "json_wf (JDict f)"
  shows "json_loads_bytes (frame_line f) = Some (JDict f)"
    and "frame_fits f \<Longrightarrow> read_frame rid (frame_line f @ rest) = Frame (frame_line f) rest"
    and "newline \<notin> set (json_text True False (JDict f))"
proof -
  note p = printable_lines [OF json_text_printable [OF assms]]
  show "newline \<notin> set (json_text True False (JDict f))" by (rule p(1))
  show "json_loads_bytes (frame_line f) = Some (JDict f)"
    using p(3) json_loads_line [OF assms] by (simp add: json_loads_bytes_def frame_line_def del: json_text.simps)
  assume fits: "frame_fits f"
  let ?t = "json_text True False (JDict f)"
  have "takeWhile (\<lambda>c. c \<noteq> newline) (?t @ [newline] @ rest) = ?t"
    using p(1) by (subst takeWhile_append2) auto
  then show "read_frame rid (frame_line f @ rest) = Frame (frame_line f) rest"
    using fits by (simp add: read_frame_def frame_line_def frame_fits_def Let_def del: json_text.simps)
qed

section \<open>The identifier of a frame that is too long\<close>

lemma escape_shape:
  obtains (plain) "escape_char True c = [c]" "c \<noteq> CHR 0x22" "c \<noteq> CHR 0x5C"
  | (short) d where "escape_char True c = [CHR 0x5C, d]" "d \<noteq> newline"
  | (unicode) "escape_char True c = u_escape (code_point c)"
proof (cases "c \<in> {CHR 0x5C, CHR 0x22, CHR 0x0A, CHR 0x0D, CHR 0x09, CHR 0x0C, CHR 0x08}")
  case True
  then have "\<exists>d. escape_char True c = [CHR 0x5C, d] \<and> d \<noteq> newline"
    by (auto simp: escape_char_def newline_def code_point_def)
  then show ?thesis using short by blast
next
  case False
  then have "escape_char True c = (if code_point c < 32 \<or> 127 \<le> code_point c then u_escape (code_point c) else [c])"
    by (simp add: escape_char_def code_point_literals Let_def)
  with False show ?thesis using plain unicode by (auto split: if_splits)
qed

lemma hex_digit_plain: "n < 16 \<Longrightarrow> hex_digit n \<noteq> CHR 0x22 \<and> hex_digit n \<noteq> CHR 0x5C"
proof -
  have "code_point CHR 0x22 = 34" "code_point CHR 0x5C = 92" by (simp_all add: code_point_def)
  moreover assume "n < 16"
  then have "code_point (hex_digit n) \<noteq> 34 \<and> code_point (hex_digit n) \<noteq> 92"
    by (simp add: hex_digit_def code_point_char)
  ultimately show ?thesis by metis
qed

lemma scan_escape: "scan_literal (escape_char True c @ s) = map_option ((@) (escape_char True c)) (scan_literal s)"
proof (cases rule: escape_shape [of c])
  case plain
  then show ?thesis by (cases "scan_literal s") simp_all
next
  case (short d)
  then show ?thesis by (cases "scan_literal s") simp_all
next
  case unicode
  have "code_point c div 16 < 16" "code_point c mod 16 < 16" using code_point_less [of c] by linarith+
  then show ?thesis
    unfolding unicode u_escape_def
    by (cases "scan_literal s") (simp_all add: hex_digit_plain newline_def)
qed

lemma scan_text:
  "scan_literal (concat (map (escape_char True) s) @ CHR 0x22 # rest) = Some (concat (map (escape_char True) s) @ [CHR 0x22])"
  by (induction s) (simp_all add: scan_escape)

lemma escape_length: "length (escape_char True c) \<le> 6"
  by (cases rule: escape_shape [of c]) (simp_all add: u_escape_def)

lemma string_text_length: "length (string_text True s) \<le> 6 * length s + 2"
proof -
  have "length (concat (map (escape_char True) s)) \<le> 6 * length s"
    by (induction s) (simp_all add: escape_length add_mono [OF escape_length, simplified])
  then show ?thesis by (simp add: string_text_def)
qed

lemma request_id_at_key:
  "request_id_at (request_id_key @ CHR '':'' # string_text True rid @ rest) = Some (string_text True rid)"
proof -
  have b: "\<not> is_blank_byte CHR '':''" "\<not> is_blank_byte CHR 0x22" by (simp_all add: is_blank_byte_def code_point_def)
  show ?thesis
    using scan_text [of rid rest] by (simp add: request_id_at_def string_text_def b)
qed

lemma found_identifier:
  assumes "valid_request_id (JStr rid)"
  shows "request_id_from_prefix (CHR ''{'' # request_id_key @ CHR '':'' # string_text True rid @ rest) = JStr rid"
proof -
  let ?s = "request_id_key @ CHR '':'' # string_text True rid @ rest"
  have none: "request_id_at (CHR ''{'' # ?s) = None" by (simp add: request_id_at_def request_id_key_def)
  obtain c t where s: "?s = c # t" by (simp add: request_id_key_def)
  have "search_request_id ?s = Some (string_text True rid)"
    using request_id_at_key [of rid rest] unfolding s by simp
  then have search: "search_request_id (CHR ''{'' # ?s) = Some (string_text True rid)" using none by simp
  have "length rid \<le> 128" using assms by (simp add: max_request_id_chars_def)
  then have "\<not> max_encoded_request_id_bytes < length (string_text True rid)"
    using string_text_length [of rid] by (simp add: max_encoded_request_id_bytes_def max_request_id_chars_def)
  moreover have "json_loads_bytes (string_text True rid) = Some (JStr rid)"
    using json_roundtrip [of "JStr rid" True] printable_lines(2) [OF string_text_printable]
    by (simp add: json_loads_bytes_def)
  ultimately show ?thesis using assms
    by (simp add: request_id_from_prefix_def search del: search_request_id.simps)
qed

lemma request_text_front:
  "\<exists>more. json_text True False (JDict ((''request_id'', JStr rid) # fs))
     = CHR ''{'' # request_id_key @ CHR '':'' # string_text True rid @ more"
proof -
  have "string_text True ''request_id'' = request_id_key"
    by (simp add: string_text_def request_id_key_def escape_char_def code_point_def)
  then show ?thesis
    unfolding json_text_dict by (cases fs) (simp_all add: member_text_def)
qed

lemma prefix_names_request:
  assumes id: "valid_request_id (JStr rid)"
    and n: "max_encoded_request_id_bytes + 14 \<le> n"
  shows "request_id_from_prefix (take n (json_text True False (JDict ((''request_id'', JStr rid) # fs)) @ rest)) = JStr rid"
proof -
  obtain more where t: "json_text True False (JDict ((''request_id'', JStr rid) # fs))
     = CHR ''{'' # request_id_key @ CHR '':'' # string_text True rid @ more" using request_text_front by blast
  have "length rid \<le> 128" using id by (simp add: max_request_id_chars_def)
  then have len: "length (string_text True rid) + 14 \<le> n"
    using n string_text_length [of rid] by (simp add: max_encoded_request_id_bytes_def max_request_id_chars_def)
  have k: "length request_id_key = 12" by (simp add: request_id_key_def)
  let ?u = "CHR ''{'' # request_id_key @ CHR '':'' # string_text True rid"
  have u: "length ?u = length (string_text True rid) + 14" by (simp add: k)
  then have "take n (?u @ more @ rest) = ?u @ take (n - length ?u) (more @ rest)"
    using len by (simp only: take_append) simp
  then show ?thesis
    using found_identifier [OF id, of "take (n - length ?u) (more @ rest)"] unfolding t by simp
qed

end
