(* ===== verification/Rpc_Properties.thy ===== *)
theory Rpc_Properties
  imports Rpc_Frames
begin

text \<open>
  What the RPC seam promises: a call through it is the call on the supervisor, requests on one
  connection are answered once and in order, a watch delivers what the supervisor's watch yields,
  and frames that are too long are refused by name.
\<close>

section \<open>Requests and responses read back\<close>

definition request_frame :: "string \<Rightarrow> string \<Rightarrow> (string \<times> json) list \<Rightarrow> (string \<times> json) list" where
  "request_frame rid method params =
     [(''request_id'', JStr rid), (''method'', JStr method), (''params'', JDict params)]"

lemma request_frame_wf: "json_wf (JDict (request_frame rid method params)) = json_wf (JDict params)"
  by (simp add: request_frame_def)

lemma decode_request_frame:
  assumes "valid_request_id (JStr rid)" and "method \<noteq> []" and "json_wf (JDict params)"
  shows "decode_request (frame_line (request_frame rid method params))
     = Inr \<lparr>rq_id = JStr rid, rq_method = method, rq_params = params\<rparr>"
proof -
  have "json_loads_bytes (frame_line (request_frame rid method params)) = Some (JDict (request_frame rid method params))"
    using assms(3) by (intro frame_line_props(1)) (simp only: request_frame_wf)
  then show ?thesis
    using assms(1,2) by (simp add: decode_request_def request_frame_def validate_fields_def has_key_def)
qed

lemma success_wf: "json_wf (JDict (success (JStr rid) v)) = json_wf v"
  by (simp add: success_def)

lemma failure_wf: "json_wf (JDict (failure (JStr rid) code m ws))" "json_wf (JDict (failure JNull code m ws))"
  by (auto simp: failure_def jstrings_def)

lemma success_reads:
  assumes "json_wf v"
  shows "validated_response (frame_line (success (JStr rid) v)) rid = Inr (success (JStr rid) v)"
  using frame_line_props(1) [of "success (JStr rid) v"] assms
  by (simp add: validated_response_def success_wf del: json_wf.simps) (simp add: success_def)

lemma failure_reads:
  assumes "ws = normalize_preflight_warnings ws"
  shows "validated_response (frame_line (failure (JStr rid) code m ws)) rid = Inl (RPCClientError code m ws)"
proof -
  have "jstr_list (jstrings ws) = Some ws" by simp
  then have "response_failure (map_of (failure (JStr rid) code m ws) ''error'') = RPCClientError code m ws"
    using assms [symmetric] by (auto simp: response_failure_def failure_def normalize_preflight_warnings_def)
  then show ?thesis
    using frame_line_props(1) [OF failure_wf(1), of rid code m ws]
    by (simp add: validated_response_def del: json_wf.simps) (simp add: failure_def)
qed

lemma write_success:
  "json_wf v \<Longrightarrow> write_frame (success (JStr rid) v)
     = (if frame_fits (success (JStr rid) v) then Inr (frame_line (success (JStr rid) v)) else Inl (FrameTooLarge (JStr rid)))"
  by (subst write_frame_eq) (auto simp: success_def dest: json_wf_jsonable)

lemma write_failure:
  "write_frame (failure (JStr rid) code m ws)
     = (if frame_fits (failure (JStr rid) code m ws) then Inr (frame_line (failure (JStr rid) code m ws))
        else Inl (FrameTooLarge (JStr rid)))"
  by (subst write_frame_eq) (auto simp: failure_def jstrings_def)

lemma frame_limit_length: "length frame_limit_message = 41"
  by (simp add: frame_limit_message_def max_frame_bytes_def nat_text.simps)

lemma error_frame_fits:
  assumes "valid_request_id (JStr rid)" and "length code \<le> 128" and "length m \<le> 128"
  shows "frame_fits (failure (JStr rid) code m [])"
proof -
  have e: "json_text True False (JDict (failure (JStr rid) code m []))
    = ''{'' @ string_text True ''request_id'' @ '':'' @ string_text True rid @ '','' @ string_text True ''ok'' @ '':false,''
      @ string_text True ''error'' @ '':{'' @ string_text True ''code'' @ '':'' @ string_text True code @ '',''
      @ string_text True ''message'' @ '':'' @ string_text True m @ ''}}''"
    by (simp add: failure_def)
  have b: "length (string_text True s) \<le> 6 * 128 + 2" if "length s \<le> 128" for s
    using string_text_length [of s] that by linarith
  note bs = b [of "''request_id''"] b [of rid] b [of "''ok''"] b [of "''error''"] b [of "''code''"]
    b [OF assms(2)] b [of "''message''"] b [OF assms(3)]
  have "length rid \<le> 128" using assms(1) by (simp add: max_request_id_chars_def)
  then show ?thesis
    unfolding frame_fits_def e using bs by (simp add: max_frame_bytes_def)
qed

lemma limit_failure_fits:
  "valid_request_id (JStr rid) \<Longrightarrow> frame_fits (failure (JStr rid) ''frame_too_large'' frame_limit_message [])"
  by (rule error_frame_fits) (simp_all add: frame_limit_length)

section \<open>A call is the call on the supervisor\<close>

text \<open>The bytes a connection sends back to a client that sends \<open>bytes\<close>.\<close>

definition served_bytes :: "'s served \<Rightarrow> 's \<Rightarrow> string \<Rightarrow> string" where
  "served_bytes sv s bytes = concat (fst (snd (serve sv bytes s)))"

text \<open>The error a client sees for an exception of the supervisor.\<close>

definition seen_error :: "py_exn \<Rightarrow> client_exn" where
  "seen_error e =
     (case e of
        SupervisorError code message warnings \<Rightarrow> RPCClientError code message warnings
      | _ \<Rightarrow> if invalid_request_error e then client_error ''invalid_request'' (exn_message e)
             else client_error ''sdk_protocol_error'' ''Supervisor request failed.'')"

definition closed_early :: client_exn where
  "closed_early = client_error ''sdk_protocol_error'' ''Supervisor closed without a response.''"

definition error_fits :: "string \<Rightarrow> py_exn \<Rightarrow> bool" where
  "error_fits rid e = (case error_reply (JStr rid) (Raised e) of None \<Rightarrow> False | Some f \<Rightarrow> frame_fits f)"

text \<open>Results the seam can carry: JSON values, and errors with the warnings of a preflight.\<close>

definition portable :: "json res \<Rightarrow> bool" where
  "portable r =
     (case r of
        Inr v \<Rightarrow> json_wf v
      | Inl (SupervisorError c m ws) \<Rightarrow> ws = normalize_preflight_warnings ws
      | Inl e \<Rightarrow> True)"

definition seen_result :: "string \<Rightarrow> json res \<Rightarrow> json client" where
  "seen_result rid r =
     (case r of
        Inr v \<Rightarrow> if frame_fits (success (JStr rid) v) then Inr v else Inl frame_too_large
      | Inl e \<Rightarrow> Inl (if error_fits rid e then seen_error e else closed_early))"

lemma error_reply_cases:
  obtains (cancelled) "e = CancelledError" "error_reply (JStr rid) (Raised e) = None"
  | (shown) code m ws where "error_reply (JStr rid) (Raised e) = Some (failure (JStr rid) code m ws)"
      "seen_error e = RPCClientError code m ws" "portable (Inl e) \<Longrightarrow> ws = normalize_preflight_warnings ws"
  by (cases e) (auto simp: error_reply_def seen_error_def client_error_def portable_def normalize_preflight_warnings_def)

lemma answer_raised:
  "answer_error (JStr rid) (Raised e) =
     (case error_reply (JStr rid) (Raised e) of
        Some f \<Rightarrow> if frame_fits f then ([frame_line f], NextRequest) else ([], ConnectionRaises (FrameTooLarge (JStr rid)))
      | None \<Rightarrow> ([], ConnectionRaises (Raised e)))"
  by (cases rule: error_reply_cases [of e rid]) (auto simp: answer_error_def write_failure)

lemma answer_oversize:
  assumes "valid_request_id (JStr rid)"
  shows "answer_error r (FrameTooLarge (JStr rid))
     = ([frame_line (failure (JStr rid) ''frame_too_large'' frame_limit_message [])], ConnectionDone)"
  using limit_failure_fits [OF assms] by (simp add: answer_error_def error_reply_def write_failure)

text \<open>The reply to one request, by the outcome of its call.\<close>

definition reply_to :: "string \<Rightarrow> json res \<Rightarrow> string list \<times> conn_next" where
  "reply_to rid r =
     (case r of
        Inr v \<Rightarrow> if frame_fits (success (JStr rid) v) then ([frame_line (success (JStr rid) v)], NextRequest)
                 else answer_error (JStr rid) (FrameTooLarge (JStr rid))
      | Inl e \<Rightarrow> answer_error (JStr rid) (Raised e))"

lemma serve_line_request:
  assumes "valid_request_id (JStr rid)" and "method \<notin> {[], ''watch''}" and "json_wf (JDict params)"
    and "dispatch sv method params s = (s', r)" and "portable r"
  shows "serve_line sv (frame_line (request_frame rid method params)) s = (s', reply_to rid r)"
  using assms
  by (cases r) (auto simp: serve_line_def decode_request_frame reply_to_def write_success portable_def simp del: json_wf.simps)

lemma serve_request:
  assumes "valid_request_id (JStr rid)" and "method \<notin> {[], ''watch''}" and "json_wf (JDict params)"
    and "frame_fits (request_frame rid method params)"
    and "dispatch sv method params s = (s', r)" and "portable r"
  shows "serve sv (frame_line (request_frame rid method params) @ rest) s =
     (case reply_to rid r of
        (out, NextRequest) \<Rightarrow> (let (s2, more, ended) = serve sv rest s' in (s2, out @ more, ended))
      | (out, ended) \<Rightarrow> (s', out, ended))"
proof -
  have "read_frame JNull (frame_line (request_frame rid method params) @ rest)
      = Frame (frame_line (request_frame rid method params)) rest"
    using assms(3,4) by (intro frame_line_props(2)) (simp_all only: request_frame_wf)
  then show ?thesis
    using serve_line_request [OF assms(1-3,5,6)]
    by (subst serve.simps) (simp split: prod.splits conn_next.splits)
qed

lemma serve_nothing: "serve sv [] s = (s, [], ConnectionDone)"
  by (simp add: serve.simps read_frame_def)

lemma read_reply:
  assumes "json_wf (JDict f)" and "frame_fits f"
  shows "read_response (frame_line f @ rest) rid =
     (case validated_response (frame_line f) rid of Inl e \<Rightarrow> Inl e | Inr d \<Rightarrow> Inr (d, rest))"
  using frame_line_props(2) [OF assms] by (simp add: read_response_def)

lemma read_no_reply: "read_response [] rid = Inl closed_early"
  by (simp add: read_response_def read_frame_def protocol_error_def closed_early_def)

lemma client_request_eq:
  assumes "valid_request_id (JStr rid)" and "json_wf (JDict params)"
  shows "client_request rid method params =
     (if frame_fits (request_frame rid method params) then Inr (frame_line (request_frame rid method params))
      else Inl frame_too_large)"
proof -
  have "write_frame (request_frame rid method params) =
      (if frame_fits (request_frame rid method params) then Inr (frame_line (request_frame rid method params))
       else Inl (FrameTooLarge (JStr rid)))"
    using assms(2) by (subst write_frame_eq) (auto simp: request_frame_def dest: json_wf_jsonable)
  then show ?thesis using assms(1) by (simp add: client_request_def request_frame_def del: valid_request_id.simps)
qed

lemma client_reads_reply:
  assumes id: "valid_request_id (JStr rid)" and p: "portable r"
  shows "(case read_response (concat (fst (reply_to rid r))) rid of
            Inl e \<Rightarrow> Inl e | Inr (d, rest) \<Rightarrow> Inr (the (map_of d ''result''))) = seen_result rid r"
proof (cases r)
  case (Inr v)
  have wf: "json_wf v" using p Inr by (simp add: portable_def)
  show ?thesis
  proof (cases "frame_fits (success (JStr rid) v)")
    case True
    have "read_response (frame_line (success (JStr rid) v)) rid = Inr (success (JStr rid) v, [])"
      using read_reply [of "success (JStr rid) v" "[]"] True wf by (simp add: success_wf success_reads del: json_wf.simps)
    then show ?thesis using True Inr by (simp add: reply_to_def seen_result_def) (simp add: success_def)
  next
    case False
    have "read_response (frame_line (failure (JStr rid) ''frame_too_large'' frame_limit_message [])) rid = Inl frame_too_large"
      using read_reply [OF failure_wf(1) limit_failure_fits [OF id], of "[]"]
      by (simp add: failure_reads normalize_preflight_warnings_def frame_too_large_def client_error_def)
    then show ?thesis using False Inr by (simp add: reply_to_def seen_result_def answer_oversize [OF id])
  qed
next
  case (Inl e)
  show ?thesis
  proof (cases rule: error_reply_cases [of e rid])
    case cancelled
    then show ?thesis using Inl by (simp add: reply_to_def seen_result_def answer_raised error_fits_def read_no_reply)
  next
    case (shown code m ws)
    have ws: "ws = normalize_preflight_warnings ws" using shown(3) p Inl by simp
    have "frame_fits (failure (JStr rid) code m ws) \<Longrightarrow>
        read_response (frame_line (failure (JStr rid) code m ws)) rid = Inl (RPCClientError code m ws)"
      using read_reply [OF failure_wf(1), of rid code m ws "[]"] failure_reads [OF ws] by simp
    then show ?thesis
      using Inl shown(1,2) by (simp add: reply_to_def seen_result_def answer_raised error_fits_def read_no_reply)
  qed
qed

lemma rpc_call_seen:
  assumes "valid_request_id (JStr rid)" and "method \<notin> {[], ''watch''}" and "json_wf (JDict params)"
    and "frame_fits (request_frame rid method params)"
    and "dispatch sv method params s = (s', r)" and "portable r"
  shows "client_call (Some (served_bytes sv s)) rid method params = seen_result rid r
     \<and> fst (serve sv (frame_line (request_frame rid method params)) s) = s'"
proof -
  let ?line = "frame_line (request_frame rid method params)"
  obtain out next' where reply: "reply_to rid r = (out, next')" by force
  have served: "served_bytes sv s ?line = concat out" "fst (serve sv ?line s) = s'"
    using serve_request [OF assms, of "[]"] by (auto simp: served_bytes_def reply serve_nothing split: conn_next.splits)
  have "client_call (Some (served_bytes sv s)) rid method params
      = (case read_response (concat out) rid of
            Inl e \<Rightarrow> Inl e | Inr (d, rest) \<Rightarrow> Inr (the (map_of d ''result'')))"
    using assms(1,4) by (simp add: client_call_def client_request_eq [OF assms(1,3)] served del: valid_request_id.simps)
  with client_reads_reply [OF assms(1,6)] served reply show ?thesis by simp
qed

text \<open>C12: A call over the socket is the call on the supervisor: it is made exactly once, with the method and
  parameters the client named, and the client gets the value it returned, or an error with the code,
  message and warnings of the exception it raised. The exceptions are results that do not fit a
  frame, which the client sees as \<open>frame_too_large\<close>, and error messages that do not fit one, after
  which it sees the connection closed.\<close>

theorem rpc_call_transparent:
  assumes "valid_request_id (JStr rid)" and "method \<notin> {[], ''watch''}" and "json_wf (JDict params)"
    and "frame_fits (request_frame rid method params)"
    and "dispatch sv method params s = (s', r)" and "portable r"
  shows "client_call (Some (served_bytes sv s)) rid method params = seen_result rid r
     \<and> fst (serve sv (frame_line (request_frame rid method params)) s) = s'"
  by (rule rpc_call_seen [OF assms])

section \<open>Frames that are too long\<close>

lemma oversize_read:
  assumes "valid_request_id (JStr rid)" and "json_wf (JDict params)"
    and "\<not> frame_fits (request_frame rid method params)"
  shows "read_frame JNull (frame_line (request_frame rid method params) @ rest) = Oversized (JStr rid)"
proof -
  let ?t = "json_text True False (JDict (request_frame rid method params))"
  have wf: "json_wf (JDict (request_frame rid method params))" using assms(2) by (simp only: request_frame_wf)
  have line: "takeWhile (\<lambda>c. c \<noteq> newline) (?t @ [newline] @ rest) = ?t"
    using frame_line_props(3) [OF wf] by (subst takeWhile_append2) auto
  have known: "request_id_from_prefix (take n (?t @ r)) = JStr rid" if "max_frame_bytes \<le> n" for n r
    unfolding request_frame_def
    by (rule prefix_names_request [OF assms(1)])
      (use that in \<open>simp add: max_encoded_request_id_bytes_def max_request_id_chars_def max_frame_bytes_def\<close>)
  have long: "max_frame_bytes \<le> length ?t" using assms(3) by (simp add: frame_fits_def)
  have ne: "?t @ newline # rest \<noteq> []" by simp
  show ?thesis
    using line long known [of max_frame_bytes "newline # rest"] known [of "Suc (length ?t)" "newline # rest"]
    by (simp add: read_frame_def frame_line_def Let_def del: json_text.simps)
qed

text \<open>C35: A request that does not fit a frame is refused, never cut: the client does not send it, and a server
  that receives it anyway makes no call, answers with the error \<open>frame_too_large\<close> under the request's
  own identifier, read from the front of the frame, and ends the connection.\<close>

theorem oversize_request_refused:
  assumes "valid_request_id (JStr rid)" and "json_wf (JDict params)"
    and "\<not> frame_fits (request_frame rid method params)"
  shows "client_call (Some peer) rid method params = Inl frame_too_large
     \<and> serve sv (frame_line (request_frame rid method params) @ rest) s
       = (s, [frame_line (failure (JStr rid) ''frame_too_large'' frame_limit_message [])], ConnectionDone)
     \<and> validated_response (frame_line (failure (JStr rid) ''frame_too_large'' frame_limit_message [])) rid
       = Inl frame_too_large"
proof (intro conjI)
  show "client_call (Some peer) rid method params = Inl frame_too_large"
    using assms(1,3) by (simp add: client_call_def client_request_eq [OF assms(1,2)] del: valid_request_id.simps)
  show "serve sv (frame_line (request_frame rid method params) @ rest) s
       = (s, [frame_line (failure (JStr rid) ''frame_too_large'' frame_limit_message [])], ConnectionDone)"
    by (subst serve.simps) (simp add: oversize_read [OF assms] answer_oversize [OF assms(1)])
  show "validated_response (frame_line (failure (JStr rid) ''frame_too_large'' frame_limit_message [])) rid
       = Inl frame_too_large"
    by (subst failure_reads) (simp_all add: normalize_preflight_warnings_def frame_too_large_def client_error_def)
qed

section \<open>Watching through the seam\<close>

definition event_frame :: "string \<Rightarrow> json \<Rightarrow> (string \<times> json) list" where
  "event_frame rid e = success (JStr rid) (JDict [(''event'', e)])"

definition watch_close :: "string \<Rightarrow> bool \<Rightarrow> unit res \<Rightarrow> json res \<Rightarrow> ((string \<times> json) list) res" where
  "watch_close rid follow ended st = res_bind ended (\<lambda>_. res_bind st (end_frame (JStr rid) follow))"

lemma event_frame_wf: "json_wf (JDict (event_frame rid e)) = json_wf e"
  by (simp add: event_frame_def success_def)

lemma write_events:
  assumes "\<forall>e \<in> set evs. json_wf e \<and> frame_fits (event_frame rid e)"
  shows "write_all (map (event_frame rid) evs) = (map (\<lambda>e. frame_line (event_frame rid e)) evs, Inr ())"
  using assms
proof (induction evs)
  case (Cons e es)
  then have "write_frame (event_frame rid e) = Inr (frame_line (event_frame rid e))"
    by (simp add: event_frame_def write_success)
  with Cons show ?case by simp
qed simp

lemma watch_loop_event:
  assumes "json_wf e" and "is_jdict e" and "frame_fits (event_frame rid e)"
  shows "watch_loop rid follow (frame_line (event_frame rid e) @ rest)
     = (let (evs, ended) = watch_loop rid follow rest in (e # evs, ended))"
proof -
  have "validated_response (frame_line (event_frame rid e)) rid = Inr (event_frame rid e)"
    using assms(1) by (simp add: event_frame_def success_reads)
  moreover have "watch_item follow (the (map_of (event_frame rid e) ''result'')) = Inr (Some e)"
    using assms(2) by (simp add: event_frame_def success_def watch_item_def same_fields_def)
  moreover have "read_frame (JStr rid) (frame_line (event_frame rid e) @ rest) = Frame (frame_line (event_frame rid e)) rest"
    using assms(1,3) by (intro frame_line_props(2)) (simp_all only: event_frame_wf)
  ultimately show ?thesis by (subst watch_loop.simps) simp
qed

lemma watch_loop_events:
  assumes "\<forall>e \<in> set evs. json_wf e \<and> is_jdict e \<and> frame_fits (event_frame rid e)"
  shows "watch_loop rid follow (concat (map (\<lambda>e. frame_line (event_frame rid e)) evs) @ rest)
     = (let (more, ended) = watch_loop rid follow rest in (evs @ more, ended))"
  using assms by (induction evs) (simp_all add: watch_loop_event split: prod.split)

lemma watch_loop_failure:
  assumes "frame_fits (failure (JStr rid) code m ws)" and "ws = normalize_preflight_warnings ws"
  shows "watch_loop rid follow (frame_line (failure (JStr rid) code m ws) @ rest) = ([], Some (RPCClientError code m ws))"
  using assms by (subst watch_loop.simps) (simp add: frame_line_props(2) [OF failure_wf(1)] failure_reads [OF assms(2)])

lemma end_frame_shape:
  assumes "end_frame (JStr rid) follow st = Inr f" and "jget st ''event_cursor'' = Some (JInt i)" and "0 \<le> i"
  shows "json_wf (JDict f)" and "validated_response (frame_line f) rid = Inr f"
    and "watch_item follow (the (map_of f ''result'')) = Inr None"
proof -
  obtain state where state: "jget st ''state'' = Some (JStr state)"
    "f = success (JStr rid) (JDict [(''end'', JDict [(''reason'', JStr (if follow then ''terminal'' else ''replay_complete'')),
       (''cursor'', JInt i), (''state'', JStr state)])])"
    "follow \<longrightarrow> state \<in> set terminal_names"
    using assms(1,2) by (auto simp: end_frame_def is_jstr_iff split: option.splits if_splits)
  show "json_wf (JDict f)" by (simp add: state success_def)
  show "validated_response (frame_line f) rid = Inr f" unfolding state(2) by (rule success_reads) simp
  have "same_fields [(''end'', j)] [''end'']" "\<not> same_fields [(''end'', j)] [''event'']" for j
    by (auto simp: same_fields_def)
  then show "watch_item follow (the (map_of f ''result'')) = Inr None"
    using state(3) assms(3) by (auto simp: state(2) success_def watch_item_def watch_end_ok_def) (auto simp: same_fields_def)
qed

lemma parse_watch_follow:
  "parse_watch params = Inr (wid, since, follow) \<Longrightarrow> follow = (map_of params ''follow'' = Some (JBool True))"
  by (auto simp: parse_watch_def boolean_field_def res_simps split: option.splits json.splits)

text \<open>What \<open>serve\<close> writes for a watch whose events all fit.\<close>

lemma watch_frames_written:
  assumes "frame_fits (success (JStr rid) (JDict [(''worker_id'', JStr wid), (''since'', JInt since), (''follow'', JBool follow)]))"
      (is "frame_fits ?ack")
    and "sv_watch sv wid since follow s = (s1, evs, ended)"
    and "\<forall>e \<in> set evs. json_wf e \<and> frame_fits (event_frame rid e)"
    and "sv_call sv (CallStatus wid) s1 = (s2, st)"
    and "\<forall>f. watch_close rid follow ended st = Inr f \<longrightarrow> json_wf (JDict f) \<and> frame_fits f"
  shows "\<exists>t. watch_frames sv (JStr rid) wid since follow s =
     (t, frame_line ?ack # map (\<lambda>e. frame_line (event_frame rid e)) evs
        @ (case watch_close rid follow ended st of Inr f \<Rightarrow> [frame_line f] | Inl e \<Rightarrow> []),
      (case watch_close rid follow ended st of Inr f \<Rightarrow> Inr () | Inl e \<Rightarrow> Inl (Raised e)))"
proof -
  have ack: "write_frame ?ack = Inr (frame_line ?ack)" using assms(1) by (simp add: write_success)
  have out: "write_all (map (\<lambda>e. success (JStr rid) (JDict [(''event'', e)])) evs)
      = (map (\<lambda>e. frame_line (event_frame rid e)) evs, Inr ())"
    using write_events [OF assms(3)] by (simp add: event_frame_def [abs_def])
  have fin: "write_frame f = Inr (frame_line f)" if "watch_close rid follow ended st = Inr f" for f
    using assms(5) that by (subst write_frame_eq) (auto dest: json_wf_jsonable)
  show ?thesis
  proof (cases ended)
    case (Inl e)
    then show ?thesis using ack out assms(2) by (simp add: watch_frames_def watch_close_def)
  next
    case (Inr u)
    then have "watch_close rid follow ended st = res_bind st (end_frame (JStr rid) follow)" by (simp add: watch_close_def)
    then show ?thesis
      using ack out fin assms(2,4) Inr
      by (cases "res_bind st (end_frame (JStr rid) follow)") (simp_all add: watch_frames_def)
  qed
qed

lemma ack_frame_ok:
  "frame_fits (success (JStr rid) (JDict [(''worker_id'', JStr wid), (''since'', JInt since), (''follow'', JBool follow)])) \<Longrightarrow>
   read_response (frame_line (success (JStr rid) (JDict [(''worker_id'', JStr wid), (''since'', JInt since), (''follow'', JBool follow)]))
     @ rest) rid = Inr (success (JStr rid) (JDict [(''worker_id'', JStr wid), (''since'', JInt since), (''follow'', JBool follow)]), rest)"
  by (subst read_reply) (simp_all add: success_reads, simp add: success_def)

text \<open>A watch over the socket delivers exactly the events the supervisor's watch yields, in their order and
  without loss. It ends without an error exactly when the supervisor's watch ended so and the worker's
  status allows the end to be announced; otherwise the client gets the error after all the events.\<close>

lemma rpc_watch_transparent:
  assumes "valid_request_id (JStr rid)" and "json_wf (JDict params)" and "frame_fits (request_frame rid ''watch'' params)"
    and "parse_watch params = Inr (wid, since, follow)"
    and "sv_call sv (CallStatus wid) s = (s1, Inr known)"
    and "frame_fits (success (JStr rid) (JDict [(''worker_id'', JStr wid), (''since'', JInt since), (''follow'', JBool follow)]))"
    and "sv_watch sv wid since follow s1 = (s2, evs, ended)"
    and "\<forall>e \<in> set evs. json_wf e \<and> is_jdict e \<and> frame_fits (event_frame rid e)"
    and "sv_call sv (CallStatus wid) s2 = (s3, st)"
    and "\<forall>v. st = Inr v \<longrightarrow> (\<exists>i \<ge> 0. jget v ''event_cursor'' = Some (JInt i))"
    and "\<forall>f. watch_close rid follow ended st = Inr f \<longrightarrow> frame_fits f"
    and "\<forall>e. watch_close rid follow ended st = Inl e \<longrightarrow> portable (Inl e) \<and> error_fits rid e"
  shows "client_watch (Some (served_bytes sv s)) rid params =
     (evs, (case watch_close rid follow ended st of Inr f \<Rightarrow> None | Inl e \<Rightarrow> Some (seen_error e)))"
proof -
  let ?ack = "success (JStr rid) (JDict [(''worker_id'', JStr wid), (''since'', JInt since), (''follow'', JBool follow)])"
  let ?line = "frame_line (request_frame rid ''watch'' params)"
  let ?close = "watch_close rid follow ended st"
  let ?out = "frame_line ?ack # map (\<lambda>e. frame_line (event_frame rid e)) evs"
  have final: "json_wf (JDict f) \<and> validated_response (frame_line f) rid = Inr f
      \<and> watch_item follow (the (map_of f ''result'')) = Inr None" if close: "?close = Inr f" for f
  proof -
    obtain v where "st = Inr v" "end_frame (JStr rid) follow v = Inr f"
      using close by (auto simp: watch_close_def res_simps)
    then show ?thesis using assms(10) end_frame_shape [of rid follow v f] by auto
  qed
  obtain t where frames: "watch_frames sv (JStr rid) wid since follow s1 =
     (t, ?out @ (case ?close of Inr f \<Rightarrow> [frame_line f] | Inl e \<Rightarrow> []),
      (case ?close of Inr f \<Rightarrow> Inr () | Inl e \<Rightarrow> Inl (Raised e)))"
    using watch_frames_written [OF assms(6,7) _ assms(9)] assms(8,11) final by fastforce
  have stream: "stream_watch sv (JStr rid) params s = watch_frames sv (JStr rid) wid since follow s1"
    using assms(4,5) by (simp add: stream_watch_def)
  have wf: "json_wf (JDict (request_frame rid ''watch'' params))" using assms(2) by (simp only: request_frame_wf)
  have read: "read_frame JNull ?line = Frame ?line []"
    using frame_line_props(2) [OF wf assms(3), of JNull "[]"] by simp
  have line: "serve_line sv ?line s =
     (case ?close of
        Inr f \<Rightarrow> (t, ?out @ [frame_line f], ConnectionDone)
      | Inl e \<Rightarrow> (t, ?out @ fst (answer_error (JStr rid) (Raised e)), snd (answer_error (JStr rid) (Raised e))))"
    using assms(1,2)
    by (simp add: serve_line_def decode_request_frame stream frames split_beta split: sum.split del: json_wf.simps valid_request_id.simps)
  obtain tail ending where tail: "served_bytes sv s ?line = concat ?out @ tail" "watch_loop rid follow tail = ([], ending)"
    "ending = (case ?close of Inr f \<Rightarrow> None | Inl e \<Rightarrow> Some (seen_error e))"
  proof (cases ?close)
    case (Inr f)
    then have "frame_fits f" using assms(11) by blast
    then have "watch_loop rid follow (frame_line f) = ([], None)"
      using final [OF Inr] frame_line_props(2) [of f "JStr rid" "[]"]
      by (subst watch_loop.simps) (simp del: json_wf.simps)
    moreover have "served_bytes sv s ?line = concat ?out @ frame_line f"
      unfolding served_bytes_def by (subst serve.simps) (simp add: read line Inr)
    ultimately show thesis using that Inr by simp
  next
    case (Inl e)
    show thesis
    proof (cases rule: error_reply_cases [of e rid])
      case cancelled
      then show thesis using assms(12) Inl by (simp add: error_fits_def)
    next
      case (shown code m ws)
      have p: "portable (Inl e)" "frame_fits (failure (JStr rid) code m ws)"
        using assms(12) Inl shown(1) by (simp_all add: error_fits_def)
      have ws: "ws = normalize_preflight_warnings ws" using shown(3) p(1) by simp
      have "answer_error (JStr rid) (Raised e) = ([frame_line (failure (JStr rid) code m ws)], NextRequest)"
        using shown(1) p(2) by (simp add: answer_raised)
      then have "served_bytes sv s ?line = concat ?out @ frame_line (failure (JStr rid) code m ws)"
        unfolding served_bytes_def by (subst serve.simps) (simp add: read line Inl serve_nothing)
      then show thesis
        using that watch_loop_failure [OF p(2) ws, of follow "[]"] shown(2) Inl by simp
    qed
  qed
  have out: "concat ?out = frame_line ?ack @ concat (map (\<lambda>e. frame_line (event_frame rid e)) evs)" by simp
  have loop: "watch_loop rid follow (concat (map (\<lambda>e. frame_line (event_frame rid e)) evs) @ tail) = (evs, ending)"
    using watch_loop_events [OF assms(8), of follow tail] tail(2) by simp
  have "(map_of params ''follow'' = Some (JBool True)) = follow" using parse_watch_follow [OF assms(4)] by simp
  then show ?thesis
    using assms(1,3) loop tail(1,3)
    by (simp add: client_watch_def client_request_eq [OF assms(1,2)] out ack_frame_ok [OF assms(6)] del: valid_request_id.simps)
qed

section \<open>Error messages that do not fit\<close>

text \<open>A request that fits a frame can name a method so long that the error reporting it does not fit: the
  exception leaves the handler of exceptions, and the connection is closed without a reply.\<close>

lemma escape_x: "length (string_text True (replicate n CHR ''x'')) = n + 2"
  by (induction n) (simp_all add: string_text_def escape_char_def code_point_def)

lemma oversize_error_unreported:
  assumes "method = replicate (max_frame_bytes - 50) CHR ''x''"
  shows "frame_fits (request_frame ''r'' method [])
     \<and> serve sv (frame_line (request_frame ''r'' method [])) s = (s, [], ConnectionRaises (FrameTooLarge (JStr ''r'')))"
proof -
  have len: "length (string_text True method) = max_frame_bytes - 48" using escape_x [of "max_frame_bytes - 50"] assms
    by (simp add: max_frame_bytes_def)
  have request: "json_text True False (JDict (request_frame ''r'' method []))
    = ''{'' @ string_text True ''request_id'' @ '':'' @ string_text True ''r'' @ '','' @ string_text True ''method'' @ '':''
      @ string_text True method @ '','' @ string_text True ''params'' @ '':{}}''"
    by (simp add: request_frame_def)
  have small: "length (string_text True ''request_id'') = 12" "length (string_text True ''r'') = 3"
    "length (string_text True ''method'') = 8" "length (string_text True ''params'') = 8"
    by (simp_all add: string_text_def escape_char_def code_point_def)
  have fits: "frame_fits (request_frame ''r'' method [])"
    unfolding frame_fits_def request by (simp add: len small) (simp add: max_frame_bytes_def)
  let ?e = "ValueError (''Unknown RPC method: '' @ method)"
  have long: "length method = max_frame_bytes - 50" by (simp add: assms)
  have other: "method \<noteq> l" if "length l < 20" for l using that long by (auto simp: max_frame_bytes_def)
  have "parse_call method [] = Inl ?e" by (simp add: parse_call_def other)
  then have d: "dispatch sv method [] s = (s, Inl ?e)" by (simp add: dispatch_def)
  have "length (string_text True (''Unknown RPC method: '' @ method)) = max_frame_bytes - 28"
  proof -
    have "length (string_text True (a @ b)) + 2 = length (string_text True a) + length (string_text True b)" for a b
      by (simp add: string_text_def)
    note this [of "''Unknown RPC method: ''" "method"]
    moreover have "length (string_text True ''Unknown RPC method: '') = 22"
      by (simp add: string_text_def escape_char_def code_point_def)
    ultimately show ?thesis using len by (simp add: max_frame_bytes_def)
  qed
  moreover have "json_text True False (JDict (failure (JStr ''r'') ''invalid_request'' (''Unknown RPC method: '' @ method) []))
    = (''{'' @ string_text True ''request_id'' @ '':'' @ string_text True ''r'' @ '','' @ string_text True ''ok'' @ '':false,''
      @ string_text True ''error'' @ '':{'' @ string_text True ''code'' @ '':'' @ string_text True ''invalid_request'' @ '',''
      @ string_text True ''message'' @ '':'') @ string_text True (''Unknown RPC method: '' @ method) @ ''}}''"
    by (simp add: failure_def)
  moreover have "length (''{'' @ string_text True ''request_id'' @ '':'' @ string_text True ''r'' @ '','' @ string_text True ''ok'' @ '':false,''
      @ string_text True ''error'' @ '':{'' @ string_text True ''code'' @ '':'' @ string_text True ''invalid_request'' @ '',''
      @ string_text True ''message'' @ '':'') \<ge> 28"
    by (simp add: string_text_def escape_char_def code_point_def)
  ultimately have "\<not> frame_fits (failure (JStr ''r'') ''invalid_request'' (''Unknown RPC method: '' @ method) [])"
    by (simp add: frame_fits_def del: json_text.simps append.simps)
  then have reply: "reply_to ''r'' (Inl ?e) = ([], ConnectionRaises (FrameTooLarge (JStr ''r'')))"
    by (simp add: reply_to_def answer_raised error_reply_def)
  have "method \<notin> {[], ''watch''}" using other by simp
  from serve_request [OF _ this _ fits d, of "[]"] fits reply show ?thesis
    by (simp add: portable_def max_request_id_chars_def)
qed

end
