(* ===== verification/Handler_Shapes.thy ===== *)
theory Handler_Shapes
  imports Handlers
begin

text \<open>
  What handlers do to the database: payloads that are JSON, store operations that use only the
  identifiers they draw, and the outcome of the two handlers that resolve requests.
\<close>

section \<open>Payloads are JSON\<close>

lemma payloads_wf [simp]:
  "json_wf (health_payload h)" "json_wf (warning_payload w)" "json_wf (model_payload m)"
  "json_wf (JDict ((''schema_version'', JInt 1) # overlap_fields o'))"
  by (simp_all add: health_payload_def warning_payload_def model_payload_def overlap_fields_def)

lemma json_wf_jstrings [simp]: "json_wf (jstrings ss)"
  by (simp add: jstrings_def)

lemma json_wf_opt [simp]: "json_wf (opt_json t)"
  by (cases t) simp_all

lemma finding_wf: "json_wf (finding_dict f)"
  by (simp add: finding_dict_def)

lemma result_json_wf: "json_wf (result_json r)" "is_jdict (result_json r)"
  by (cases r; simp add: common_json_def finding_wf)+

lemma display_wf:
  assumes "approval_display env rid n request snapshot = Inr (Some d)"
  shows "json_wf (approval_payload d)"
proof (cases request)
  case (PermissionRequest r)
  with assms show ?thesis
    by (auto simp: approval_display_def approval_payload_def assoc_pop_def permission_choices_def
        split: if_splits option.splits)
next
  case (ElicitationRequest r)
  with assms show ?thesis
    by (auto simp: approval_display_def approval_payload_def assoc_pop_def elicitation_choices_def Let_def res_simps)
qed

section \<open>Identifiers drawn\<close>

text \<open>An identifier that names no event and no worker stays so until an operation draws it.\<close>

definition unused :: "string \<Rightarrow> db \<Rightarrow> bool" where
  "unused e db \<longleftrightarrow> fresh_event e db \<and> find_worker e db = None"

lemma unused_update [simp]:
  "(\<And>w. w_worker_id (f w) = w_worker_id w) \<Longrightarrow> unused e (update_worker wid f db) = unused e db"
  "unused e (update_attempt wid n g db) = unused e db"
  by (simp_all add: unused_def views)

lemma append_row_unused:
  "append_row env wid n ty p now eid db = Inr (db', ev) \<Longrightarrow> unused e db \<Longrightarrow> e \<noteq> eid \<Longrightarrow> unused e db'"
  by (auto simp: append_row_def res_simps Let_def insert_event_def unused_def fresh_event_def find_worker_def
      update_worker_def find_None_iff split: if_splits)

lemma project_event_unused: "project_event ev db = Inr db' \<Longrightarrow> unused e db \<Longrightarrow> unused e db'"
  by (auto simp: project_event_def Let_def project_state_def res_simps views unused_def
      split: if_splits option.splits json.splits)

lemma append_projected_unused:
  "append_projected env wid n ty p now eid db = Inr (db', ev) \<Longrightarrow> unused e db \<Longrightarrow> e \<noteq> eid \<Longrightarrow> unused e db'"
  by (auto simp: append_projected_def res_simps dest!: append_row_unused project_event_unused)

lemma append_all_unused:
  "append_all env wid n ty ps now ids i db = Inr (db', evs) \<Longrightarrow> unused e db \<Longrightarrow>
   e \<notin> ids ` {i ..< i + length ps} \<Longrightarrow> unused e db'"
proof (induction ps arbitrary: db i evs)
  case (Cons p ps)
  then obtain d1 e1 evs' where a: "append_row env wid n ty p now (ids i) db = Inr (d1, e1)"
    and b: "append_all env wid n ty ps now ids (Suc i) d1 = Inr (db', evs')"
    by (auto simp: res_simps)
  have "e \<noteq> ids i" using Cons.prems(3) by auto
  then have "unused e d1" by (rule append_row_unused [OF a Cons.prems(2)])
  moreover have "e \<notin> ids ` {Suc i ..< Suc i + length ps}" using Cons.prems(3) by auto
  ultimately show ?case by (rule Cons.IH [OF b])
qed simp

lemma transaction_unused:
  "unused e db \<Longrightarrow> (\<And>db' x. body = Inr (db', x) \<Longrightarrow> unused e db') \<Longrightarrow> unused e (fst (transaction db body))"
  by (auto simp: transaction_def split: sum.splits)

lemma create_worker_unused:
  assumes "unused e db" and "e \<noteq> chosen_id given fresh" and "e \<noteq> eid"
  shows "unused e (fst (create_worker env resolve n given fresh now eid db))"
proof -
  have "unused e db'" if "insert_worker (new_row (chosen_id given fresh) cwd n now) db = Inr d1" "insert_attempt a d1 = Inr d2"
      "append_row env (chosen_id given fresh) k ty p now eid d2 = Inr (db', ev)" for cwd d1 d2 db' ev a k ty p
  proof -
    have "w_worker_id (new_row (chosen_id given fresh) cwd n now) = chosen_id given fresh" by (simp add: new_row_def)
    then have "unused e d1"
      using that(1) assms by (auto simp: insert_worker_def unused_def find_worker_def find_append
          fresh_event_def split: if_splits)
    then have "unused e d2" using that(2)
      by (auto simp: insert_attempt_def unused_def find_worker_def fresh_event_def split: if_splits)
    then show ?thesis using append_row_unused [OF that(3)] assms by blast
  qed
  then have "unused e (fst (transaction db (res_bind (insert_worker (new_row (chosen_id given fresh) cwd n now) db) (\<lambda>db.
                   res_bind (insert_attempt (new_attempt (chosen_id given fresh) 1 now) db) (\<lambda>db.
                   append_row env (chosen_id given fresh) 1 ''worker.created'' (created_payload cwd (n_role n)) now eid db)))))" for cwd
    by (intro transaction_unused assms(1)) (auto simp: res_simps)
  then show ?thesis
    using assms(1) by (simp add: create_worker_def Let_def case_prod_beta split: option.split sum.split)
qed

lemma store_op_unused:
  assumes "unused e db"
  shows "e \<noteq> eid \<Longrightarrow> unused e (fst (start_attempt env wid now eid db))"
    and "e \<noteq> eid \<Longrightarrow> unused e (fst (append_event env wid ty payload now eid db))"
    and "e \<noteq> eid \<Longrightarrow> e \<noteq> eid' \<Longrightarrow> unused e (fst (record_approval_request env wid k payload now eid eid' db))"
    and "e \<noteq> eid \<Longrightarrow> e \<noteq> eid' \<Longrightarrow>
      unused e (fst (record_approval_resolution env wid k payload restore now eid eid' db))"
    and "e \<noteq> eid \<Longrightarrow> unused e (fst (record_result env wid oc summary f now eid db))"
proof -
  assume e: "e \<noteq> eid"
  show "unused e (fst (start_attempt env wid now eid db))"
    unfolding start_attempt_def using assms e
    by (intro transaction_unused)
      (auto simp: res_simps Let_def insert_attempt_def restart_row_def unused_def fresh_event_def find_worker_def
        update_worker_def find_None_iff split: if_splits dest!: append_row_unused [of _ _ _ _ _ _ _ _ _ _ e])
  show "unused e (fst (append_event env wid ty payload now eid db))"
    unfolding append_event_def using assms e
    by (auto split: sum.split intro!: transaction_unused simp: res_simps worker_or_Inr dest!: append_projected_unused)
  show "unused e (fst (record_result env wid oc summary f now eid db))"
    unfolding record_result_def using assms e
    by (auto split: sum.split intro!: transaction_unused
        simp: res_simps worker_or_Inr store_result_def dest!: append_row_unused)
  assume e': "e \<noteq> eid'"
  show "unused e (fst (record_approval_request env wid k payload now eid eid' db))"
    unfolding record_approval_request_def using assms e e'
    by (auto split: sum.split if_splits intro!: transaction_unused
        simp: res_simps worker_or_Inr dest!: append_row_unused append_projected_unused)
  show "unused e (fst (record_approval_resolution env wid k payload restore now eid eid' db))"
    unfolding record_approval_resolution_def using assms e e'
    by (auto split: sum.split if_splits intro!: transaction_unused
        simp: res_simps worker_or_Inr dest!: append_row_unused append_projected_unused)
qed

lemma validate_all_length: "validate_all env ty ps = Inr qs \<Longrightarrow> length qs = length ps"
  by (induction ps arbitrary: qs) (auto simp: res_simps)

lemma expire_unused:
  "unused e db \<Longrightarrow> e \<notin> ids ` {..<Suc (length rids)} \<Longrightarrow>
   unused e (fst (expire_approval_requests env wid k rids now ids db))"
  unfolding expire_approval_requests_def
  by (auto split: sum.split if_splits intro!: transaction_unused simp: res_simps worker_or_Inr
      dest!: append_all_unused append_projected_unused validate_all_length)

section \<open>Calls of the store\<close>

lemma store_op_steps:
  "store_step env db (fst (create_worker env resolve n given fresh now eid db))"
  "store_step env db (fst (start_attempt env wid now eid db))"
  "json_wf payload \<Longrightarrow> store_step env db (fst (append_event env wid ty payload now eid db))"
  "json_wf payload \<Longrightarrow> store_step env db (fst (record_approval_request env wid k payload now eid eid' db))"
  "json_wf payload \<Longrightarrow> store_step env db (fst (record_approval_resolution env wid k payload restore now eid eid' db))"
  "store_step env db (fst (expire_approval_requests env wid k rids now ids db))"
  "json_wf summary \<Longrightarrow> store_step env db (fst (record_result env wid oc summary f now eid db))"
  by (rule store_step.intros [OF prod.collapse [symmetric]]; assumption)+

text \<open>What each call of the store does: one step, which uses only the identifiers it draws.\<close>

definition store_call :: "environ \<Rightarrow> nat \<Rightarrow> (nat \<Rightarrow> string) \<Rightarrow> db \<Rightarrow> db \<Rightarrow> bool" where
  "store_call env k ids db db' \<longleftrightarrow>
     store_step env db db' \<and> (\<forall>e. unused e db \<and> e \<notin> ids ` {..<k} \<longrightarrow> unused e db')"

lemma store_calls':
  "store_call env 2 ids db (fst (create_worker env resolve n None (ids 0) now (ids 1) db))"
  "store_call env 1 ids db (fst (start_attempt env wid now (ids 0) db))"
  "json_wf payload \<Longrightarrow> store_call env 1 ids db (fst (append_event env wid ty payload now (ids 0) db))"
  "json_wf payload \<Longrightarrow>
   store_call env 3 ids db (fst (record_approval_request env wid k payload now (ids 1) (ids 2) db))"
  "json_wf payload \<Longrightarrow>
   store_call env 2 ids db (fst (record_approval_resolution env wid k payload restore now (ids 0) (ids 1) db))"
  "n' = Suc (length rids) \<Longrightarrow>
   store_call env n' ids db (fst (expire_approval_requests env wid k rids now ids db))"
  "json_wf summary \<Longrightarrow> store_call env 1 ids db (fst (record_result env wid oc summary f now (ids 0) db))"
  unfolding store_call_def
  by (auto simp: image_def chosen_id_def intro!: store_op_steps create_worker_unused store_op_unused expire_unused)

lemmas store_calls = store_calls' store_calls' [unfolded One_nat_def]

section \<open>What two handlers do\<close>

lemmas act_defs = act_bind_def act_then_def ret_def from_res_def reading_def modify_def guard_act_def
  raise_exn_def catching_def on_store_def

definition resolved_payload :: "string \<Rightarrow> approval_decision \<Rightarrow> json" where
  "resolved_payload rid d = JDict [(''schema_version'', JInt 1), (''request_id'', JStr rid),
     (''status'', JStr (approval_status d))]"

definition others_pending :: "string \<Rightarrow> pending_approval \<Rightarrow> sup \<Rightarrow> bool" where
  "others_pending rid p s = list_ex (\<lambda>(r, q). r \<noteq> rid \<and> pa_worker_id q = pa_worker_id p
     \<and> pa_attempt q = pa_attempt p) (s_pending s)"

definition resolution_of :: "sup_conf \<Rightarrow> string \<Rightarrow> pending_approval \<Rightarrow> approval_decision \<Rightarrow> sup \<Rightarrow> db \<times> event_record list res"
where
  "resolution_of c rid p d s = record_approval_resolution (c_env c) (pa_worker_id p) (pa_attempt p)
     (resolved_payload rid d) (\<not> others_pending rid p s) (c_now c (s_draws s)) (c_id c (s_draws s))
     (c_id c (Suc (s_draws s))) (s_db s)"

lemma resolution_call:
  "store_call (c_env c) 2 (\<lambda>i. c_id c (s_draws s + i)) (s_db s) (fst (resolution_of c rid p d s))"
  using store_calls(5) [of "resolved_payload rid d" "c_env c" "\<lambda>i. c_id c (s_draws s + i)" "s_db s"
      "pa_worker_id p" "pa_attempt p" "\<not> others_pending rid p s" "c_now c (s_draws s)"]
  by (simp add: resolution_of_def resolved_payload_def)

text \<open>A response that passes its checks, and one that does not.\<close>

lemma respond_resolves:
  assumes "map_of (s_pending s) rid = Some p" and "pa_worker_id p = wid" and "get_worker wid (s_db s) = Inr (Some wr)"
    and "w_attempt (wr_row wr) = pa_attempt p" "w_state (wr_row wr) = RequiresAction"
    and "map_of (s_live s) wid = Some (pa_attempt p)"
    and "parse_approval_response (c_lib c) (pa_request p) response (pa_snapshot p) = Inr d"
    and "resolution_of c rid p d s = (db, r)"
  shows "respond c wid rid response s =
     (case r of
        Inr evs \<Rightarrow> (answer rid d (s\<lparr>s_db := db, s_draws := s_draws s + 2\<rparr>),
          Inr [(''request_id'', JStr rid), (''status'', JStr (approval_status d))])
      | Inl e \<Rightarrow> (s\<lparr>s_db := db, s_draws := s_draws s + 2\<rparr>,
          Inl (case e of AttemptChangedError m \<Rightarrow> not_live_approval | _ \<Rightarrow> e)))"
proof -
  define e2 where "e2 = (case r of Inl e \<Rightarrow> (case e of AttemptChangedError m \<Rightarrow> not_live_approval | _ \<Rightarrow> e)
      | Inr evs \<Rightarrow> not_live_approval)"
  have c: "catching (on_store c 2 (\<lambda>now ids. record_approval_resolution (c_env c) wid (pa_attempt p)
        (resolved_payload rid d) (\<not> others_pending rid p s) now (ids 0) (ids 1)))
        (\<lambda>e. case e of AttemptChangedError m \<Rightarrow> Some (raise_exn not_live_approval) | _ \<Rightarrow> None) s
      = (s\<lparr>s_db := db, s_draws := s_draws s + 2\<rparr>, case r of Inl e \<Rightarrow> Inl e2 | Inr evs \<Rightarrow> Inr evs)"
    using assms(2,8)
    by (cases r; cases "projl r")
      (simp_all add: catching_def on_store_def resolution_of_def raise_exn_def e2_def)
  note c = c [unfolded resolved_payload_def others_pending_def assms(2)]
  show ?thesis
    using assms(1-7) c unfolding respond_def
    by (cases r) (simp_all add: act_bind_def act_then_def ret_def from_res_def reading_def modify_def guard_act_def
        require_worker_def e2_def)
qed

lemma respond_refuses:
  assumes "\<not> (\<exists>p wr d. map_of (s_pending s) rid = Some p \<and> pa_worker_id p = wid
      \<and> get_worker wid (s_db s) = Inr (Some wr) \<and> w_attempt (wr_row wr) = pa_attempt p
      \<and> w_state (wr_row wr) = RequiresAction \<and> map_of (s_live s) wid = Some (pa_attempt p)
      \<and> parse_approval_response (c_lib c) (pa_request p) response (pa_snapshot p) = Inr d)"
  shows "fst (respond c wid rid response s) = s \<and> isl (snd (respond c wid rid response s))"
proof (cases "map_of (s_pending s) rid")
  case (Some p)
  note r = Some act_bind_def act_then_def ret_def from_res_def reading_def raise_exn_def guard_act_def
    require_worker_def respond_def
  show ?thesis
  proof (cases "pa_worker_id p = wid")
    case wid: True
    show ?thesis
    proof (cases "get_worker wid (s_db s)")
      case (Inr found)
      show ?thesis
      proof (cases found)
        case (Some wr)
        with Inr assms \<open>map_of (s_pending s) rid = Some p\<close> wid show ?thesis
          by (cases "parse_approval_response (c_lib c) (pa_request p) response (pa_snapshot p)") (auto simp: r)
      qed (simp add: r wid Inr)
    qed (simp add: r wid)
  qed (simp add: r)
qed (simp add: respond_def act_bind_def reading_def raise_exn_def)

lemma respond_shape:
  "fst (respond c wid rid response s) = s
   \<or> (\<exists>db. store_call (c_env c) 2 (\<lambda>i. c_id c (s_draws s + i)) (s_db s) db
      \<and> (fst (respond c wid rid response s) = s\<lparr>s_db := db, s_draws := s_draws s + 2\<rparr>
         \<or> (\<exists>p d evs. map_of (s_pending s) rid = Some p \<and> resolution_of c rid p d s = (db, Inr evs)
            \<and> parse_approval_response (c_lib c) (pa_request p) response (pa_snapshot p) = Inr d
            \<and> fst (respond c wid rid response s) = answer rid d (s\<lparr>s_db := db, s_draws := s_draws s + 2\<rparr>))))"
proof (cases "fst (respond c wid rid response s) = s \<and> isl (snd (respond c wid rid response s))")
  case False
  with respond_refuses obtain p wr d where a: "map_of (s_pending s) rid = Some p" "pa_worker_id p = wid"
      "get_worker wid (s_db s) = Inr (Some wr)" "w_attempt (wr_row wr) = pa_attempt p"
      "w_state (wr_row wr) = RequiresAction" "map_of (s_live s) wid = Some (pa_attempt p)"
      "parse_approval_response (c_lib c) (pa_request p) response (pa_snapshot p) = Inr d"
    by blast
  obtain db r where b: "resolution_of c rid p d s = (db, r)" by (cases "resolution_of c rid p d s")
  with resolution_call have "store_call (c_env c) 2 (\<lambda>i. c_id c (s_draws s + i)) (s_db s) db"
    by (metis fst_conv)
  then show ?thesis unfolding respond_resolves [OF a b] using a(1,7) b by (cases r) auto
qed simp

definition pending_of :: "worker_id \<Rightarrow> nat \<Rightarrow> sup \<Rightarrow> (string \<times> pending_approval) list" where
  "pending_of wid n s = filter (\<lambda>(r, p). pa_worker_id p = wid \<and> pa_attempt p = n) (s_pending s)"

lemma has_key_put: "has_key r (assoc_put k v d) \<longleftrightarrow> r = k \<or> has_key r d"
  by (simp add: has_key_map_of)

lemma has_key_pop: "has_key r (assoc_pop k d) \<longleftrightarrow> r \<noteq> k \<and> has_key r d"
  by (simp add: has_key_map_of)

lemma fold_answer_live: "s_live (fold (\<lambda>(r, p). answer r (f p)) ps s) = s_live s"
  by (induction ps arbitrary: s) (auto simp: answer_def)

lemma complete_eq:
  "complete_live_attempt c wid n s =
     (if map_of (s_live s) wid \<noteq> Some n then (s, Inr ())
      else if pending_of wid n s = [] then (s\<lparr>s_live := assoc_pop wid (s_live s)\<rparr>, Inr ())
      else (case expire_approval_requests (c_env c) wid n (map fst (pending_of wid n s)) (c_now c (s_draws s))
                (\<lambda>i. c_id c (s_draws s + i)) (s_db s) of (db, r) \<Rightarrow>
        let s1 = s\<lparr>s_db := db, s_draws := s_draws s + Suc (length (pending_of wid n s))\<rparr>;
            s2 = fold (\<lambda>(r, p). answer r (default_decision (pa_request p))) (pending_of wid n s) s1;
            t = (s2\<lparr>s_live := assoc_pop wid (s_live s2)\<rparr>, Inr ())
        in if isl r \<and> (\<forall>m. projl r \<noteq> AttemptChangedError m) then (s1, Inl (projl r)) else t))"
  unfolding complete_live_attempt_def pending_of_def
  by (auto simp: act_defs Let_def split: sum.split prod.split py_exn.split)

end
