(* ===== verification/Handler_Effects.thy ===== *)
theory Handler_Effects
  imports Handler_Shapes
begin

text \<open>
  What every handler of the supervisor keeps, proved once for each way of composing handlers: a
  relation between the states before and after that is reflexive and transitive is kept by a
  handler when its steps keep it. It is used for four relations: the database only moves by store
  operations, a resolved future keeps its decision, shutting down is not undone, and identifiers
  not yet drawn are not in use.
\<close>

section \<open>Relations kept by handlers\<close>

definition keeps :: "(sup \<Rightarrow> sup \<Rightarrow> bool) \<Rightarrow> 'a act \<Rightarrow> bool" where
  "keeps rel m \<longleftrightarrow> (\<forall>s. rel s (fst (m s)))"

locale kept_relation =
  fixes rel :: "sup \<Rightarrow> sup \<Rightarrow> bool"
  assumes rel_refl: "rel s s"
    and rel_trans: "rel s t \<Longrightarrow> rel t u \<Longrightarrow> rel s u"
begin

lemma keeps_pure: "keeps rel (ret x)" "keeps rel (raise_exn e)" "keeps rel (from_res r)" "keeps rel (reading f)"
    "keeps rel (guard_act b e)"
  by (simp_all add: keeps_def ret_def raise_exn_def from_res_def reading_def guard_act_def rel_refl)

lemma keeps_modify: "(\<And>s. rel s (f s)) \<Longrightarrow> keeps rel (modify f)"
  by (simp add: keeps_def modify_def)

lemma keeps_bind: "keeps rel m \<Longrightarrow> (\<And>x. keeps rel (f x)) \<Longrightarrow> keeps rel (act_bind m f)"
  unfolding keeps_def act_bind_def by (auto split: prod.splits sum.splits) (metis fst_conv rel_trans)+

lemma keeps_then: "keeps rel m \<Longrightarrow> keeps rel n \<Longrightarrow> keeps rel (act_then m n)"
  by (simp add: act_then_def keeps_bind)

lemma keeps_catching:
  "keeps rel m \<Longrightarrow> (\<And>e k. h e = Some k \<Longrightarrow> keeps rel k) \<Longrightarrow> keeps rel (catching m h)"
  unfolding keeps_def catching_def
  by (auto split: prod.splits sum.splits option.splits) (metis fst_conv rel_trans)+

lemma keeps_for_each: "(\<And>x. keeps rel (f x)) \<Longrightarrow> keeps rel (for_each f xs)"
  by (induction xs) (simp_all add: keeps_pure keeps_then)

lemma keeps_require_worker: "keeps rel (require_worker wid)"
  by (auto simp: require_worker_def intro!: keeps_bind keeps_pure split: option.split)

lemma keeps_require_live: "keeps rel (require_live_attempt wid)"
  by (auto simp: require_live_attempt_def intro!: keeps_bind keeps_then keeps_pure keeps_require_worker
      split: option.split)

lemmas keeps_intros = keeps_pure keeps_bind keeps_then keeps_for_each keeps_require_worker keeps_require_live

end

lemma act_bind_from_res: "act_bind (from_res (Inr x)) f = f x"
  by (rule ext) (simp add: act_bind_def from_res_def)

section \<open>Steps of the supervisor\<close>

text \<open>
  Any handler, on any arguments, at any time: what the transports answer, when they answer and which
  tasks run is not constrained, so what holds of these steps holds of every schedule.
\<close>

inductive sup_step :: "sup_conf \<Rightarrow> sup \<Rightarrow> sup \<Rightarrow> bool" for c where
  spawned: "sup_step c s (fst (spawn_accept c wc v s))"
| resumed: "sup_step c s (fst (resume c wid s))"
| steered: "sup_step c s (fst (steer_begin c wid message priority agent s))"
| delivered: "sup_step c s (fst (steer_end c wid message_id priority sent s))"
| cancelled: "sup_step c s (fst (cancel_end c wid message_id sent' s))"
| asked: "sup_step c s (fst (request_approval c wid n request s))"
| abandoned: "sup_step c s (fst (abandon_approval rid s))"
| responded: "sup_step c s (fst (respond c wid rid response s))"
| attached: "sup_step c s (fst (attach_transport wid n s))"
| initialized: "sup_step c s (fst (worker_initialized c wid model s))"
| finished: "sup_step c s (fst (finish_run c wid n wc inited preceded outcome s))"
| task_done: "sup_step c s (fst (task_finished wid n s))"
| stopping: "sup_step c s (fst (stop_begin c wid force agent s))"
| stopped: "sup_step c s (fst (stop_attempt_end c wid n s))"
| closing: "sup_step c s (fst (close_begin s))"
| closed: "sup_step c s (fst (close_end s))"

section \<open>Relations kept by every handler\<close>

locale handler_base = kept_relation rel for rel :: "sup \<Rightarrow> sup \<Rightarrow> bool" +
  fixes c :: sup_conf
  assumes store: "store_call (c_env c) k (\<lambda>i. c_id c (s_draws s + i)) (s_db s) db \<Longrightarrow>
      rel s (s\<lparr>s_db := db, s_draws := s_draws s + k\<rparr>)"
    and tasks: "rel s (s\<lparr>s_tasks := ts\<rparr>)"
    and live: "rel s (s\<lparr>s_live := ls\<rparr>)"
    and stops: "rel s (s\<lparr>s_stop_requests := ks\<rparr>)"
    and closing: "rel s (s\<lparr>s_closed := True\<rparr>)"
begin

lemma keeps_store:
  "(\<And>now ids db. store_call (c_env c) k ids db (fst (f now ids db))) \<Longrightarrow> keeps rel (on_store c k f)"
  unfolding keeps_def on_store_def by (auto split: prod.split intro!: store) (metis fst_conv)

lemma keeps_append: "json_wf payload \<Longrightarrow> keeps rel (append_event_act c wid ty payload)"
  unfolding append_event_act_def sup_append_def
  by (intro keeps_intros keeps_store store_calls)

end

text \<open>Pending requests are put by one handler, which asks for the next identifier, answered while they
  are pending (or once more after that), and popped.\<close>

locale handler_relation = handler_base rel c for rel :: "sup \<Rightarrow> sup \<Rightarrow> bool" and c :: sup_conf +
  assumes asks: "approval_display (c_env c) (c_id c (s_draws s)) n (kept_request q) snap = Inr (Some d) \<Longrightarrow>
      rel s (fst (ask c wid n q snap d (c_id c (s_draws s)) s))"
    and pops: "rel s (s\<lparr>s_pending := assoc_pop r (s_pending s)\<rparr>)"
    and defaults: "(r, p) \<in> set (s_pending s) \<or> has_key r (s_answers s) \<Longrightarrow>
      rel s (answer r (default_decision (pa_request p)) s)"
    and resolves: "map_of (s_pending s) r = Some p \<Longrightarrow> resolution_of c r p v s = (db, Inr evs) \<Longrightarrow>
      parse_approval_response (c_lib c) (pa_request p) response (pa_snapshot p) = Inr v \<Longrightarrow>
      rel s (answer r v (s\<lparr>s_db := db, s_draws := s_draws s + 2\<rparr>))"
begin

lemma keeps_spawn: "keeps rel (spawn_admission c wc)" "keeps rel (spawn_accept c wc v)"
proof -
  show "keeps rel (spawn_admission c wc)"
    unfolding spawn_admission_def by (intro keeps_intros)
  have "keeps rel (shared_workspace_warnings c cwd)" for cwd
    by (simp add: keeps_def shared_workspace_warnings_def rel_refl)
  moreover have "keeps rel (append_event_act c wid ty (JDict ((''schema_version'', JInt 1) # overlap_fields o')))"
    for wid ty o' by (intro keeps_append payloads_wf)
  ultimately show "keeps rel (spawn_accept c wc v)"
    unfolding spawn_accept_def Let_def
    by (auto intro!: keeps_intros keeps_store store_calls keeps_modify tasks)
qed

lemma keeps_resume: "keeps rel (resume c wid)"
  unfolding resume_def Let_def
  by (auto intro!: keeps_intros keeps_store store_calls keeps_modify tasks split: option.split)

lemma keeps_queries: "keeps rel (status c wid)" "keeps rel (sup_list_workers c)" "keeps rel (sup_result wid)"
    "keeps rel (watch_start wid since)" "keeps rel (watch_round wid cursor follow)"
  unfolding status_def sup_list_workers_def sup_result_def watch_start_def watch_round_def
  by (auto intro!: keeps_intros)

lemma keeps_transport: "keeps rel (transport_outcome m sent)"
  by (simp add: transport_outcome_def keeps_pure split: sum.split)

lemma keeps_steering:
  "keeps rel (steer_begin c wid msg priority agent)" "keeps rel (steer_end c wid mid priority sent)"
  "keeps rel (cancel_begin wid mid)" "keeps rel (cancel_end c wid mid sent')"
  unfolding steer_begin_def steer_end_def cancel_begin_def cancel_end_def
  by (auto intro!: keeps_intros keeps_append keeps_transport)

lemma keeps_request: "keeps rel (request_approval c wid n request)"
  unfolding keeps_def
proof
  fix s
  show "rel s (fst (request_approval c wid n request s))"
    using asks [of s n request _ _ wid] rel_refl [of s]
    by (auto simp: request_approval_def act_defs split: sum.split option.split)
qed

lemma keeps_respond: "keeps rel (respond c wid rid response)"
  unfolding keeps_def
proof
  fix s
  let ?t = "fst (respond c wid rid response s)"
  show "rel s ?t"
    using respond_shape [of c wid rid response s] rel_refl [of s] store [of 2 s] resolves [of s rid] by metis
qed

lemma rel_fold_answers:
  "\<forall>(r, p) \<in> set ps. (r, p) \<in> set (s_pending s) \<or> has_key r (s_answers s) \<Longrightarrow>
   rel s (fold (\<lambda>(r, p). answer r (default_decision (pa_request p))) ps s)"
proof (induction ps arbitrary: s)
  case (Cons a ps)
  obtain r p where a: "a = (r, p)" by (cases a)
  let ?t = "answer r (default_decision (pa_request p)) s"
  have "rel s ?t" using Cons.prems by (intro defaults) (auto simp: a)
  moreover have "rel ?t (fold (\<lambda>(r, p). answer r (default_decision (pa_request p))) ps ?t)"
    by (rule Cons.IH) (use Cons.prems in \<open>auto simp: answer_def has_key_put assoc_pop_def\<close>)
  ultimately show ?case by (auto simp: a intro: rel_trans)
qed (simp add: rel_refl)

lemma keeps_complete: "keeps rel (complete_live_attempt c wid n)"
  unfolding keeps_def
proof
  fix s
  let ?ps = "pending_of wid n s"
  obtain db r where e: "expire_approval_requests (c_env c) wid n (map fst ?ps) (c_now c (s_draws s))
      (\<lambda>i. c_id c (s_draws s + i)) (s_db s) = (db, r)" by (cases "expire_approval_requests (c_env c) wid n
      (map fst ?ps) (c_now c (s_draws s)) (\<lambda>i. c_id c (s_draws s + i)) (s_db s)")
  let ?s1 = "s\<lparr>s_db := db, s_draws := s_draws s + Suc (length ?ps)\<rparr>"
  have "store_call (c_env c) (Suc (length ?ps)) (\<lambda>i. c_id c (s_draws s + i)) (s_db s) (fst (db, r))"
    unfolding e [symmetric] by (rule store_calls(6)) simp
  then have s1: "rel s ?s1" by (intro store) simp
  have "\<forall>(r, p) \<in> set ?ps. (r, p) \<in> set (s_pending ?s1) \<or> has_key r (s_answers ?s1)"
    by (auto simp: pending_of_def)
  note f = rel_fold_answers [OF this]
  let ?s2 = "fold (\<lambda>(r, p). answer r (default_decision (pa_request p))) ?ps ?s1"
  have s2: "rel s (?s2\<lparr>s_live := assoc_pop wid (s_live ?s2)\<rparr>)"
    using rel_trans [OF rel_trans [OF s1 f] live] .
  have "fst (complete_live_attempt c wid n s)
      \<in> {s, s\<lparr>s_live := assoc_pop wid (s_live s)\<rparr>, ?s1, ?s2\<lparr>s_live := assoc_pop wid (s_live ?s2)\<rparr>}"
    unfolding complete_eq e Let_def prod.case by (simp split: if_split)
  then show "rel s (fst (complete_live_attempt c wid n s))"
    using rel_refl [of s] live [of s] s1 s2 by (elim insertE emptyE) (simp_all only:)
qed

lemma keeps_finalize: "keeps rel (finalize_without_result c wid n st)"
  unfolding finalize_without_result_def Let_def
  by (auto intro!: keeps_intros keeps_complete keeps_append simp: own_payloads_wf payloads_wf)

lemma keeps_discard: "keeps rel (discard_stop wid n)"
  unfolding discard_stop_def by (intro keeps_modify stops)

lemma keeps_persist: "keeps rel (persist_accepted_result c wid n r inited preceded)"
  unfolding persist_accepted_result_def Let_def
  by (auto intro!: keeps_intros keeps_complete keeps_append keeps_store store_calls keeps_discard result_json_wf
      simp: own_payloads_wf payloads_wf)

lemma keeps_run:
  "keeps rel (attach_transport wid n)" "keeps rel (worker_initialized c wid m)"
  "keeps rel (finish_run c wid n wc inited preceded outcome)" "keeps rel (task_finished wid n)"
  "keeps rel (abandon_approval rid)"
proof -
  have "keeps rel (finalize_missing c wid n)"
    unfolding finalize_missing_def by (intro keeps_intros keeps_finalize)
  then show "keeps rel (finish_run c wid n wc inited preceded outcome)"
    unfolding finish_run_def by (auto intro!: keeps_intros keeps_persist split: sum.split)
  show "keeps rel (attach_transport wid n)" "keeps rel (abandon_approval rid)"
    unfolding attach_transport_def abandon_approval_def by (intro keeps_modify live pops)+
  show "keeps rel (worker_initialized c wid m)"
    unfolding worker_initialized_def by (intro keeps_intros keeps_append own_payloads_wf payloads_wf)
  show "keeps rel (task_finished wid n)"
    unfolding task_finished_def by (intro keeps_modify) (simp add: tasks rel_refl)
qed

lemma keeps_stop:
  "keeps rel (stop_begin c wid force agent)" "keeps rel (stop_attempt_end c wid n)"
  "keeps rel (stop_response c wid force)" "keeps rel close_begin" "keeps rel close_end"
proof -
  show "keeps rel (stop_begin c wid force agent)"
    unfolding stop_begin_def Let_def by (auto intro!: keeps_intros keeps_modify stops)
  show "keeps rel (stop_attempt_end c wid n)"
    unfolding stop_attempt_end_def by (intro keeps_intros keeps_finalize keeps_discard)
  show "keeps rel (stop_response c wid force)"
    unfolding stop_response_def by (intro keeps_intros keeps_queries)
  show "keeps rel close_begin" "keeps rel close_end"
    unfolding close_begin_def close_end_def by (intro keeps_modify closing tasks)+
qed

lemma step_rel: "sup_step c s t \<Longrightarrow> rel s t"
  by (induction rule: sup_step.induct)
    (use keeps_spawn keeps_resume keeps_steering keeps_request keeps_respond keeps_run keeps_stop
      in \<open>simp_all add: keeps_def\<close>)

lemma steps_rel: "(sup_step c)\<^sup>*\<^sup>* s t \<Longrightarrow> rel s t"
  by (induction rule: rtranclp_induct) (auto intro: rel_refl rel_trans step_rel)

end

section \<open>Four relations\<close>

text \<open>
  The database moves by store operations; a resolved future keeps its decision; closing is final;
  identifiers still to be drawn are not in use.
\<close>

definition db_steps :: "environ \<Rightarrow> sup \<Rightarrow> sup \<Rightarrow> bool" where
  "db_steps env s t \<longleftrightarrow> (store_step env)\<^sup>*\<^sup>* (s_db s) (s_db t)"

definition answers_kept :: "sup \<Rightarrow> sup \<Rightarrow> bool" where
  "answers_kept s t \<longleftrightarrow> map_of (s_answers s) \<subseteq>\<^sub>m map_of (s_answers t)"

definition closed_kept :: "sup \<Rightarrow> sup \<Rightarrow> bool" where
  "closed_kept s t \<longleftrightarrow> (s_closed s \<longrightarrow> s_closed t)"

definition undrawn :: "sup_conf \<Rightarrow> sup \<Rightarrow> bool" where
  "undrawn c s \<longleftrightarrow> (\<forall>i \<ge> s_draws s. unused (c_id c i) (s_db s))"

definition undrawn_kept :: "sup_conf \<Rightarrow> sup \<Rightarrow> sup \<Rightarrow> bool" where
  "undrawn_kept c s t \<longleftrightarrow> s_draws s \<le> s_draws t \<and> (inj (c_id c) \<and> undrawn c s \<longrightarrow> undrawn c t)"

lemma map_le_put: "\<not> has_key k d \<Longrightarrow> map_of d \<subseteq>\<^sub>m (map_of d)(k \<mapsto> v)"
  by (auto simp: map_le_def has_key_map_of)

lemma undrawn_store:
  assumes "store_call (c_env c) k (\<lambda>i. c_id c (s_draws s + i)) (s_db s) db"
  shows "undrawn_kept c s (s\<lparr>s_db := db, s_draws := s_draws s + k\<rparr>)"
proof -
  have "unused (c_id c i) db" if "inj (c_id c)" "undrawn c s" "s_draws s + k \<le> i" for i
  proof -
    have "c_id c i \<notin> (\<lambda>j. c_id c (s_draws s + j)) ` {..<k}"
      using that(1,3) by (auto dest: injD)
    moreover have "unused (c_id c i) (s_db s)" using that(2,3) by (simp add: undrawn_def)
    ultimately show ?thesis using assms by (simp add: store_call_def)
  qed
  then show ?thesis by (simp add: undrawn_kept_def undrawn_def)
qed

text \<open>A relation that does not look at pending requests.\<close>

locale blind_relation = handler_base rel c for rel :: "sup \<Rightarrow> sup \<Rightarrow> bool" and c :: sup_conf +
  assumes pending: "rel s (s\<lparr>s_pending := ps\<rparr>)"
    and answered: "rel s (answer r d s)"
begin

lemma keeps_ask: "json_wf (approval_payload d) \<Longrightarrow> keeps rel (ask c wid n request snap d rid)"
  unfolding ask_def
  by (auto intro!: keeps_intros keeps_catching keeps_store store_calls keeps_modify pending split: py_exn.split)

end

sublocale blind_relation \<subseteq> handler_relation rel c
proof unfold_locales
  show "rel s (fst (ask c wid n q snap d (c_id c (s_draws s)) s))"
    if "approval_display (c_env c) (c_id c (s_draws s)) n (kept_request q) snap = Inr (Some d)" for s n q snap d wid
    using keeps_ask [OF display_wf [OF that]] by (simp add: keeps_def)
  show "rel s (answer r d (s\<lparr>s_db := db, s_draws := s_draws s + 2\<rparr>))"
    if "resolution_of c r p d s = (db, Inr evs)" for s r p d db evs
    using store [of 2 s db] resolution_call [of c s r p d] that by (simp add: rel_trans [OF _ answered])
qed (simp_all add: pending answered)

interpretation sup_db: blind_relation "db_steps (c_env c)" c for c
  by unfold_locales (auto simp: db_steps_def answer_def store_call_def intro: rtranclp_trans)

interpretation sup_answers: blind_relation answers_kept c for c
  by unfold_locales (auto simp: answers_kept_def answer_def map_le_put intro: map_le_trans)

interpretation sup_closed: blind_relation closed_kept c for c
  by unfold_locales (auto simp: closed_kept_def answer_def)

interpretation sup_draws: blind_relation "undrawn_kept c" c for c
proof unfold_locales
  show "undrawn_kept c s (s\<lparr>s_db := db, s_draws := s_draws s + k\<rparr>)"
    if "store_call (c_env c) k (\<lambda>i. c_id c (s_draws s + i)) (s_db s) db" for s db k
    using that by (rule undrawn_store)
qed (auto simp: undrawn_kept_def undrawn_def answer_def)

end
