(* ===== verification/Run_Steps.thy ===== *)
theory Run_Steps
  imports Handler_Effects
begin

text \<open>
  One event appended by the supervisor to a worker it owns, exactly: what the row becomes, and that
  identifiers not yet drawn stay unused. The proofs about whole runs are sequences of these steps.
\<close>

section \<open>Events and rows\<close>

lemma append_row_find:
  assumes "append_row env wid n ty payload now eid db = Inr (db', ev)" and "json_wf payload"
    and "find_worker wid db = Some w"
  shows "find_worker wid db' = Some (w\<lparr>w_last_event_at := Some now\<rparr>)"
  using append_row_appended [OF assms(1,2)] assms(3) by (auto simp: appended_def)

lemma health_payload_valid [simp]:
  "validated_payload env ''worker.health_changed'' (health_payload h) = Inr (sort_keys (health_payload h))"
proof -
  have "health_name h \<in> set health_names" by (cases h) (simp_all add: health_names_def all_health_def)
  then show ?thesis
    by (simp add: validated_payload_iff)
      (simp add: event_schemas_def schema_def conforms_def health_payload_def one_of_def invalid_field_def)
qed

lemma warning_payload_valid:
  "safe_metadata_text code \<Longrightarrow>
   validated_payload env ''worker.warning'' (warning_payload code) = Inr (sort_keys (warning_payload code))"
  by (simp add: validated_payload_iff)
    (simp add: event_schemas_def schema_def conforms_def warning_payload_def invalid_field_def)

text \<open>The row after a health change and after a warning.\<close>

lemma append_projecting:
  assumes ok: "store_ok env db" and w: "find_worker wid db = Some w" and eid: "fresh_event eid db"
    and p: "validated_payload env ty payload = Inr (sort_keys payload)" "json_wf payload"
    and ty: "ty \<noteq> ''worker.created''" "ty \<noteq> ''worker.state_changed''"
    and pr: "\<And>ev d. e_type ev = ty \<Longrightarrow> e_payload ev = sort_keys payload \<Longrightarrow> e_worker_id ev = wid \<Longrightarrow>
        find_worker wid d = Some (w\<lparr>w_last_event_at := Some now\<rparr>) \<Longrightarrow>
        project_event ev d = Inr (update_worker wid f d)"
    and f: "\<And>x. w_worker_id (f x) = w_worker_id x"
  shows "\<exists>db' ev. append_event env wid ty payload now eid db = (db', Inr ev)
     \<and> logged env wid w ty (sort_keys payload) now eid db db' ev (f (w\<lparr>w_last_event_at := Some now\<rparr>))"
proof -
  have pos: "0 < w_attempt w" using store_okD [OF ok w] by (simp add: view_ok_def)
  have p': "validated_payload env ty (sort_keys payload) = Inr (sort_keys payload)" "json_wf (sort_keys payload)"
    using validated_payload_again [OF p(2,1)] json_wf_sort_keys [OF p(2)] by simp_all
  obtain d ev where a: "append_row env wid (w_attempt w) ty (sort_keys payload) now eid db = Inr (d, ev)"
    using append_row_total [OF p'(1), of wid db "w_attempt w" eid now] w eid pos event_log.numbered [OF ok] by blast
  note sh = append_row_shape [OF a] and fd = append_row_find [OF a p'(2) w]
  have pe: "project_event ev d = Inr (update_worker wid f d)"
    using pr sh p' fd by simp
  then have b: "append_projected env wid (w_attempt w) ty (sort_keys payload) now eid db
      = Inr (update_worker wid f d, ev)"
    using a by (simp add: append_projected_def)
  obtain w' where w': "advanced env wid w ev db (update_worker wid f d) w'"
    using append_projected_advanced [OF ok w b p'(2) ty(1)] ty(2) by blast
  then have "w' = f (w\<lparr>w_last_event_at := Some now\<rparr>)"
    using fd f by (simp add: advanced_def views)
  with w' sh p' have l: "logged env wid w ty (sort_keys payload) now eid db (update_worker wid f d) ev
      (f (w\<lparr>w_last_event_at := Some now\<rparr>))"
    by (auto simp: logged_def fresh_event_def views)
  have "append_event env wid ty payload now eid db = (update_worker wid f d, Inr ev)"
    using p ty w b by (simp add: append_event_def transaction_def worker_or_def)
  with l show ?thesis by blast
qed

lemma append_health:
  assumes "store_ok env db" and "find_worker wid db = Some w" and "fresh_event eid db"
  shows "\<exists>db' ev. append_event env wid ''worker.health_changed'' (health_payload h) now eid db = (db', Inr ev)
     \<and> logged env wid w ''worker.health_changed'' (sort_keys (health_payload h)) now eid db db' ev
         (w\<lparr>w_last_event_at := Some now, w_health := h\<rparr>)"
proof -
  have j: "jget (sort_keys (health_payload h)) ''health'' = Some (JStr (health_name h))"
    by (simp add: health_payload_def)
  show ?thesis
    using append_projecting [OF assms, of "''worker.health_changed''" "health_payload h" now
        "\<lambda>x. x\<lparr>w_health := h\<rparr>"] j
    by (simp add: project_event_def Let_def)
qed

lemma append_warning:
  assumes "store_ok env db" and "find_worker wid db = Some w" and "fresh_event eid db"
    and "safe_metadata_text code"
  shows "\<exists>db' ev. append_event env wid ''worker.warning'' (warning_payload code) now eid db = (db', Inr ev)
     \<and> logged env wid w ''worker.warning'' (sort_keys (warning_payload code)) now eid db db' ev
         (w\<lparr>w_last_event_at := Some now, w_warnings := add_once code (w_warnings w)\<rparr>)"
proof -
  have j: "jget (sort_keys (warning_payload code)) ''code'' = Some (JStr code)"
    by (simp add: warning_payload_def)
  show ?thesis
    using append_projecting [OF assms(1-3), of "''worker.warning''" "warning_payload code" now
        "\<lambda>x. x\<lparr>w_warnings := add_once code (w_warnings w)\<rparr>"] warning_payload_valid [OF assms(4)] j
    by (simp add: project_event_def Let_def)
qed

lemma append_plain:
  assumes "store_ok env db" and "find_worker wid db = Some w" and "fresh_event eid db"
    and "validated_payload env ty payload = Inr p" and "json_wf payload" and ty: "ty \<notin> set projecting"
  shows "\<exists>db' ev. append_event env wid ty payload now eid db = (db', Inr ev)
     \<and> logged env wid w ty p now eid db db' ev (w\<lparr>w_last_event_at := Some now\<rparr>)"
proof -
  obtain db' ev w' where a: "append_event env wid ty payload now eid db = (db', Inr ev)"
    "logged env wid w ty p now eid db db' ev w'" "w_state w' = w_state w"
    using append_event_logged [OF assms(1-5) ty] by blast
  have "append_row env wid (w_attempt w) ty p now eid db = Inr (db', ev)"
    using a(1) assms(2,4) ty unfolding append_row_projected [OF ty]
    by (auto simp: append_event_def transaction_def worker_or_def projecting_def split: sum.splits)
  then have "find_worker wid db' = Some (w\<lparr>w_last_event_at := Some now\<rparr>)"
    using append_row_find [OF _ _ assms(2)] validated_payload_wf [OF assms(5,4)] by blast
  then have "w' = w\<lparr>w_last_event_at := Some now\<rparr>" using a(2) by (simp add: logged_def advanced_def)
  with a show ?thesis by blast
qed

text \<open>The row after a state change.\<close>

definition moved :: "worker_state \<Rightarrow> instant \<Rightarrow> worker_row \<Rightarrow> worker_row" where
  "moved t now w = w\<lparr>w_last_event_at := Some now, w_state := t,
     w_started_at := coalesce (if t = Running then Some now else None) (w_started_at w),
     w_ended_at := coalesce (if terminal_state t then Some now else None) (w_ended_at w)\<rparr>"

lemma moved_fields [simp]:
  "w_attempt (moved t now w) = w_attempt w" "w_state (moved t now w) = t" "w_health (moved t now w) = w_health w"
  "w_warnings (moved t now w) = w_warnings w" "w_result_summary (moved t now w) = w_result_summary w"
  by (simp_all add: moved_def)

lemma project_state_find:
  "find_worker wid d = Some x \<Longrightarrow>
   find_worker wid (project_state wid n now t d) = Some (x\<lparr>w_state := t,
     w_started_at := coalesce (if t = Running then Some now else None) (w_started_at x),
     w_ended_at := coalesce (if terminal_state t then Some now else None) (w_ended_at x)\<rparr>)"
  by (simp add: project_state_def Let_def views)

lemma append_projected_state_find:
  assumes "append_projected env wid (w_attempt w) ''worker.state_changed'' (state_payload t) now eid db = Inr (db', ev)"
    and "find_worker wid db = Some w"
  shows "find_worker wid db' = Some (moved t now w)"
proof -
  obtain d where a: "append_row env wid (w_attempt w) ''worker.state_changed'' (state_payload t) now eid db = Inr (d, ev)"
    and pe: "project_event ev d = Inr db'"
    using assms(1) by (auto simp: append_projected_def res_simps)
  note sh = append_row_shape [OF a] and fd = append_row_find [OF a _ assms(2)]
  have "e_payload ev = state_payload t" using sh by simp
  then have "jget (e_payload ev) ''state'' = Some (JStr (state_name t))" by (simp add: state_payload_def)
  then have "db' = project_state wid (e_attempt ev) now t d"
    using pe sh fd by (auto simp: project_event_def Let_def res_simps)
  then show ?thesis using project_state_find [OF fd] by (simp add: moved_def)
qed

lemma append_state:
  assumes "store_ok env db" and w: "find_worker wid db = Some w" and "fresh_event eid db"
    and t: "t \<in> set (transitions (w_state w))" "t \<noteq> Starting"
  shows "\<exists>db' ev. append_event env wid ''worker.state_changed'' (state_payload t) now eid db = (db', Inr ev)
     \<and> logged env wid w ''worker.state_changed'' (state_payload t) now eid db db' ev (moved t now w)"
proof -
  obtain db' ev w' where a: "append_event env wid ''worker.state_changed'' (state_payload t) now eid db = (db', Inr ev)"
    "logged env wid w ''worker.state_changed'' (state_payload t) now eid db db' ev w'"
    using append_state_logged [OF assms] by blast
  have "append_projected env wid (w_attempt w) ''worker.state_changed'' (state_payload t) now eid db = Inr (db', ev)"
    using a(1) w by (auto simp: append_event_def transaction_def worker_or_def split: sum.splits if_splits)
  from append_projected_state_find [OF this w] have "w' = moved t now w"
    using a(2) by (simp add: logged_def advanced_def)
  with a show ?thesis by blast
qed

lemma append_state_refused:
  assumes "find_worker wid db = Some w" and "t \<notin> set (transitions (w_state w))" and "t \<noteq> Starting"
    and "append_row env wid (w_attempt w) ''worker.state_changed'' (state_payload t) now eid db = Inr (d, ev)"
  shows "\<exists>m. append_event env wid ''worker.state_changed'' (state_payload t) now eid db = (db, Inl (ValueError m))"
proof -
  have "e_payload ev = state_payload t" "e_type ev = ''worker.state_changed''" "e_worker_id ev = wid"
    using append_row_shape [OF assms(4)] by auto
  moreover have "jget (state_payload t) ''state'' = Some (JStr (state_name t))" by (simp add: state_payload_def)
  moreover have "state_name t \<noteq> ''starting''" using assms(3) by (cases t) simp_all
  ultimately show ?thesis
    using assms(1,2) append_row_find [OF assms(4) _ assms(1)] assms(4)
    by (simp add: append_event_def transaction_def worker_or_def append_projected_def project_event_def transition_def)
qed

section \<open>Approvals\<close>

lemma worker_found:
  assumes "store_ok env db" and "find_worker wid db = Some w"
  shows "\<exists>sm. get_worker wid db = Inr (Some \<lparr>wr_row = w, wr_result_summary = sm\<rparr>)"
proof -
  have "coherent w" using store_okD [OF assms] by (simp add: view_ok_def)
  from worker_from_coherent [OF this] show ?thesis using assms(2) by (auto simp: get_worker_def)
qed

lemma found_worker: "get_worker wid db = Inr (Some wr) \<Longrightarrow> find_worker wid db = Some (wr_row wr)"
  by (auto simp: get_worker_def worker_from_row_def res_simps split: option.splits sum.splits)

lemma request_succeeds:
  assumes "reachable env db" and "fresh_event eid db" and "fresh_event eid' db" and "eid' \<noteq> eid"
    and "json_wf payload" and "validated_payload env ''approval.requested'' payload = Inr p"
    and "find_worker wid db = Some w" and "w_attempt w = k" and "w_state w \<in> {Running, RequiresAction}"
  shows "\<exists>db' evs w'. record_approval_request env wid k payload now eid eid' db = (db', Inr evs)
     \<and> find_worker wid db' = Some w' \<and> w_attempt w' = k \<and> w_state w' = RequiresAction"
proof -
  obtain d1 e1 w1 where a: "append_row env wid k ''approval.requested'' p now eid db = Inr (d1, e1)"
    "find_worker wid d1 = Some w1" "w_state w1 = w_state w" "w_attempt w1 = k"
    and b: "\<forall>s \<in> set (transitions (w_state w)) - {Starting}. \<exists>d2 e2 w2.
          append_projected env wid k ''worker.state_changed'' (state_payload s) now eid' d1 = Inr (d2, e2)
        \<and> find_worker wid d2 = Some w2 \<and> w_state w2 = s \<and> w_attempt w2 = k"
    using event_then_state [OF assms(1-7) approval_types(1), of now] assms(8) by blast
  show ?thesis
  proof (cases "w_state w = Running")
    case True
    then obtain d2 e2 w2 where "append_projected env wid k ''worker.state_changed'' (state_payload RequiresAction) now eid' d1
        = Inr (d2, e2)" "find_worker wid d2 = Some w2" "w_state w2 = RequiresAction" "w_attempt w2 = k"
      using b by (auto dest: bspec [of _ _ RequiresAction])
    then show ?thesis
      using True assms(6-8) a by (simp add: record_approval_request_def transaction_def worker_or_def require_def)
  next
    case False
    then show ?thesis
      using assms(6-9) a by (auto simp: record_approval_request_def transaction_def worker_or_def require_def)
  qed
qed

lemma resolution_succeeds:
  assumes "reachable env db" and "fresh_event eid db" and "fresh_event eid' db" and "eid' \<noteq> eid"
    and "json_wf payload" and "validated_payload env ''approval.resolved'' payload = Inr p"
    and "find_worker wid db = Some w" and "w_attempt w = k" and "w_state w = RequiresAction"
  shows "\<exists>db' evs w'. record_approval_resolution env wid k payload restore now eid eid' db = (db', Inr evs)
     \<and> find_worker wid db' = Some w' \<and> w_attempt w' = k \<and> w_state w' = (if restore then Running else RequiresAction)"
proof -
  obtain d1 e1 w1 where a: "append_row env wid k ''approval.resolved'' p now eid db = Inr (d1, e1)"
    "find_worker wid d1 = Some w1" "w_state w1 = w_state w" "w_attempt w1 = k"
    and b: "\<forall>s \<in> set (transitions (w_state w)) - {Starting}. \<exists>d2 e2 w2.
          append_projected env wid k ''worker.state_changed'' (state_payload s) now eid' d1 = Inr (d2, e2)
        \<and> find_worker wid d2 = Some w2 \<and> w_state w2 = s \<and> w_attempt w2 = k"
    using event_then_state [OF assms(1-7) approval_types(2), of now] assms(8) by blast
  obtain d2 e2 w2 where "append_projected env wid k ''worker.state_changed'' (state_payload Running) now eid' d1
      = Inr (d2, e2)" "find_worker wid d2 = Some w2" "w_state w2 = Running" "w_attempt w2 = k"
    using b assms(9) by (auto dest: bspec [of _ _ Running])
  then show ?thesis
    using assms(6-9) a
    by (cases restore) (simp_all add: record_approval_resolution_def transaction_def worker_or_def require_def)
qed

section \<open>Several events at once\<close>

lemma append_all_succeeds:
  assumes "store_ok env db" and "find_worker wid db = Some w"
    and "\<forall>p \<in> set ps. validated_payload env ty p = Inr p \<and> json_wf p" and "ty \<notin> set projecting"
    and "\<forall>j \<in> {i ..< i + length ps}. fresh_event (ids j) db" and "inj_on ids {i ..< i + length ps}"
  shows "\<exists>db' evs. append_all env wid (w_attempt w) ty ps now ids i db = Inr (db', evs) \<and> store_ok env db'
     \<and> find_worker wid db' = Some (if ps = [] then w else w\<lparr>w_last_event_at := Some now\<rparr>)
     \<and> (\<forall>e. fresh_event e db' \<longleftrightarrow> fresh_event e db \<and> e \<notin> ids ` {i ..< i + length ps})"
  using assms
proof (induction ps arbitrary: db w i)
  case (Cons p ps)
  have p: "validated_payload env ty p = Inr p" "json_wf p" "fresh_event (ids i) db" using Cons.prems by simp_all
  obtain d1 e1 w1 where a: "append_row env wid (w_attempt w) ty p now (ids i) db = Inr (d1, e1)"
      "logged env wid w ty p now (ids i) db d1 e1 w1"
    using append_row_logged [OF Cons.prems(1,2) p(3,1,2) Cons.prems(4)] by blast
  note f = logged_find [OF Cons.prems(1) a(2)] append_row_find [OF a(1) p(2) Cons.prems(2)]
  have "ids j \<noteq> ids i" if "j \<in> {Suc i ..< Suc i + length ps}" for j
    using that Cons.prems(6) by (auto dest: inj_onD)
  then have "\<forall>j \<in> {Suc i ..< Suc i + length ps}. fresh_event (ids j) d1" using f Cons.prems(5) by auto
  moreover have "inj_on ids {Suc i ..< Suc i + length ps}" using Cons.prems(6) by (rule inj_on_subset) auto
  ultimately obtain db' evs where b: "append_all env wid (w_attempt (w\<lparr>w_last_event_at := Some now\<rparr>)) ty ps now ids (Suc i) d1
        = Inr (db', evs)" "store_ok env db'"
      "find_worker wid db' = Some (if ps = [] then w\<lparr>w_last_event_at := Some now\<rparr>
         else w\<lparr>w_last_event_at := Some now\<rparr>\<lparr>w_last_event_at := Some now\<rparr>)"
      "\<forall>e. fresh_event e db' \<longleftrightarrow> fresh_event e d1 \<and> e \<notin> ids ` {Suc i ..< Suc i + length ps}"
    using Cons.IH [of d1 "w\<lparr>w_last_event_at := Some now\<rparr>" "Suc i"] f Cons.prems(3,4) by auto
  have "{i ..< i + length (p # ps)} = insert i {Suc i ..< Suc i + length ps}" by auto
  then have im: "ids ` {i ..< i + length (p # ps)} = insert (ids i) (ids ` {Suc i ..< Suc i + length ps})"
    by (simp only: image_insert)
  have "append_all env wid (w_attempt w) ty (p # ps) now ids i db = Inr (db', e1 # evs)" using a(1) b(1) by simp
  moreover have "find_worker wid db' = Some (w\<lparr>w_last_event_at := Some now\<rparr>)" using b(3) by (simp split: if_splits)
  moreover have "fresh_event e d1 \<longleftrightarrow> fresh_event e db \<and> e \<noteq> ids i" for e using f by blast
  then have "\<forall>e. fresh_event e db' \<longleftrightarrow> fresh_event e db \<and> e \<notin> ids ` {i ..< i + length (p # ps)}"
    unfolding im using b(4) by blast
  ultimately show ?case using b(2) by (intro exI [of _ db'] exI [of _ "e1 # evs"] conjI) simp_all
qed simp

lemma expired_valid:
  "\<forall>r \<in> set rids. safe_metadata (JStr r) \<Longrightarrow>
   \<exists>qs. validate_all env ''approval.resolved'' (map expired_payload rids) = Inr qs \<and> length qs = length rids
     \<and> (\<forall>q \<in> set qs. validated_payload env ''approval.resolved'' q = Inr q \<and> json_wf q)"
proof (induction rids)
  case (Cons r rids)
  then obtain q where q: "validated_payload env ''approval.resolved'' (expired_payload r) = Inr q"
    using expired_payload_valid [of env r] by auto
  have wf: "json_wf (expired_payload r)" by (simp add: own_payloads_wf)
  from Cons q validated_payload_again [OF wf q] validated_payload_wf [OF wf q] show ?case by auto
qed simp

lemma expire_succeeds:
  assumes ok: "store_ok env db" and w: "find_worker wid db = Some w" "w_attempt w = k" "w_state w = RequiresAction"
    and r: "rids \<noteq> []" "\<forall>r \<in> set rids. safe_metadata (JStr r)"
    and ids: "\<forall>j \<le> length rids. fresh_event (ids j) db" "inj_on ids {.. length rids}"
  shows "\<exists>db' evs. expire_approval_requests env wid k rids now ids db = (db', Inr evs)
     \<and> find_worker wid db' = Some (moved Running now w)"
proof -
  obtain qs where q: "validate_all env ''approval.resolved'' (map expired_payload rids) = Inr qs"
      "length qs = length rids" "\<forall>q \<in> set qs. validated_payload env ''approval.resolved'' q = Inr q \<and> json_wf q"
    using expired_valid [OF r(2)] by blast
  have "inj_on ids {0 ..< 0 + length qs}" using ids(2) q(2) by (elim inj_on_subset) auto
  then obtain d1 evs where a: "append_all env wid (w_attempt w) ''approval.resolved'' qs now ids 0 db = Inr (d1, evs)"
      "store_ok env d1" "find_worker wid d1 = Some (if qs = [] then w else w\<lparr>w_last_event_at := Some now\<rparr>)"
      "\<forall>e. fresh_event e d1 \<longleftrightarrow> fresh_event e db \<and> e \<notin> ids ` {0 ..< 0 + length qs}"
    using append_all_succeeds [OF ok w(1) q(3) approval_types(2), of 0 ids now] ids(1) q(2) by auto
  define w1 where "w1 = (if qs = [] then w else w\<lparr>w_last_event_at := Some now\<rparr>)"
  have w1: "find_worker wid d1 = Some w1" "w_state w1 = RequiresAction" "w_attempt w1 = k" "moved Running now w1 = moved Running now w"
    using a(3) w by (simp_all add: w1_def moved_def)
  have "ids (length qs) \<notin> ids ` {0 ..< 0 + length qs}"
    using ids(2) q(2) by (auto dest: inj_onD)
  then have fr: "fresh_event (ids (length qs)) d1" using a(4) ids(1) q(2) by simp
  obtain d2 e2 w2 where b: "append_projected env wid (w_attempt w1) ''worker.state_changed'' (state_payload Running) now
      (ids (length qs)) d1 = Inr (d2, e2)"
    using state_change_logged [OF a(2) w1(1) fr, of Running now] w1(2) by auto
  have "find_worker wid d2 = Some (moved Running now w)"
    using append_projected_state_find [OF b w1(1)] w1(4) by simp
  moreover have "expire_approval_requests env wid k rids now ids db = (d2, Inr (evs @ [e2]))"
    using r(1) q(1) a(1) b w w1(3)
    by (simp add: expire_approval_requests_def transaction_def worker_or_def require_def)
  ultimately show ?thesis by blast
qed

lemma expire_refused:
  assumes "find_worker wid db = Some w" "\<not> (w_attempt w = k \<and> w_state w = RequiresAction)"
    and "rids \<noteq> []" "\<forall>r \<in> set rids. safe_metadata (JStr r)"
  shows "expire_approval_requests env wid k rids now ids db = (db, Inl attempt_changed)"
proof -
  obtain qs where "validate_all env ''approval.resolved'' (map expired_payload rids) = Inr qs"
    using expired_valid [OF assms(4)] by blast
  then show ?thesis
    using assms(1-3) by (auto simp: expire_approval_requests_def transaction_def worker_or_def require_def)
qed

section \<open>Results\<close>

lemma record_result_succeeds:
  assumes ok: "store_ok env db" and w: "find_worker wid db = Some w" and eid: "fresh_event eid db"
    and j: "is_jdict summary" "json_wf summary" and f: "validate_result_fields f = Inr ()"
  shows "\<exists>db' ev safe. record_result env wid oc summary f now eid db = (db', Inr ev)
     \<and> safe_result_summary env oc summary = Inr safe \<and> is_jdict safe \<and> json_wf safe
     \<and> find_worker wid db' = Some (store_result safe f (w\<lparr>w_last_event_at := Some now\<rparr>))
     \<and> map er_type (events_of wid db') = map er_type (events_of wid db) @ [''result.received'']"
proof -
  obtain safe where s: "safe_result_summary env oc summary = Inr safe"
    using summary_total [OF j(1) wf_acceptable [OF j(2)]] by blast
  have "case f_resolved_model f of None \<Rightarrow> True | Some m \<Rightarrow> safe_metadata (JStr m)"
    using f by (auto simp: validate_result_fields_def Let_def require_def res_simps split: if_splits option.splits)
  then obtain p where p: "validated_payload env ''result.received'' (result_payload oc (f_resolved_model f)) = Inr p"
    using result_payload_valid by blast
  have wf: "json_wf (result_payload oc (f_resolved_model f))" by (simp add: own_payloads_wf)
  obtain d ev where a: "append_row env wid (w_attempt w) ''result.received''
      (result_payload oc (f_resolved_model f)) now eid db = Inr (d, ev)"
    using append_row_logged [OF ok w eid p wf approval_types(3)] by blast
  have "find_worker wid d = Some (w\<lparr>w_last_event_at := Some now\<rparr>)" by (rule append_row_find [OF a wf w])
  then have "find_worker wid (update_worker wid (store_result safe f) d)
      = Some (store_result safe f (w\<lparr>w_last_event_at := Some now\<rparr>))"
    by (simp add: find_worker_update store_result_columns)
  moreover obtain row where "appended env wid (w_attempt w) ''result.received'' (result_payload oc (f_resolved_model f))
      now db d ev row" using append_row_appended [OF a wf] by blast
  then have "map er_type (events_of wid (update_worker wid (store_result safe f) d))
      = map er_type (events_of wid db) @ [''result.received'']"
    by (auto simp: appended_def views record_of_def)
  moreover have "record_result env wid oc summary f now eid db = (update_worker wid (store_result safe f) d, Inr ev)"
    using s f w a by (simp add: record_result_def transaction_def worker_or_def)
  ultimately show ?thesis using s summary_wf [OF s j(2)] by blast
qed

end
