(* ===== verification/Approvals.thy ===== *)
theory Approvals
  imports Run_Steps
begin

text \<open>
  Approval requests over the life of the supervisor: the invariant of its states, and what a request
  and a response do. Every pending request is the request of an event in the durable log, has an
  identifier no other request has, and has not been answered.
\<close>

section \<open>The invariant of the supervisor\<close>

text \<open>The event that announced a request.\<close>

definition requested :: "db \<Rightarrow> string \<Rightarrow> pending_approval \<Rightarrow> bool" where
  "requested db r p \<longleftrightarrow> list_ex (\<lambda>ev. e_type ev = ''approval.requested'' \<and> e_attempt ev = pa_attempt p
     \<and> jget (e_payload ev) ''request_id'' = Some (JStr r)) (map record_of (events_of (pa_worker_id p) db))"

definition sup_ok :: "sup_conf \<Rightarrow> sup \<Rightarrow> bool" where
  "sup_ok c s \<longleftrightarrow> reachable (c_env c) (s_db s) \<and> inj (c_id c) \<and> undrawn c s
     \<and> distinct (map fst (s_pending s))
     \<and> (\<forall>(r, p) \<in> set (s_pending s). requested (s_db s) r p \<and> \<not> has_key r (s_answers s))
     \<and> (\<forall>i \<ge> s_draws s. \<not> has_key (c_id c i) (s_pending s) \<and> \<not> has_key (c_id c i) (s_answers s))"

definition sup_ok_kept :: "sup_conf \<Rightarrow> sup \<Rightarrow> sup \<Rightarrow> bool" where
  "sup_ok_kept c s t \<longleftrightarrow> (sup_ok c s \<longrightarrow> sup_ok c t)"

lemma requested_grows:
  assumes "reachable env db" and "store_step env db db'" and "requested db r p"
  shows "requested db' r p"
proof -
  have "prefix (events_of (pa_worker_id p) db) (events_of (pa_worker_id p) db')"
    using event_log.grows [OF reachable_ok [OF assms(1)] assms(2)] .
  with assms(3) show ?thesis by (auto simp: requested_def prefix_def)
qed

lemma sup_ok_store:
  assumes ok: "sup_ok c s" and call: "store_call (c_env c) k (\<lambda>i. c_id c (s_draws s + i)) (s_db s) db"
  shows "sup_ok c (s\<lparr>s_db := db, s_draws := s_draws s + k\<rparr>)"
proof -
  have st: "store_step (c_env c) (s_db s) db" using call by (simp add: store_call_def)
  have "reachable (c_env c) db"
    using ok reachable_steps [OF _ r_into_rtranclp [of "store_step (c_env c)", OF st]] by (simp add: sup_ok_def)
  moreover have "undrawn c (s\<lparr>s_db := db, s_draws := s_draws s + k\<rparr>)"
    using undrawn_store [OF call] ok by (simp add: undrawn_kept_def sup_ok_def)
  moreover have "requested db r p" if "(r, p) \<in> set (s_pending s)" for r p
    using requested_grows [OF _ st] ok that by (auto simp: sup_ok_def)
  ultimately show ?thesis using ok by (auto simp: sup_ok_def)
qed

text \<open>A request that is stored is in the log.\<close>

lemma display_request_id:
  "approval_display env rid n q snap = Inr (Some d) \<Longrightarrow> jget (approval_payload d) ''request_id'' = Some (JStr rid)"
  by (auto simp: approval_display_def approval_payload_def Let_def res_simps
      split: approval_request.splits if_splits)

lemma request_logged:
  assumes r: "record_approval_request env wid n payload now eid eid' db = (db', Inr evs)" and wf: "json_wf payload"
    and rid: "jget payload ''request_id'' = Some (JStr rid)" and p: "pa_worker_id p = wid" "pa_attempt p = n"
  shows "requested db' rid p"
proof -
  from r obtain q d1 ev where v: "validated_payload env ''approval.requested'' payload = Inr q"
    and a: "append_row env wid n ''approval.requested'' q now eid db = Inr (d1, ev)"
    and d: "db' = d1 \<or> (\<exists>ev'. append_projected env wid n ''worker.state_changed'' (state_payload RequiresAction) now eid' d1
        = Inr (db', ev'))"
    by (auto simp: record_approval_request_def transaction_def res_simps split: sum.splits if_splits)
  have q: "json_wf q" "q = sort_keys payload"
    using validated_payload_wf [OF wf v] validated_payload_iff [OF wf] v by auto
  obtain row where row: "appended env wid n ''approval.requested'' q now db d1 ev row"
    using append_row_appended [OF a q(1)] by blast
  have "jget (sort_keys payload) ''request_id'' = Some (JStr rid)" using rid by (simp add: jget_sort_keys wf)
  then have "requested d1 rid p"
    using row q p by (auto simp: appended_def requested_def sort_keys_idem)
  moreover have "requested db' rid p" if b: "append_projected env wid n ''worker.state_changed''
      (state_payload RequiresAction) now eid' d1 = Inr (db', ev')" and "requested d1 rid p" for ev'
  proof -
    obtain d2 where a2: "append_row env wid n ''worker.state_changed'' (state_payload RequiresAction) now eid' d1
        = Inr (d2, ev')" and pr: "project_event ev' d2 = Inr db'"
      using b by (auto simp: append_projected_def res_simps)
    have "json_wf (state_payload RequiresAction)" by (simp add: own_payloads_wf)
    then obtain row' where "appended env wid n ''worker.state_changed''
        (state_payload RequiresAction) now d1 d2 ev' row'"
      using append_row_appended [OF a2] by blast
    moreover have "events_of u db' = events_of u d2" for u
      using project_event_ids [OF pr] by (simp add: events_of_def)
    ultimately show ?thesis using that(2) by (auto simp: requested_def appended_def)
  qed
  ultimately show ?thesis using d by auto
qed

lemma ask_eq:
  assumes "record_approval_request (c_env c) wid n (approval_payload d) (c_now c (s_draws s))
      (c_id c (Suc (s_draws s))) (c_id c (s_draws s + 2)) (s_db s) = (db, r)"
    and "\<not> has_key rid (s_pending s)"
  shows "ask c wid n q snap d rid s =
     (case r of
        Inr evs \<Rightarrow> (s\<lparr>s_pending := s_pending s @ [(rid, \<lparr>pa_worker_id = wid, pa_attempt = n,
            pa_request = kept_request q, pa_snapshot = snap, pa_display = d\<rparr>)],
          s_db := db, s_draws := s_draws s + 3\<rparr>, Inr (Inr rid))
      | Inl e \<Rightarrow> (s\<lparr>s_db := db, s_draws := s_draws s + 3\<rparr>,
          case e of AttemptChangedError m \<Rightarrow> Inr (Inl (default_decision q)) | _ \<Rightarrow> Inl e))"
proof -
  have new: "rid \<notin> fst ` set (s_pending s)" using assms(2) by (simp add: has_key_def)
  then have pop: "assoc_pop rid (s_pending s) = s_pending s" by (force simp: assoc_pop_def filter_id_conv)
  have "assoc_pop rid (s_pending s @ [(rid, x)]) = s_pending s" for x
    using pop by (simp add: assoc_pop_def)
  then show ?thesis
    using assms(1) unfolding ask_def
    by (cases r; cases "projl r") (simp_all add: act_defs assoc_put_new [OF new])
qed

lemma sup_ok_ask:
  assumes ok: "sup_ok c s" and d: "approval_display (c_env c) (c_id c (s_draws s)) n (kept_request q) snap = Inr (Some d)"
  shows "sup_ok c (fst (ask c wid n q snap d (c_id c (s_draws s)) s))"
proof -
  let ?rid = "c_id c (s_draws s)"
  obtain db r where a: "record_approval_request (c_env c) wid n (approval_payload d) (c_now c (s_draws s))
      (c_id c (Suc (s_draws s))) (c_id c (s_draws s + 2)) (s_db s) = (db, r)" by fastforce
  note wf = display_wf [OF d]
  have new: "\<not> has_key ?rid (s_pending s)" "\<not> has_key ?rid (s_answers s)" using ok by (simp_all add: sup_ok_def)
  have "store_call (c_env c) 3 (\<lambda>i. c_id c (s_draws s + i)) (s_db s) (fst (db, r))"
    unfolding a [symmetric]
    using store_calls'(4) [OF wf, of "c_env c" "\<lambda>i. c_id c (s_draws s + i)" "s_db s" wid n "c_now c (s_draws s)"]
    by simp
  then have s1: "sup_ok c (s\<lparr>s_db := db, s_draws := s_draws s + 3\<rparr>)" by (intro sup_ok_store [OF ok]) simp
  show ?thesis
  proof (cases r)
    case (Inl e)
    with s1 show ?thesis by (simp add: ask_eq [OF a new(1)])
  next
    case (Inr evs)
    let ?p = "\<lparr>pa_worker_id = wid, pa_attempt = n, pa_request = kept_request q, pa_snapshot = snap, pa_display = d\<rparr>"
    have "requested db ?rid ?p"
      by (rule request_logged [OF a [unfolded Inr] wf display_request_id [OF d]]) simp_all
    moreover have "c_id c i \<noteq> ?rid" if "s_draws s + 3 \<le> i" for i
      using ok that by (auto simp: sup_ok_def dest: injD)
    ultimately show ?thesis
      using s1 new by (auto simp: ask_eq [OF a new(1)] Inr sup_ok_def undrawn_def has_key_def)
  qed
qed

lemma sup_ok_pop: "sup_ok c s \<Longrightarrow> sup_ok c (s\<lparr>s_pending := assoc_pop r (s_pending s)\<rparr>)"
  by (auto simp: sup_ok_def undrawn_def has_key_pop distinct_assoc_pop) (auto simp: assoc_pop_def)

lemma sup_ok_answer:
  assumes ok: "sup_ok c s" and r: "has_key r (s_pending s) \<or> has_key r (s_answers s)"
  shows "sup_ok c (answer r d s)"
proof -
  have "has_key k (s_answers (answer r d s)) \<longleftrightarrow> k = r \<or> has_key k (s_answers s)" for k
    by (auto simp: answer_def has_key_put)
  moreover have "c_id c i \<noteq> r" if "s_draws s \<le> i" for i using ok r that by (auto simp: sup_ok_def)
  moreover have "r' \<noteq> r" if "(r', p) \<in> set (assoc_pop r (s_pending s))" for r' p
    using that by (simp add: assoc_pop_def)
  ultimately show ?thesis
    using sup_ok_pop [OF ok, of r] by (auto simp: sup_ok_def undrawn_def answer_def)
qed

lemma has_key_member: "(r, p) \<in> set d \<Longrightarrow> has_key r d"
  by (force simp: has_key_def)

lemma sup_ok_resolved:
  assumes "sup_ok c s" and "map_of (s_pending s) r = Some p" and "resolution_of c r p d s = (db, Inr evs)"
  shows "sup_ok c (answer r d (s\<lparr>s_db := db, s_draws := s_draws s + 2\<rparr>))"
  using sup_ok_store [OF assms(1), of 2 db] resolution_call [of c s r p d] assms(2,3)
  by (intro sup_ok_answer) (simp_all add: has_key_map_of)

interpretation sup_inv: handler_relation "sup_ok_kept c" c for c
proof unfold_locales
  show "sup_ok_kept c s (s\<lparr>s_db := db, s_draws := s_draws s + k\<rparr>)"
    if "store_call (c_env c) k (\<lambda>i. c_id c (s_draws s + i)) (s_db s) db" for s db k
    using sup_ok_store [OF _ that] by (simp add: sup_ok_kept_def)
  show "sup_ok_kept c s (fst (ask c wid n q snap d (c_id c (s_draws s)) s))"
    if "approval_display (c_env c) (c_id c (s_draws s)) n (kept_request q) snap = Inr (Some d)" for s n q snap d wid
    using sup_ok_ask [OF _ that] by (simp add: sup_ok_kept_def)
  show "sup_ok_kept c s (answer r d (s\<lparr>s_db := db, s_draws := s_draws s + 2\<rparr>))"
    if "map_of (s_pending s) r = Some p" "resolution_of c r p d s = (db, Inr evs)" for s r p d db evs
    using sup_ok_resolved [OF _ that] by (simp add: sup_ok_kept_def)
  show "sup_ok_kept c s (answer r (default_decision (pa_request p)) s)"
    if "(r, p) \<in> set (s_pending s) \<or> has_key r (s_answers s)" for s r p
    using that by (auto simp: sup_ok_kept_def has_key_member intro: sup_ok_answer)
qed (simp_all add: sup_ok_kept_def sup_ok_pop, simp_all add: sup_ok_def undrawn_def)

text \<open>A supervisor that starts on a database some supervisor left.\<close>

definition sup_start :: "db \<Rightarrow> nat \<Rightarrow> sup" where
  "sup_start db n = \<lparr>s_db = db, s_closed = False, s_tasks = [], s_live = [], s_stop_requests = [], s_pending = [],
     s_answers = [], s_draws = n\<rparr>"

lemma sup_ok_start:
  "reachable (c_env c) db \<Longrightarrow> inj (c_id c) \<Longrightarrow> (\<And>i. n \<le> i \<Longrightarrow> unused (c_id c i) db) \<Longrightarrow> sup_ok c (sup_start db n)"
  by (simp add: sup_ok_def sup_start_def undrawn_def)

end
