(* ===== verification/Approval_Handlers.thy ===== *)
theory Approval_Handlers
  imports Approvals
begin

text \<open>
  The handlers of approvals, exactly: when a request is put to the caller and what refuses it, and
  when a response is accepted and what it changes; and what holds over a supervisor's history.
\<close>

section \<open>Identifiers and payloads\<close>

lemma sup_ok_fresh:
  assumes "sup_ok c s"
  shows "fresh_event (c_id c (s_draws s + i)) (s_db s)" "i \<noteq> j \<Longrightarrow> c_id c (s_draws s + i) \<noteq> c_id c (s_draws s + j)"
  using assms by (auto simp: sup_ok_def undrawn_def unused_def dest: injD)

lemma requested_safe:
  assumes ok: "store_ok env db" and r: "requested db r p"
  shows "safe_metadata (JStr r)"
proof -
  obtain row where row: "row \<in> set (events_of (pa_worker_id p) db)" "er_type row = ''approval.requested''"
      "jget (e_payload (record_of row)) ''request_id'' = Some (JStr r)"
    using r by (auto simp: requested_def list_ex_iff record_of_def)
  obtain q where q: "json_wf q" "sort_keys q = q" "er_payload row = json_text True True q"
      "validated_payload env ''approval.requested'' q = Inr q"
    using events_row_ok [OF ok row(1)] row(2) by (auto simp: row_ok_def)
  have "e_payload (record_of row) = q" using q by (simp add: record_of_def json_roundtrip_sorted)
  moreover obtain sch where "map_of (event_schemas env) ''approval.requested'' = Some sch"
      "conforms ''approval.requested'' sch q"
    using q validated_payload_iff [OF q(1), of env "''approval.requested''" q] by auto
  moreover from this(1) have "(''request_id'', safe_metadata) \<in> set (required sch)"
    by (auto simp: event_schemas_def schema_def)
  ultimately show ?thesis using conforms_field row(3) by fastforce
qed

lemma status_listed: "approval_status d \<in> {''allowed'', ''denied'', ''answered''}"
proof (cases d)
  case (PermissionDecision a)
  then show ?thesis by (cases a) simp_all
next
  case (ElicitationDecision a x)
  then show ?thesis by (cases a) simp_all
qed

lemma resolved_payload_wf: "json_wf (resolved_payload r d)"
  by (simp add: resolved_payload_def)

lemma resolved_payload_valid:
  assumes "safe_metadata (JStr r)"
  shows "\<exists>p. validated_payload env ''approval.resolved'' (resolved_payload r d) = Inr p"
proof -
  have "approval_status d \<in> set [''allowed'', ''denied'', ''answered'', ''expired'']"
    using status_listed [of d] by auto
  then show ?thesis
    using assms
    by (simp only: validated_payload_iff [OF resolved_payload_wf])
      (simp add: event_schemas_def schema_def conforms_def resolved_payload_def one_of_def invalid_field_def)
qed

section \<open>Responses\<close>

text \<open>The decision a response makes, if it is accepted.\<close>

definition accepted_response ::
    "sup_conf \<Rightarrow> worker_id \<Rightarrow> string \<Rightarrow> (string \<times> json) list \<Rightarrow> sup \<Rightarrow> approval_decision option" where
  "accepted_response c wid rid response s =
     (case (map_of (s_pending s) rid, find_worker wid (s_db s)) of
        (Some p, Some w) \<Rightarrow>
          if pa_worker_id p = wid \<and> w_attempt w = pa_attempt p \<and> w_state w = RequiresAction
             \<and> map_of (s_live s) wid = Some (pa_attempt p)
          then (case parse_approval_response (c_lib c) (pa_request p) response (pa_snapshot p) of
                  Inr d \<Rightarrow> Some d | Inl e \<Rightarrow> None)
          else None
      | _ \<Rightarrow> None)"

lemma respond_succeeds:
  assumes ok: "sup_ok c s" and acc: "accepted_response c wid rid response s = Some d"
  shows "\<exists>p t w. map_of (s_pending s) rid = Some p
     \<and> respond c wid rid response s = (t, Inr [(''request_id'', JStr rid), (''status'', JStr (approval_status d))])
     \<and> t = answer rid d (s\<lparr>s_db := s_db t, s_draws := s_draws s + 2\<rparr>)
     \<and> find_worker wid (s_db t) = Some w \<and> w_attempt w = pa_attempt p
     \<and> w_state w = (if others_pending rid p s then RequiresAction else Running)"
proof -
  obtain p w where a: "map_of (s_pending s) rid = Some p" "find_worker wid (s_db s) = Some w" "pa_worker_id p = wid"
      "w_attempt w = pa_attempt p" "w_state w = RequiresAction" "map_of (s_live s) wid = Some (pa_attempt p)"
      "parse_approval_response (c_lib c) (pa_request p) response (pa_snapshot p) = Inr d"
    using acc by (auto simp: accepted_response_def split: option.splits if_splits sum.splits)
  have sok: "store_ok (c_env c) (s_db s)" and reach: "reachable (c_env c) (s_db s)"
    using ok reachable_ok by (auto simp: sup_ok_def)
  obtain sm where g: "get_worker wid (s_db s) = Inr (Some \<lparr>wr_row = w, wr_result_summary = sm\<rparr>)"
    using worker_found [OF sok a(2)] by blast
  have "(rid, p) \<in> set (s_pending s)" using a(1) by (rule map_of_SomeD)
  then have "requested (s_db s) rid p" using ok by (auto simp: sup_ok_def)
  then obtain q where q: "validated_payload (c_env c) ''approval.resolved'' (resolved_payload rid d) = Inr q"
    using resolved_payload_valid requested_safe [OF sok] by blast
  note fr = sup_ok_fresh(1) [OF ok, of 0] sup_ok_fresh(1) [OF ok, of 1] sup_ok_fresh(2) [OF ok, of 1 0]
  obtain db evs w' where r: "resolution_of c rid p d s = (db, Inr evs)" "find_worker wid db = Some w'"
      "w_attempt w' = pa_attempt p" "w_state w' = (if \<not> others_pending rid p s then Running else RequiresAction)"
    using resolution_succeeds [OF reach _ _ _ resolved_payload_wf q a(2,4,5), of "c_id c (s_draws s)"
        "c_id c (Suc (s_draws s))" "\<not> others_pending rid p s" "c_now c (s_draws s)"] fr a(3)
    by (auto simp: resolution_of_def)
  have "respond c wid rid response s = (answer rid d (s\<lparr>s_db := db, s_draws := s_draws s + 2\<rparr>),
      Inr [(''request_id'', JStr rid), (''status'', JStr (approval_status d))])"
    using respond_resolves [OF a(1,3) g _ _ a(6,7) r(1)] a(4,5) by simp
  moreover have "s_db (answer rid d (s\<lparr>s_db := db, s_draws := s_draws s + 2\<rparr>)) = db" by (simp add: answer_def)
  ultimately show ?thesis using a(1) r by (intro exI conjI) auto
qed


section \<open>Requests\<close>

lemma request_asks:
  assumes "get_worker wid (s_db s) = Inr found" and "can_ask wid n found s" and "request_snapshot (c_lib c) q = Inr snap"
    and "approval_display (c_env c) (c_id c (s_draws s)) n (kept_request q) snap = Inr (Some d)"
  shows "request_approval c wid n q s = ask c wid n q snap d (c_id c (s_draws s)) s"
  using assms by (simp add: request_approval_def act_bind_def reading_def from_res_def)

lemma request_declines:
  assumes "\<not> (\<exists>found snap d. get_worker wid (s_db s) = Inr found \<and> can_ask wid n found s
      \<and> request_snapshot (c_lib c) q = Inr snap
      \<and> approval_display (c_env c) (c_id c (s_draws s)) n (kept_request q) snap = Inr (Some d))"
    and "request_approval c wid n q s = (t, r)"
  shows "t = s \<and> (\<forall>x. r = Inr x \<longrightarrow> x = Inl (default_decision q))"
proof (cases "get_worker wid (s_db s)")
  case (Inl e)
  with assms(2) show ?thesis by (auto simp: request_approval_def act_bind_def reading_def from_res_def)
next
  case (Inr found)
  note defs = request_approval_def act_bind_def reading_def from_res_def ret_def
  show ?thesis
  proof (cases "can_ask wid n found s")
    case True
    note T = True
    show ?thesis
    proof (cases "request_snapshot (c_lib c) q")
      case (Inr snap)
      show ?thesis
      proof (cases "approval_display (c_env c) (c_id c (s_draws s)) n (kept_request q) snap")
        case e: (Inr shown)
        then show ?thesis
          using assms \<open>get_worker wid (s_db s) = Inr found\<close> T Inr by (cases shown) (auto simp: defs)
      qed (use assms(2) \<open>get_worker wid (s_db s) = Inr found\<close> T Inr in \<open>auto simp: defs\<close>)
    qed (use assms(2) Inr T in \<open>auto simp: defs\<close>)
  qed (use assms(2) Inr in \<open>auto simp: defs\<close>)
qed

lemma ask_store:
  assumes ok: "sup_ok c s" and d: "approval_display (c_env c) (c_id c (s_draws s)) n (kept_request q) snap = Inr (Some d)"
    and w: "find_worker wid (s_db s) = Some w" "w_attempt w = n" "w_state w \<in> {Running, RequiresAction}"
    and v: "validated_payload (c_env c) ''approval.requested'' (approval_payload d) = Inr p"
  shows "\<exists>db evs w'. record_approval_request (c_env c) wid n (approval_payload d) (c_now c (s_draws s))
      (c_id c (Suc (s_draws s))) (c_id c (s_draws s + 2)) (s_db s) = (db, Inr evs)
     \<and> find_worker wid db = Some w' \<and> w_attempt w' = n \<and> w_state w' = RequiresAction"
proof -
  have "reachable (c_env c) (s_db s)" using ok by (simp add: sup_ok_def)
  note this sup_ok_fresh(1) [OF ok, of 1] sup_ok_fresh(1) [OF ok, of 2] sup_ok_fresh(2) [OF ok, of 2 1]
  then show ?thesis
    using request_succeeds [OF _ _ _ _ display_wf [OF d] v w, of "c_id c (Suc (s_draws s))" "c_id c (s_draws s + 2)"]
    by simp
qed

lemma request_outcome:
  assumes ok: "sup_ok c s" and r: "request_approval c wid n q s = (t, r)"
  shows "case r of
      Inr (Inr rid) \<Rightarrow> \<not> s_closed s \<and> map_of (s_live s) wid = Some n \<and> map_of (s_answers t) rid = None
        \<and> (\<exists>p. s_pending t = s_pending s @ [(rid, p)] \<and> pa_worker_id p = wid \<and> pa_attempt p = n
             \<and> requested (s_db t) rid p)
        \<and> (\<exists>w. find_worker wid (s_db t) = Some w \<and> w_attempt w = n \<and> w_state w = RequiresAction)
    | Inr (Inl decision) \<Rightarrow> decision = default_decision q \<and> approval_status decision = ''denied''
        \<and> (s_db t, s_pending t, s_answers t) = (s_db s, s_pending s, s_answers s)
    | Inl e \<Rightarrow> (s_db t, s_pending t, s_answers t) = (s_db s, s_pending s, s_answers s)"
proof -
  have denied: "approval_status (default_decision q) = ''denied''" by (cases q) simp_all
  show ?thesis
  proof (cases "\<exists>found snap d. get_worker wid (s_db s) = Inr found \<and> can_ask wid n found s
      \<and> request_snapshot (c_lib c) q = Inr snap
      \<and> approval_display (c_env c) (c_id c (s_draws s)) n (kept_request q) snap = Inr (Some d)")
    case False
    with request_declines [OF False r] denied show ?thesis by (auto split: sum.split)
  next
    case True
    then obtain found snap d where a: "get_worker wid (s_db s) = Inr found" "can_ask wid n found s"
        "request_snapshot (c_lib c) q = Inr snap"
        "approval_display (c_env c) (c_id c (s_draws s)) n (kept_request q) snap = Inr (Some d)" by blast
    let ?rid = "c_id c (s_draws s)"
    have new: "\<not> has_key ?rid (s_pending s)" "\<not> has_key ?rid (s_answers s)" using ok by (simp_all add: sup_ok_def)
    obtain db x where b: "record_approval_request (c_env c) wid n (approval_payload d) (c_now c (s_draws s))
        (c_id c (Suc (s_draws s))) (c_id c (s_draws s + 2)) (s_db s) = (db, x)" by fastforce
    note e = r [unfolded request_asks [OF a] ask_eq [OF b new(1)]]
    show ?thesis
    proof (cases x)
      case (Inl exn)
      then have "db = s_db s" using operations_unchanged(3) [of "c_env c" wid n "approval_payload d" "c_now c (s_draws s)"
          "c_id c (Suc (s_draws s))" "c_id c (s_draws s + 2)" "s_db s"] b by simp
      with e Inl denied show ?thesis by (cases exn) (auto)
    next
      case (Inr evs)
      obtain p where v: "validated_payload (c_env c) ''approval.requested'' (approval_payload d) = Inr p"
        using b Inr by (auto simp: record_approval_request_def split: sum.splits)
      obtain wr where wr: "found = Some wr" "w_attempt (wr_row wr) = n" "w_state (wr_row wr) \<in> {Running, RequiresAction}"
        using a(2) by (auto simp: can_ask_def split: option.splits)
      have "find_worker wid (s_db s) = Some (wr_row wr)" using a(1) wr(1) by (intro found_worker) simp
      from ask_store [OF ok a(4) this wr(2,3) v] b Inr
      have "\<exists>w. find_worker wid db = Some w \<and> w_attempt w = n \<and> w_state w = RequiresAction" by auto
      moreover have "requested db ?rid \<lparr>pa_worker_id = wid, pa_attempt = n, pa_request = kept_request q,
          pa_snapshot = snap, pa_display = d\<rparr>"
        by (rule request_logged [OF b [unfolded Inr] display_wf [OF a(4)] display_request_id [OF a(4)]]) simp_all
      ultimately show ?thesis using e Inr a(2) new by (auto simp: can_ask_def has_key_map_of)
    qed
  qed
qed

text \<open>C4: Asking fails closed. A request goes to the caller only for the attempt that is live, running or
  waiting, on an open supervisor; then it is pending, its event is stored, and the worker waits for action.
  In every other case, and when the store refuses it, the tool is denied (an elicitation is cancelled) or
  the call raises, and the database, the pending requests and the answers are as they were.\<close>

theorem request_fails_closed:
  assumes ok: "sup_ok c s" and r: "request_approval c wid n q s = (t, r)"
  shows "case r of
      Inr (Inr rid) \<Rightarrow> \<not> s_closed s \<and> map_of (s_live s) wid = Some n \<and> map_of (s_answers t) rid = None
        \<and> (\<exists>p. s_pending t = s_pending s @ [(rid, p)] \<and> pa_worker_id p = wid \<and> pa_attempt p = n
             \<and> requested (s_db t) rid p)
        \<and> (\<exists>w. find_worker wid (s_db t) = Some w \<and> w_attempt w = n \<and> w_state w = RequiresAction)
    | Inr (Inl decision) \<Rightarrow> decision = default_decision q \<and> approval_status decision = ''denied''
        \<and> (s_db t, s_pending t, s_answers t) = (s_db s, s_pending s, s_answers s)
    | Inl e \<Rightarrow> (s_db t, s_pending t, s_answers t) = (s_db s, s_pending s, s_answers s)"
  by (rule request_outcome [OF assms])

section \<open>A sample supervisor\<close>

definition sample_conf :: sup_conf where
  "sample_conf = \<lparr>c_env = no_env, c_resolve = Some, c_is_dir = (\<lambda>_. True), c_lib = accept_all, c_now = int,
     c_id = (\<lambda>i. replicate (Suc i) CHR ''u''), c_uuid = (\<lambda>i. replicate (Suc i) CHR ''u''), c_iso = (\<lambda>_. []),
     c_sdk_version = ''1.0'', c_runtime_path = ''/w'', c_runtime_version = None, c_preflight = None,
     c_auditor_resume = True, c_coder_resume = True\<rparr>"

lemma sample_conf_simps [simp]:
  "c_env sample_conf = no_env" "c_lib sample_conf = accept_all" "c_id sample_conf i = replicate (Suc i) CHR ''u''"
  "c_uuid sample_conf i = replicate (Suc i) CHR ''u''" "c_resolve sample_conf = Some" "c_is_dir sample_conf x = True"
  by (simp_all add: sample_conf_def)

lemma sample_ids: "inj (c_id sample_conf)" "replicate (Suc i) CHR ''u'' \<notin> {''e1'', ''e2'', ''w''}"
proof -
  have "length (c_id sample_conf i) = Suc i" for i by simp
  then show "inj (c_id sample_conf)" by (intro injI) (metis nat.inject)
  show "replicate (Suc i) CHR ''u'' \<notin> {''e1'', ''e2'', ''w''}" by simp
qed

lemma sample_unused: "e \<notin> {''e1'', ''e2'', ''w''} \<Longrightarrow> unused e sample_running"
proof -
  assume e: "e \<notin> {''e1'', ''e2'', ''w''}"
  have "unused e empty_db" by (simp add: unused_def fresh_event_def empty_db_def find_worker_def)
  then have "unused e sample_db"
    unfolding sample_db_def using e by (intro create_worker_unused) (simp_all add: chosen_id_def)
  then show "unused e sample_running"
    unfolding sample_running_def using e by (intro store_op_unused(2)) simp_all
qed

definition sample_live :: sup where
  "sample_live = fst (attach_transport ''w'' 1 (sup_start sample_running 0))"

lemma sample_live_fields [simp]:
  "s_db sample_live = sample_running" "s_closed sample_live = False" "s_live sample_live = [(''w'', 1)]"
  "s_pending sample_live = []" "s_answers sample_live = []" "s_draws sample_live = 0" "s_stop_requests sample_live = []"
  by (simp_all add: sample_live_def attach_transport_def modify_def sup_start_def)

lemma sample_live_step: "sup_step sample_conf (sup_start sample_running 0) sample_live"
  unfolding sample_live_def by (rule sup_step.attached)

lemma sample_start_ok: "sup_ok sample_conf (sup_start sample_running 0)"
  using sample_running_state sample_ids sample_unused by (intro sup_ok_start) simp_all

lemma sample_live_ok: "sup_ok sample_conf sample_live"
  using sup_inv.step_rel [OF sample_live_step] sample_start_ok by (simp add: sup_ok_kept_def)

definition sample_question :: approval_request where
  "sample_question = ElicitationRequest \<lparr>el_server_name = ''w'', el_mode = UrlMode, el_display_message = ''Go?'',
     el_requested_schema = None\<rparr>"

lemma sample_kept: "kept_request sample_question = sample_question"
  by (simp add: sample_question_def)

lemma sample_prompt: "safe_display_text no_env ''Go?'' = ''Go?''" "safe_display_value no_env (JStr ''Go?'')"
    "safe_metadata_text ''u''"
  by code_simp+

lemma sample_asks:
  assumes snap: "request_snapshot accept_all q = Inr snap"
    and d: "approval_display no_env ''u'' 1 (kept_request q) snap = Inr (Some d)"
    and v: "validated_payload no_env ''approval.requested'' (approval_payload d) = Inr payload"
  shows "\<exists>t p. request_approval sample_conf ''w'' 1 q sample_live = (t, Inr (Inr ''u''))
     \<and> s_pending t = [(''u'', p)] \<and> pa_request p = kept_request q \<and> pa_worker_id p = ''w'' \<and> pa_attempt p = 1
     \<and> pa_snapshot p = snap \<and> s_live t = [(''w'', 1)] \<and> s_answers t = []"
proof -
  obtain w where w: "find_worker ''w'' sample_running = Some w" "w_state w = Running" "w_attempt w = 1"
    using sample_running_state by blast
  have "store_ok no_env sample_running" using sample_running_state reachable_ok by blast
  then obtain sm where g: "get_worker ''w'' (s_db sample_live) = Inr (Some \<lparr>wr_row = w, wr_result_summary = sm\<rparr>)"
    using worker_found w(1) by fastforce
  have d': "approval_display (c_env sample_conf) (c_id sample_conf (s_draws sample_live)) 1 (kept_request q) snap
      = Inr (Some d)" using d by simp
  have c: "can_ask ''w'' 1 (Some \<lparr>wr_row = w, wr_result_summary = sm\<rparr>) sample_live" using w by (simp add: can_ask_def)
  obtain db evs where b: "record_approval_request (c_env sample_conf) ''w'' 1 (approval_payload d)
      (c_now sample_conf (s_draws sample_live)) (c_id sample_conf (Suc (s_draws sample_live)))
      (c_id sample_conf (s_draws sample_live + 2)) (s_db sample_live) = (db, Inr evs)"
    using ask_store [OF sample_live_ok d', of "''w''" w payload] w v
    by (simp only: sample_live_fields sample_conf_simps insertI1 simp_thms) blast
  have "request_approval sample_conf ''w'' 1 q sample_live
      = ask sample_conf ''w'' 1 q snap d (c_id sample_conf (s_draws sample_live)) sample_live"
    by (rule request_asks [OF g c _ d']) (simp add: snap)
  then show ?thesis using ask_eq [OF b, of "''u''" q snap] by simp
qed

lemma sample_asked:
  "\<exists>t p. request_approval sample_conf ''w'' 1 sample_question sample_live = (t, Inr (Inr ''u''))
     \<and> s_pending t = [(''u'', p)] \<and> pa_request p = sample_question \<and> pa_worker_id p = ''w'' \<and> pa_attempt p = 1
     \<and> pa_snapshot p = None \<and> s_live t = [(''w'', 1)] \<and> s_answers t = []"
proof -
  define d where "d = [(''request_id'', JStr ''u''), (''attempt'', JInt (int 1)), (''kind'', JStr ''elicitation''),
    (''server_name'', JStr ''w''), (''mode'', JStr ''url''), (''prompt'', JStr ''Go?''), (''choices'', elicitation_choices)]"
  have d: "approval_display no_env ''u'' 1 (kept_request sample_question) None = Inr (Some d)"
    using sample_metadata(1) sample_prompt(1)
    by (simp add: sample_kept) (simp add: approval_display_def sample_question_def d_def Let_def schema_display_def)
  obtain p where v: "validated_payload no_env ''approval.requested'' (approval_payload d) = Inr p"
    using elicitation_storable [OF sample_prompt(3), of "''w''" "[]" "''url''" "[]" no_env "int 1" "''Go?''"]
      sample_metadata(1) sample_prompt(2) by (auto simp: d_def)
  have "request_snapshot accept_all sample_question = Inr None"
    by (simp add: sample_question_def snapshot_elicitation_schema_def)
  from sample_asks [OF this d v] show ?thesis by (simp add: sample_kept)
qed

definition sample_waiting :: sup where
  "sample_waiting = fst (request_approval sample_conf ''w'' 1 sample_question sample_live)"

lemma sample_waiting_step: "sup_step sample_conf sample_live sample_waiting"
  unfolding sample_waiting_def by (rule sup_step.asked)

lemma sample_waiting_steps: "(sup_step sample_conf)\<^sup>*\<^sup>* (sup_start sample_running 0) sample_waiting"
  by (rule converse_rtranclp_into_rtranclp [OF sample_live_step r_into_rtranclp [of "sup_step sample_conf",
    OF sample_waiting_step]])

lemma sample_waiting_ok: "sup_ok sample_conf sample_waiting"
  using sup_inv.step_rel [OF sample_waiting_step] sample_live_ok by (simp add: sup_ok_kept_def)

theorem request_fails_closed_witness:
  "\<exists>t. request_approval sample_conf ''w'' 1 sample_question sample_live = (t, Inr (Inr ''u''))
     \<and> (\<exists>w. find_worker ''w'' (s_db t) = Some w \<and> w_state w = RequiresAction)"
proof -
  obtain t where t: "request_approval sample_conf ''w'' 1 sample_question sample_live = (t, Inr (Inr ''u''))"
    using sample_asked by blast
  from request_fails_closed [OF sample_live_ok t] show ?thesis using t by auto
qed

lemma sample_decline:
  "parse_approval_response accept_all sample_question [(''action'', JStr ''decline'')] None
     = Inr (ElicitationDecision DeclineAction None)"
  by (simp add: parse_approval_response_def sample_question_def only_fields_def)

lemma sample_accepted:
  "accepted_response sample_conf ''w'' ''u'' [(''action'', JStr ''decline'')] sample_waiting
     = Some (ElicitationDecision DeclineAction None)"
proof -
  obtain t p where a: "request_approval sample_conf ''w'' 1 sample_question sample_live = (t, Inr (Inr ''u''))"
      "s_pending t = [(''u'', p)]" "pa_request p = sample_question" "pa_worker_id p = ''w''" "pa_attempt p = 1"
      "pa_snapshot p = None" "s_live t = [(''w'', 1)]" "s_answers t = []"
    using sample_asked by blast
  obtain w where w: "find_worker ''w'' (s_db t) = Some w" "w_attempt w = 1" "w_state w = RequiresAction"
    using request_outcome [OF sample_live_ok a(1)] by auto
  have "sample_waiting = t" by (simp only: sample_waiting_def a(1) fst_conv)
  then show ?thesis using a w sample_decline by (simp add: accepted_response_def)
qed


section \<open>Histories\<close>


text \<open>C7: In every state of a supervisor that was started on a database some supervisor left, each pending
  request was announced by an \<open>approval.requested\<close> event in the log of its worker and attempt, no
  two pending requests share an identifier, and none of them has been answered.\<close>

theorem pending_requests_durable:
  assumes "reachable (c_env c) db" and "inj (c_id c)" and "\<forall>i \<ge> n. unused (c_id c i) db"
    and "(sup_step c)\<^sup>*\<^sup>* (sup_start db n) t"
  shows "distinct (map fst (s_pending t))
     \<and> list_all (\<lambda>(r, p). requested (s_db t) r p \<and> map_of (s_answers t) r = None) (s_pending t)"
  using sup_inv.steps_rel [OF assms(4)] sup_ok_start [OF assms(1,2)] assms(3)
  by (auto simp: sup_ok_kept_def sup_ok_def list_all_iff has_key_map_of)

text \<open>C22: A decision is final: once a request is answered, whether by a response, a default or an expiry, no
  later handler changes the answer its transport sees; and a supervisor that was shut down stays shut down.\<close>

theorem decisions_are_final:
  assumes "(sup_step c)\<^sup>*\<^sup>* s t"
  shows "map_of (s_answers s) \<subseteq>\<^sub>m map_of (s_answers t) \<and> s_closed s \<le> s_closed t"
  using sup_answers.steps_rel [OF assms] sup_closed.steps_rel [OF assms]
  by (simp add: answers_kept_def closed_kept_def)


theorem pending_requests_durable_witness:
  "\<exists>p. s_pending sample_waiting = [(''u'', p)] \<and> requested (s_db sample_waiting) ''u'' p"
proof -
  have "reachable (c_env sample_conf) sample_running" "\<forall>i \<ge> 0. unused (c_id sample_conf i) sample_running"
    using sample_running_state sample_unused by simp_all
  from pending_requests_durable [OF this(1) sample_ids(1) this(2) sample_waiting_steps] sample_asked show ?thesis
    by (auto simp: sample_waiting_def)
qed

theorem decisions_are_final_witness:
  "s_answers (answer ''u'' (ElicitationDecision DeclineAction None) sample_waiting) \<noteq> []
   \<and> (\<exists>t. (sup_step sample_conf)\<^sup>*\<^sup>* (answer ''u'' (ElicitationDecision DeclineAction None) sample_waiting) t
        \<and> s_closed t \<and> map_of (s_answers t) ''u'' \<noteq> None)"
proof -
  let ?s = "answer ''u'' (ElicitationDecision DeclineAction None) sample_waiting"
  have k: "map_of (s_answers ?s) ''u'' \<noteq> None" by (auto simp: answer_def has_key_map_of)
  have "(sup_step sample_conf)\<^sup>*\<^sup>* ?s (fst (close_begin ?s))" by (intro r_into_rtranclp sup_step.closing)
  moreover from this have "map_of (s_answers (fst (close_begin ?s))) ''u'' \<noteq> None"
    using decisions_are_final [of sample_conf ?s "fst (close_begin ?s)"] k by (force simp: map_le_def dom_def)
  moreover have "s_closed (fst (close_begin ?s))" by (simp add: close_begin_def modify_def)
  ultimately show ?thesis using k by (intro conjI exI [of _ "fst (close_begin ?s)"]) auto
qed

end
