(* ===== verification/Watch.thy ===== *)
theory Watch
  imports Approval_Handlers
begin

text \<open>
  The generator of \<open>Supervisor.watch\<close>, round by round, with what other handlers do in between: a
  watch delivers the log of its worker, whatever runs between its rounds.
\<close>

section \<open>The generator\<close>

text \<open>\<open>turns\<close> is what runs while the generator is suspended, once after each round; the events it
  yields, and how it ends: \<open>None\<close> when it is still suspended after the last turn.\<close>

fun watch_rounds ::
    "worker_id \<Rightarrow> int \<Rightarrow> bool \<Rightarrow> (sup \<Rightarrow> sup) list \<Rightarrow> sup \<Rightarrow> sup \<times> event_record list \<times> unit res option" where
  "watch_rounds wid cursor follow [] s =
     (case watch_round wid cursor follow s of
        (s1, Inl e) \<Rightarrow> (s1, [], Some (Inl e))
      | (s1, Inr WatchEnd) \<Rightarrow> (s1, [], Some (Inr ()))
      | (s1, Inr (WatchEvents evs)) \<Rightarrow> (s1, evs, if follow then None else Some (Inr ()))
      | (s1, Inr WatchWait) \<Rightarrow> (s1, [], None))"
| "watch_rounds wid cursor follow (turn # turns) s =
     (case watch_round wid cursor follow s of
        (s1, Inl e) \<Rightarrow> (s1, [], Some (Inl e))
      | (s1, Inr WatchEnd) \<Rightarrow> (s1, [], Some (Inr ()))
      | (s1, Inr (WatchEvents evs)) \<Rightarrow>
          if \<not> follow then (s1, evs, Some (Inr ()))
          else (let (s2, more, ended) =
                      watch_rounds wid (int (e_sequence (last evs))) follow turns (turn s1)
                in (s2, evs @ more, ended))
      | (s1, Inr WatchWait) \<Rightarrow> watch_rounds wid cursor follow turns (turn s1))"

definition watch_generator ::
    "worker_id \<Rightarrow> int \<Rightarrow> bool \<Rightarrow> (sup \<Rightarrow> sup) list \<Rightarrow> sup \<Rightarrow> sup \<times> event_record list \<times> unit res option" where
  "watch_generator wid since follow turns s =
     (case watch_start wid since s of
        (s1, Inl e) \<Rightarrow> (s1, [], Some (Inl e))
      | (s1, Inr _) \<Rightarrow> watch_rounds wid since follow turns s1)"

section \<open>It delivers the log\<close>

text \<open>Turns that change the database by store operations only.\<close>

definition store_turns :: "environ \<Rightarrow> (sup \<Rightarrow> sup) list \<Rightarrow> bool" where
  "store_turns env turns \<longleftrightarrow> (\<forall>turn \<in> set turns. \<forall>s. (store_step env)\<^sup>*\<^sup>* (s_db s) (s_db (turn s)))"

text \<open>A round leaves the state alone; what it reports of it.\<close>

lemma watch_round_cases:
  assumes ok: "store_ok env (s_db s)" and since: "0 \<le> cursor"
  obtains (news) evs where "watch_round wid cursor follow s = (s, Inr (WatchEvents evs))" "evs \<noteq> []"
      "evs = map record_of (drop (nat cursor) (events_of wid (s_db s)))"
  | (over) "watch_round wid cursor follow s = (s, Inr WatchEnd)" "drop (nat cursor) (events_of wid (s_db s)) = []"
      "follow \<Longrightarrow> s_closed s \<or> (\<exists>w. find_worker wid (s_db s) = Some w \<and> terminal_state (w_state w))"
  | (waiting) "watch_round wid cursor follow s = (s, Inr WatchWait)" "drop (nat cursor) (events_of wid (s_db s)) = []" "follow"
  | (failed) e where "watch_round wid cursor follow s = (s, Inl e)" "drop (nat cursor) (events_of wid (s_db s)) = []" "follow"
proof -
  let ?new = "map record_of (drop (nat cursor) (events_of wid (s_db s)))"
  have evs: "events_since wid cursor (s_db s) = Inr ?new" by (rule events_since_eq [OF ok since])
  have r: "watch_round wid cursor follow s =
     (if ?new \<noteq> [] then (s, Inr (WatchEvents ?new))
      else if \<not> follow then (s, Inr WatchEnd)
      else if s_closed s then (s, Inr WatchEnd)
      else (case require_worker wid s of
          (s1, Inl e) \<Rightarrow> (s1, Inl e)
        | (s1, Inr wr) \<Rightarrow> (s1, Inr (if terminal_state (w_state (wr_row wr)) then WatchEnd else WatchWait))))"
    by (simp add: watch_round_def act_bind_def reading_def from_res_def evs ret_def split: prod.split sum.split)
  show thesis
  proof (cases "?new \<noteq> [] \<or> \<not> follow \<or> s_closed s")
    case True
    then show thesis using r news over by (auto split: if_splits)
  next
    case False
    show thesis
    proof (cases "get_worker wid (s_db s)")
      case (Inl e)
      then have "require_worker wid s = (s, Inl e)"
        by (simp add: require_worker_def act_bind_def reading_def from_res_def)
      then show thesis using r False failed by simp
    next
      case (Inr found)
      show thesis
      proof (cases found)
        case None
        then have "\<exists>e. require_worker wid s = (s, Inl e)"
          using Inr by (simp add: require_worker_def act_bind_def reading_def from_res_def raise_exn_def)
        then show thesis using r False failed by auto
      next
        case (Some wr)
        then have "require_worker wid s = (s, Inr wr)" "find_worker wid (s_db s) = Some (wr_row wr)"
          using Inr by (auto simp: require_worker_def act_bind_def reading_def from_res_def ret_def get_worker_def worker_from_row_def
              res_simps split: option.splits)
        then show thesis using r False over waiting by (cases "terminal_state (w_state (wr_row wr))") auto
      qed
    qed
  qed
qed

text \<open>The cursor after a batch is the end of the log it was read from.\<close>

lemma cursor_after:
  assumes ok: "store_ok env db" and ne: "drop n (events_of wid db) \<noteq> []"
  shows "e_sequence (last (map record_of (drop n (events_of wid db)))) = length (events_of wid db)"
proof -
  let ?log = "events_of wid db"
  have "map er_sequence ?log = [1..<Suc (length ?log)]" by (rule event_log.numbered [OF ok])
  then have "last (map er_sequence ?log) = length ?log" using ne by (cases ?log) simp_all
  moreover have "last (drop n ?log) = last ?log" using ne by (intro last_drop) simp
  ultimately show ?thesis using ne by (cases ?log) (auto simp: last_map record_of_def)
qed

lemma watch_rounds_log:
  assumes "reachable env (s_db s)" and "0 \<le> cursor" and "store_turns env turns"
    and "watch_rounds wid cursor follow turns s = (t, evs, ended)"
  shows "(store_step env)\<^sup>*\<^sup>* (s_db s) (s_db t) \<and> (\<exists>more. map record_of (drop (nat cursor) (events_of wid (s_db t))) = evs @ more
     \<and> (ended \<noteq> None \<longrightarrow> more = []))
     \<and> (ended = Some (Inr ()) \<longrightarrow> follow \<longrightarrow>
          s_closed t \<or> (\<exists>w. find_worker wid (s_db t) = Some w \<and> terminal_state (w_state w)))"
  using assms
proof (induction wid cursor follow turns s arbitrary: t evs ended rule: watch_rounds.induct)
  case (1 wid cursor follow s)
  note ok = reachable_ok [OF "1.prems"(1)]
  show ?case
    by (rule watch_round_cases [OF ok "1.prems"(2), of wid follow])
      (use "1.prems" in \<open>auto split: if_splits\<close>)
next
  case (2 wid cursor follow turn turns s)
  note ok = reachable_ok [OF "2.prems"(1)]
  have step: "(store_step env)\<^sup>*\<^sup>* (s_db s) (s_db (turn s))" and rest: "store_turns env turns"
    using "2.prems"(3) by (simp_all add: store_turns_def)
  have reach: "reachable env (s_db (turn s))" using reachable_steps [OF "2.prems"(1) step] .
  show ?case
  proof (rule watch_round_cases [OF ok "2.prems"(2), of wid follow])
    fix news
    assume r: "watch_round wid cursor follow s = (s, Inr (WatchEvents news))" and ne: "news \<noteq> []"
      and news: "news = map record_of (drop (nat cursor) (events_of wid (s_db s)))"
    show ?thesis
    proof (cases follow)
      case False
      with r news "2.prems" show ?thesis by auto
    next
      case True
      let ?n = "length (events_of wid (s_db s))"
      have last: "e_sequence (last news) = ?n" using cursor_after [OF ok] ne news by simp
      obtain more where m: "watch_rounds wid (int ?n) follow turns (turn s) = (t, more, ended)" "evs = news @ more"
        using "2.prems"(4) r True last by (auto split: prod.splits)
      have ih: "(store_step env)\<^sup>*\<^sup>* (s_db (turn s)) (s_db t)
          \<and> (\<exists>k. map record_of (drop ?n (events_of wid (s_db t))) = more @ k \<and> (ended \<noteq> None \<longrightarrow> k = []))
          \<and> (ended = Some (Inr ()) \<longrightarrow> follow \<longrightarrow>
             s_closed t \<or> (\<exists>w. find_worker wid (s_db t) = Some w \<and> terminal_state (w_state w)))"
        using "2.IH"(1) [OF r [symmetric] refl refl _ reach _ rest, of t more ended] True last m(1) by simp
      have steps: "(store_step env)\<^sup>*\<^sup>* (s_db s) (s_db t)" using step ih by (meson rtranclp_trans)
      obtain ext' where "events_of wid (s_db t) = events_of wid (s_db s) @ ext'"
        using event_log.steps_grow [OF steps ok] by (auto simp: prefix_def)
      moreover have "nat cursor < ?n" using ne news by simp
      ultimately have "map record_of (drop (nat cursor) (events_of wid (s_db t)))
          = news @ map record_of (drop ?n (events_of wid (s_db t)))" using news by simp
      then show ?thesis using ih steps m(2) by auto
    qed
  next
    assume r: "watch_round wid cursor follow s = (s, Inr WatchWait)"
    have "watch_rounds wid cursor follow turns (turn s) = (t, evs, ended)" using "2.prems"(4) r by simp
    note ih = "2.IH"(2) [OF r [symmetric] refl refl reach "2.prems"(2) rest this]
    show ?thesis using rtranclp_trans [OF step conjunct1 [OF ih]] conjunct2 [OF ih] by (rule conjI)
  qed (use "2.prems" in auto)
qed

lemma watch_started:
  assumes "reachable env (s_db s)" and "find_worker wid (s_db s) = Some w" and "0 \<le> since"
  shows "watch_start wid since s = (s, Inr ())"
proof -
  obtain wr where "get_worker wid (s_db s) = Inr (Some wr)"
    using worker_found [OF reachable_ok [OF assms(1)] assms(2)] by blast
  then show ?thesis
    using assms(3) by (simp add: watch_start_def act_then_def act_bind_def guard_act_def ret_def require_worker_def
        reading_def from_res_def)
qed

text \<open>A watch loses nothing and invents nothing, whatever other handlers do while it is suspended: at every
  moment the events it has delivered are the first of the worker's log after its cursor, and when it
  has ended they are all of them. A follower ends normally only when the worker is terminal or the
  supervisor is closed.\<close>

lemma watch_delivers_log:
  assumes "reachable env (s_db s)" and "find_worker wid (s_db s) = Some w" and "0 \<le> since"
    and "store_turns env turns" and "watch_generator wid since follow turns s = (t, evs, ended)"
  shows "\<exists>more. events_since wid since (s_db t) = Inr (evs @ more) \<and> (ended \<noteq> None \<longrightarrow> more = [])
     \<and> (ended = Some (Inr ()) \<longrightarrow> follow \<longrightarrow>
          s_closed t \<or> (\<exists>w'. find_worker wid (s_db t) = Some w' \<and> terminal_state (w_state w')))"
proof -
  have "watch_rounds wid since follow turns s = (t, evs, ended)"
    using watch_started [OF assms(1-3)] assms(5) by (simp add: watch_generator_def)
  from watch_rounds_log [OF assms(1,3,4) this] show ?thesis
    using events_since_eq [OF reachable_ok assms(3)] reachable_steps [OF assms(1)] by metis
qed

end
