(* ===== verification/Run_End.thy ===== *)
theory Run_End
  imports Approval_Handlers
begin

text \<open>
  How an attempt ends: the supervisor gives up its transport and the requests still pending, stores
  the result if there is one, and moves the worker to its terminal state.
\<close>

section \<open>Events appended to one worker\<close>

text \<open>Only the log and the worker's row change; \<open>tys\<close> are the types of the new events.\<close>

definition logs :: "sup_conf \<Rightarrow> worker_id \<Rightarrow> string list \<Rightarrow> worker_row \<Rightarrow> sup \<Rightarrow> sup \<Rightarrow> bool" where
  "logs c wid tys w s t \<longleftrightarrow> t = s\<lparr>s_db := s_db t, s_draws := s_draws t\<rparr> \<and> sup_ok c t
     \<and> find_worker wid (s_db t) = Some w
     \<and> map er_type (events_of wid (s_db t)) = map er_type (events_of wid (s_db s)) @ tys"

lemma logs_trans: "logs c wid xs w s t \<Longrightarrow> logs c wid ys v t u \<Longrightarrow> logs c wid (xs @ ys) v s u"
  unfolding logs_def
  by (metis (no_types, lifting) append_assoc sup.surjective sup.update_convs(1) sup.update_convs(8))

lemma logs_fields:
  "logs c wid tys w s t \<Longrightarrow> s_pending t = s_pending s \<and> s_answers t = s_answers s \<and> s_live t = s_live s
     \<and> s_stop_requests t = s_stop_requests s \<and> s_tasks t = s_tasks s \<and> s_closed t = s_closed s"
  unfolding logs_def by (elim conjE) (metis sup.ext_inject sup.surjective sup.update_convs(1) sup.update_convs(8))

lemma append_act:
  assumes ok: "sup_ok c s" and wf: "json_wf payload"
    and a: "append_event (c_env c) wid ty payload (c_now c (s_draws s)) (c_id c (s_draws s)) (s_db s) = (db', Inr ev)"
    and l: "logged (c_env c) wid w ty p (c_now c (s_draws s)) (c_id c (s_draws s)) (s_db s) db' ev w'"
  shows "\<exists>t. append_event_act c wid ty payload s = (t, Inr ()) \<and> logs c wid [ty] w' s t"
proof -
  let ?t = "s\<lparr>s_db := db', s_draws := s_draws s + 1\<rparr>"
  have "store_call (c_env c) 1 (\<lambda>i. c_id c (s_draws s + i)) (s_db s) (fst (db', Inr ev :: event_record res))"
    unfolding a [symmetric]
    using store_calls'(3) [OF wf, of "c_env c" "\<lambda>i. c_id c (s_draws s + i)" "s_db s" wid ty] by simp
  then have "sup_ok c ?t" by (intro sup_ok_store [OF ok]) simp
  moreover have "map er_type (events_of wid db') = map er_type (events_of wid (s_db s)) @ [ty]"
    using l by (auto simp: logged_def advanced_def record_of_def)
  moreover have "append_event_act c wid ty payload s = (?t, Inr ())"
    using a by (simp add: append_event_act_def sup_append_def act_bind_def on_store_def ret_def)
  moreover have "find_worker wid db' = Some w'" using l by (simp add: logged_def advanced_def)
  ultimately show ?thesis by (intro exI [of _ ?t]) (simp add: logs_def)
qed

lemma ok_store: "sup_ok c s \<Longrightarrow> store_ok (c_env c) (s_db s)"
  by (simp add: sup_ok_def reachable_ok)

lemma ok_next: "sup_ok c s \<Longrightarrow> fresh_event (c_id c (s_draws s)) (s_db s)"
  using sup_ok_fresh(1) [of c s 0] by simp

lemma health_act:
  assumes "sup_ok c s" and "find_worker wid (s_db s) = Some w"
  shows "\<exists>t now. append_event_act c wid ''worker.health_changed'' (health_payload h) s = (t, Inr ())
     \<and> logs c wid [''worker.health_changed''] (w\<lparr>w_last_event_at := Some now, w_health := h\<rparr>) s t"
proof -
  obtain db' ev where "append_event (c_env c) wid ''worker.health_changed'' (health_payload h) (c_now c (s_draws s))
      (c_id c (s_draws s)) (s_db s) = (db', Inr ev)"
    "logged (c_env c) wid w ''worker.health_changed'' (sort_keys (health_payload h)) (c_now c (s_draws s))
      (c_id c (s_draws s)) (s_db s) db' ev (w\<lparr>w_last_event_at := Some (c_now c (s_draws s)), w_health := h\<rparr>)"
    using append_health [OF ok_store [OF assms(1)] assms(2) ok_next [OF assms(1)]] by blast
  from append_act [OF assms(1) _ this] show ?thesis by (auto simp: payloads_wf)
qed

lemma warning_act:
  assumes "sup_ok c s" and "find_worker wid (s_db s) = Some w" and "safe_metadata_text code"
  shows "\<exists>t now. append_event_act c wid ''worker.warning'' (warning_payload code) s = (t, Inr ())
     \<and> logs c wid [''worker.warning''] (w\<lparr>w_last_event_at := Some now, w_warnings := add_once code (w_warnings w)\<rparr>) s t"
proof -
  obtain db' ev where "append_event (c_env c) wid ''worker.warning'' (warning_payload code) (c_now c (s_draws s))
      (c_id c (s_draws s)) (s_db s) = (db', Inr ev)"
    "logged (c_env c) wid w ''worker.warning'' (sort_keys (warning_payload code)) (c_now c (s_draws s))
      (c_id c (s_draws s)) (s_db s) db' ev
      (w\<lparr>w_last_event_at := Some (c_now c (s_draws s)), w_warnings := add_once code (w_warnings w)\<rparr>)"
    using append_warning [OF ok_store [OF assms(1)] assms(2) ok_next [OF assms(1)] assms(3)] by blast
  from append_act [OF assms(1) _ this] show ?thesis by (auto simp: payloads_wf)
qed

lemma state_act:
  assumes "sup_ok c s" and "find_worker wid (s_db s) = Some w" and "st \<in> set (transitions (w_state w))" "st \<noteq> Starting"
  shows "\<exists>t now. append_event_act c wid ''worker.state_changed'' (state_payload st) s = (t, Inr ())
     \<and> logs c wid [''worker.state_changed''] (moved st now w) s t"
proof -
  obtain db' ev where "append_event (c_env c) wid ''worker.state_changed'' (state_payload st) (c_now c (s_draws s))
      (c_id c (s_draws s)) (s_db s) = (db', Inr ev)"
    "logged (c_env c) wid w ''worker.state_changed'' (state_payload st) (c_now c (s_draws s))
      (c_id c (s_draws s)) (s_db s) db' ev (moved st (c_now c (s_draws s)) w)"
    using append_state [OF ok_store [OF assms(1)] assms(2) ok_next [OF assms(1)] assms(3,4)] by blast
  from append_act [OF assms(1) _ this] show ?thesis by (auto simp: own_payloads_wf)
qed

lemma plain_act:
  assumes "sup_ok c s" and "find_worker wid (s_db s) = Some w"
    and "validated_payload (c_env c) ty payload = Inr p" and "json_wf payload" and "ty \<notin> set projecting"
  shows "\<exists>t now. append_event_act c wid ty payload s = (t, Inr ())
     \<and> logs c wid [ty] (w\<lparr>w_last_event_at := Some now\<rparr>) s t"
proof -
  obtain db' ev where "append_event (c_env c) wid ty payload (c_now c (s_draws s)) (c_id c (s_draws s)) (s_db s)
      = (db', Inr ev)"
    "logged (c_env c) wid w ty p (c_now c (s_draws s)) (c_id c (s_draws s)) (s_db s) db' ev
      (w\<lparr>w_last_event_at := Some (c_now c (s_draws s))\<rparr>)"
    using append_plain [OF ok_store [OF assms(1)] assms(2) ok_next [OF assms(1)] assms(3-5)] by blast
  from append_act [OF assms(1,4) this] show ?thesis by blast
qed

text \<open>Warnings that the row already has: the events are stored and the list stays.\<close>

lemma known_warnings_act:
  "sup_ok c s \<Longrightarrow> find_worker wid (s_db s) = Some w \<Longrightarrow> set ws \<subseteq> set (w_warnings w) \<Longrightarrow>
   \<forall>x \<in> set ws. safe_metadata_text x \<Longrightarrow>
   \<exists>t l. for_each (\<lambda>x. append_event_act c wid ''worker.warning'' (warning_payload x)) ws s = (t, Inr ())
     \<and> logs c wid (map (\<lambda>_. ''worker.warning'') ws) (w\<lparr>w_last_event_at := l\<rparr>) s t"
proof (induction ws arbitrary: s w)
  case Nil
  then have "logs c wid [] (w\<lparr>w_last_event_at := w_last_event_at w\<rparr>) s s" by (simp add: logs_def)
  then show ?case by (intro exI [of _ s] exI [of _ "w_last_event_at w"]) (simp add: ret_def)
next
  case (Cons x ws)
  obtain t now where a: "append_event_act c wid ''worker.warning'' (warning_payload x) s = (t, Inr ())"
      "logs c wid [''worker.warning''] (w\<lparr>w_last_event_at := Some now, w_warnings := add_once x (w_warnings w)\<rparr>) s t"
    using warning_act [OF Cons.prems(1,2), of x] Cons.prems(4) by auto
  have "add_once x (w_warnings w) = w_warnings w" using Cons.prems(3) by (simp add: add_once_def)
  then have l: "logs c wid [''worker.warning''] (w\<lparr>w_last_event_at := Some now\<rparr>) s t" using a(2) by simp
  then have "sup_ok c t" "find_worker wid (s_db t) = Some (w\<lparr>w_last_event_at := Some now\<rparr>)"
    by (simp_all add: logs_def)
  from Cons.IH [OF this] Cons.prems(3,4) obtain u l' where
    "for_each (\<lambda>x. append_event_act c wid ''worker.warning'' (warning_payload x)) ws t = (u, Inr ())"
    "logs c wid (map (\<lambda>_. ''worker.warning'') ws) (w\<lparr>w_last_event_at := Some now\<rparr>\<lparr>w_last_event_at := l'\<rparr>) t u" by auto
  with a(1) logs_trans [OF l this(2)] show ?case by (auto simp: act_then_def act_bind_def)
qed

section \<open>Giving up the transport\<close>

lemma fold_answers:
  assumes "distinct (map fst ps)" and "\<forall>(r, p) \<in> set ps. \<not> has_key r (s_answers s)"
    and "t = fold (\<lambda>(r, p). answer r (f p)) ps s"
  shows "s_pending t = filter (\<lambda>(r, p). r \<notin> fst ` set ps) (s_pending s)
     \<and> (\<forall>(r, p) \<in> set ps. map_of (s_answers t) r = Some (f p))
     \<and> (\<forall>r. r \<notin> fst ` set ps \<longrightarrow> map_of (s_answers t) r = map_of (s_answers s) r)
     \<and> t = s\<lparr>s_pending := s_pending t, s_answers := s_answers t\<rparr>"
  using assms
proof (induction ps arbitrary: s)
  case (Cons a ps)
  obtain r p where a: "a = (r, p)" by (cases a)
  let ?s = "answer r (f p) s"
  have ans: "map_of (s_answers ?s) = (map_of (s_answers s))(r \<mapsto> f p)" "s_pending ?s = assoc_pop r (s_pending s)"
      "?s = s\<lparr>s_pending := s_pending ?s, s_answers := s_answers ?s\<rparr>"
    using Cons.prems(2) by (simp_all add: a answer_def)
  have "k \<noteq> r" if "(k, q) \<in> set ps" for k q using Cons.prems(1) that by (force simp: a)
  then have "\<forall>(r, p) \<in> set ps. \<not> has_key r (s_answers ?s)"
    using Cons.prems(2) ans(1) by (auto simp: a has_key_map_of)
  note IH = Cons.IH [OF _ this]
  have d: "distinct (map fst ps)" and e: "t = fold (\<lambda>(r, p). answer r (f p)) ps ?s"
    using Cons.prems(1,3) by (simp_all add: a)
  have rest: "s_pending t = filter (\<lambda>(r, p). r \<notin> fst ` set ps) (s_pending ?s)"
      "\<forall>(r, p) \<in> set ps. map_of (s_answers t) r = Some (f p)"
      "\<forall>r. r \<notin> fst ` set ps \<longrightarrow> map_of (s_answers t) r = map_of (s_answers ?s) r"
      "t = ?s\<lparr>s_pending := s_pending t, s_answers := s_answers t\<rparr>"
    using IH [OF d e] by blast+
  have "s_pending t = filter (\<lambda>(r, p). r \<notin> fst ` set (a # ps)) (s_pending s)"
    unfolding rest(1) ans(2) assoc_pop_def filter_filter by (rule filter_cong) (auto simp: a)
  moreover have "t = s\<lparr>s_pending := s_pending t, s_answers := s_answers t\<rparr>"
    by (subst rest(4), subst ans(3)) simp
  ultimately show ?case using rest(2,3) ans(1) Cons.prems(1) by (auto simp: a)
qed simp

text \<open>The row of a worker whose attempt has lost its transport.\<close>

definition let_go :: "worker_row \<Rightarrow> worker_row \<Rightarrow> bool" where
  "let_go w v \<longleftrightarrow> w_state v = (if w_state w = RequiresAction then Running else w_state w)
     \<and> w_attempt v = w_attempt w \<and> w_health v = w_health w \<and> w_warnings v = w_warnings w
     \<and> w_result_summary v = w_result_summary w"

lemma let_go_simps [simp]: "w_state w \<noteq> RequiresAction \<Longrightarrow> let_go w w"
    "w_state w = RequiresAction \<Longrightarrow> let_go w (moved Running now w)"
  by (simp_all add: let_go_def)

definition released :: "worker_id \<Rightarrow> nat \<Rightarrow> sup \<Rightarrow> sup \<Rightarrow> bool" where
  "released wid n s t \<longleftrightarrow> s_live t = assoc_pop wid (s_live s) \<and> pending_of wid n t = []
     \<and> list_all (\<lambda>(r, p). map_of (s_answers t) r = Some (default_decision (pa_request p))) (pending_of wid n s)
     \<and> (s_tasks t, s_closed t) = (s_tasks s, s_closed s)"

lemma pending_safe:
  assumes "sup_ok c s"
  shows "\<forall>r \<in> set (map fst (pending_of wid n s)). safe_metadata (JStr r)"
  using assms requested_safe [OF ok_store [OF assms]] by (auto simp: pending_of_def sup_ok_def)

lemma release_answers:
  assumes ok: "sup_ok c s" and p: "s_pending s1 = s_pending s" "s_answers s1 = s_answers s"
      "(s_stop_requests s1, s_tasks s1, s_closed s1, s_live s1) = (s_stop_requests s, s_tasks s, s_closed s, s_live s)"
    and t: "t = fold (\<lambda>(r, p). answer r (default_decision (pa_request p))) (pending_of wid n s) s1"
  shows "released wid n s (t\<lparr>s_live := assoc_pop wid (s_live t)\<rparr>) \<and> s_db t = s_db s1
     \<and> s_stop_requests t = s_stop_requests s"
proof -
  have d: "distinct (map fst (pending_of wid n s))"
    using ok distinct_map_filter by (auto simp: sup_ok_def pending_of_def)
  have "\<forall>(r, q) \<in> set (pending_of wid n s). \<not> has_key r (s_answers s1)"
    using ok p(2) by (auto simp: sup_ok_def pending_of_def)
  note f = fold_answers [OF d this t]
  have "x \<notin> set (filter (\<lambda>(r, p). r \<notin> fst ` set (pending_of wid n s)) (s_pending s))"
    if "x \<in> set (pending_of wid n s)" for x using that by (force simp: case_prod_beta)
  then have "pending_of wid n t = []"
    using f p(1) by (auto simp: pending_of_def filter_empty_conv)
  moreover have "s_live t = s_live s" using f p(3) by (metis Pair_inject sup.select_convs(4) fold_answer_live t)
  moreover have "t = s1\<lparr>s_pending := s_pending t, s_answers := s_answers t\<rparr>" using f by blast
  then have "s_stop_requests t = s_stop_requests s1" "s_tasks t = s_tasks s1" "s_closed t = s_closed s1" "s_db t = s_db s1"
    by (metis sup.ext_inject sup.surjective sup.update_convs(6) sup.update_convs(7))+
  ultimately show ?thesis using f p by (auto simp: released_def list_all_iff pending_of_def)
qed

lemma complete_succeeds:
  assumes ok: "sup_ok c s" and w: "find_worker wid (s_db s) = Some w" "w_attempt w = n"
    and live: "map_of (s_live s) wid = Some n" and ask: "w_state w = RequiresAction \<longrightarrow> pending_of wid n s \<noteq> []"
  shows "\<exists>t v. complete_live_attempt c wid n s = (t, Inr ()) \<and> sup_ok c t \<and> find_worker wid (s_db t) = Some v
     \<and> let_go w v \<and> released wid n s t \<and> s_stop_requests t = s_stop_requests s"
proof -
  have ok': "sup_ok c (fst (complete_live_attempt c wid n s))"
    using sup_inv.keeps_complete [of c wid n] ok by (simp add: keeps_def sup_ok_kept_def)
  show ?thesis
  proof (cases "pending_of wid n s = []")
    case True
    then have e: "complete_live_attempt c wid n s = (s\<lparr>s_live := assoc_pop wid (s_live s)\<rparr>, Inr ())"
      using live by (simp add: complete_eq)
    moreover have "pending_of wid n (s\<lparr>s_live := assoc_pop wid (s_live s)\<rparr>) = []" using True by (simp add: pending_of_def)
    ultimately show ?thesis using ok' w ask True by (intro exI [of _ "s\<lparr>s_live := assoc_pop wid (s_live s)\<rparr>"] exI [of _ w])
        (simp add: released_def)
  next
    case False
    let ?ps = "pending_of wid n s"
    let ?ids = "\<lambda>i. c_id c (s_draws s + i)"
    have r: "map fst ?ps \<noteq> []" "\<forall>r \<in> set (map fst ?ps). safe_metadata (JStr r)"
      using False pending_safe [OF ok] by simp_all
    have ids: "\<forall>j \<le> length (map fst ?ps). fresh_event (?ids j) (s_db s)" "inj_on ?ids {.. length (map fst ?ps)}"
      using sup_ok_fresh(1) [OF ok] ok by (auto simp: sup_ok_def inj_eq intro!: inj_onI)
    obtain db x v where e: "expire_approval_requests (c_env c) wid n (map fst ?ps) (c_now c (s_draws s)) ?ids (s_db s) = (db, x)"
        "isl x \<longrightarrow> (\<exists>m. projl x = AttemptChangedError m)" "find_worker wid db = Some v" "let_go w v"
    proof (cases "w_state w = RequiresAction")
      case True
      from expire_succeeds [OF ok_store [OF ok] w True r ids] True that show ?thesis by fastforce
    next
      case no: False
      have e: "expire_approval_requests (c_env c) wid n (map fst ?ps) (c_now c (s_draws s)) ?ids (s_db s)
          = (s_db s, Inl attempt_changed)" by (rule expire_refused [OF w(1) _ r]) (simp add: no)
      show ?thesis by (rule that [OF e _ w(1)]) (use no in \<open>simp_all add: attempt_changed_def\<close>)
    qed
    let ?s1 = "s\<lparr>s_db := db, s_draws := s_draws s + Suc (length ?ps)\<rparr>"
    define t where "t = fold (\<lambda>(r, p). answer r (default_decision (pa_request p))) ?ps ?s1"
    have "complete_live_attempt c wid n s = (t\<lparr>s_live := assoc_pop wid (s_live t)\<rparr>, Inr ())"
      unfolding complete_eq e(1) Let_def prod.case t_def using live False e(2) by auto
    moreover have "released wid n s (t\<lparr>s_live := assoc_pop wid (s_live t)\<rparr>) \<and> s_db t = s_db ?s1
        \<and> s_stop_requests t = s_stop_requests s"
      by (rule release_answers [OF ok _ _ _ t_def]) simp_all
    ultimately show ?thesis using ok' e(3,4)
      by (intro exI [of _ "t\<lparr>s_live := assoc_pop wid (s_live t)\<rparr>"] exI [of _ v]) simp
  qed
qed

text \<open>What a handler needs of the row it reads.\<close>

lemma get_worker_again:
  assumes "get_worker wid db = Inr (Some wr)" and "find_worker wid db' = Some v"
    and "w_result_summary v = w_result_summary (wr_row wr)"
  shows "get_worker wid db' = Inr (Some \<lparr>wr_row = v, wr_result_summary = wr_result_summary wr\<rparr>)"
proof -
  have "worker_from_row (wr_row wr) = Inr wr"
    using assms(1) by (auto simp: get_worker_def worker_from_row_def res_simps split: option.splits)
  then have "worker_from_row v = Inr \<lparr>wr_row = v, wr_result_summary = wr_result_summary wr\<rparr>"
    using assms(3) by (cases wr) (auto simp: worker_from_row_def res_simps)
  then show ?thesis using assms(2) by (simp add: get_worker_def)
qed

lemma require_found:
  assumes "get_worker wid db = Inr (Some wr)" and "find_worker wid (s_db t) = Some v"
    and "w_result_summary v = w_result_summary (wr_row wr)"
  shows "require_worker wid t = (t, Inr \<lparr>wr_row = v, wr_result_summary = wr_result_summary wr\<rparr>)"
  using get_worker_again [OF assms]
  by (simp add: require_worker_def act_bind_def reading_def from_res_def ret_def)

lemma logs_released: "released wid n s t \<Longrightarrow> logs c wid tys w t u \<Longrightarrow> released wid n s u"
  using logs_fields [of c wid tys w t u] by (auto simp: released_def pending_of_def)

lemma logs_ok: "logs c wid tys w s t \<Longrightarrow> sup_ok c t" "logs c wid tys w s t \<Longrightarrow> find_worker wid (s_db t) = Some w"
  by (simp_all add: logs_def)

section \<open>Without a result\<close>

text \<open>The state an attempt ends in when its task leaves no result to store.\<close>

definition end_without_result :: "worker_state \<Rightarrow> worker_record \<Rightarrow> worker_state" where
  "end_without_result missing wr =
     (if terminal_state (w_state (wr_row wr)) then w_state (wr_row wr)
      else case wr_result_summary wr of
        None \<Rightarrow> missing
      | Some summary \<Rightarrow> if jget summary ''outcome'' = Some (JStr ''failed'') then Failed else Completed)"

lemma finalize_succeeds:
  assumes ok: "sup_ok c s" and g: "get_worker wid (s_db s) = Inr (Some wr)" "w_attempt (wr_row wr) = n"
    and live: "map_of (s_live s) wid = Some n"
    and ask: "w_state (wr_row wr) = RequiresAction \<longrightarrow> pending_of wid n s \<noteq> []"
    and m: "missing \<in> {Cancelled, Lost}"
    and start: "w_state (wr_row wr) = Starting \<longrightarrow> end_without_result missing wr \<in> {Failed, Cancelled}"
  shows "\<exists>t w. finalize_without_result c wid n missing s = (t, Inr ()) \<and> sup_ok c t \<and> released wid n s t
     \<and> find_worker wid (s_db t) = Some w \<and> w_attempt w = n \<and> w_state w = end_without_result missing wr
     \<and> w_result_summary w = w_result_summary (wr_row wr)
     \<and> (\<not> terminal_state (w_state (wr_row wr)) \<longrightarrow> w_health w = Exited)"
proof -
  obtain t1 v where a: "complete_live_attempt c wid n s = (t1, Inr ())" "sup_ok c t1" "find_worker wid (s_db t1) = Some v"
      "let_go (wr_row wr) v" "released wid n s t1"
    using complete_succeeds [OF ok found_worker [OF g(1)] g(2) live ask] by blast
  have v: "w_result_summary v = w_result_summary (wr_row wr)" "w_attempt v = n" "w_state v \<noteq> RequiresAction"
      "terminal_state (w_state v) \<longleftrightarrow> terminal_state (w_state (wr_row wr))"
    using a(4) g(2) by (auto simp: let_go_def)
  note r1 = require_found [OF g(1) a(3) v(1)]
  define target where "target = end_without_result missing wr"
  show ?thesis
  proof (cases "terminal_state (w_state v)")
    case True
    then have "finalize_without_result c wid n missing s = (t1, Inr ())"
      by (simp add: finalize_without_result_def act_then_def act_bind_def a(1) r1 v ret_def Let_def)
    then show ?thesis using a v True by (auto simp: end_without_result_def let_go_def split: if_splits)
  next
    case False
    obtain t2 v2 tys where h: "(if w_health v \<noteq> Exited then append_event_act c wid ''worker.health_changed'' (health_payload Exited)
        else ret ()) t1 = (t2, Inr ())" "logs c wid tys v2 t1 t2"
        "w_health v2 = Exited \<and> w_state v2 = w_state v \<and> w_attempt v2 = n \<and> w_result_summary v2 = w_result_summary v"
    proof (cases "w_health v = Exited")
      case True
      show ?thesis by (rule that [of t1 "[]" v]) (use True a(2,3) v in \<open>simp_all add: ret_def logs_def\<close>)
    next
      case no: False
      obtain t2 now where "append_event_act c wid ''worker.health_changed'' (health_payload Exited) t1 = (t2, Inr ())"
        "logs c wid [''worker.health_changed''] (v\<lparr>w_last_event_at := Some now, w_health := Exited\<rparr>) t1 t2"
        using health_act [OF a(2,3)] by blast
      with that [of t2 "[''worker.health_changed'']" "v\<lparr>w_last_event_at := Some now, w_health := Exited\<rparr>"] no v
      show ?thesis by simp
    qed
    have "w_result_summary v2 = w_result_summary (wr_row wr)" using h(3) v(1) by simp
    note r2 = require_found [OF g(1) logs_ok(2) [OF h(2)] this]
    have "target \<in> set (transitions (w_state v2))" "target \<noteq> Starting"
      using False h(3) v m start a(4)
      by (cases "w_state v"; auto simp: target_def end_without_result_def let_go_def split: option.splits if_splits)+
    from state_act [OF logs_ok [OF h(2)] this] obtain t3 now where
      e: "append_event_act c wid ''worker.state_changed'' (state_payload target) t2 = (t3, Inr ())"
      "logs c wid [''worker.state_changed''] (moved target now v2) t2 t3" by blast
    have "(case wr_result_summary wr of None \<Rightarrow> missing
          | Some summary \<Rightarrow> if jget summary ''outcome'' = Some (JStr ''failed'') then Failed else Completed) = target"
      using False v(4) by (simp add: target_def end_without_result_def)
    then have "finalize_without_result c wid n missing s = (t3, Inr ())"
      using False h e by (simp add: finalize_without_result_def act_then_def act_bind_def a(1) r1 r2 v Let_def)
    moreover have "released wid n s t3" by (rule logs_released [OF logs_released [OF a(5) h(2)] e(2)])
    ultimately show ?thesis using logs_ok [OF e(2)] h(3) v(1) by (auto simp: target_def)
  qed
qed

section \<open>With a result\<close>

lemma result_act:
  assumes ok: "sup_ok c s" and w: "find_worker wid (s_db s) = Some w" and j: "is_jdict summary" "json_wf summary"
    and f: "validate_result_fields f = Inr ()"
  shows "\<exists>t ev safe now. on_store c 1 (\<lambda>now ids. record_result (c_env c) wid oc summary f now (ids 0)) s = (t, Inr ev)
     \<and> safe_result_summary (c_env c) oc summary = Inr safe \<and> is_jdict safe \<and> json_wf safe
     \<and> logs c wid [''result.received''] (store_result safe f (w\<lparr>w_last_event_at := Some now\<rparr>)) s t"
proof -
  let ?now = "c_now c (s_draws s)" and ?id = "c_id c (s_draws s)"
  obtain db ev safe where r: "record_result (c_env c) wid oc summary f ?now ?id (s_db s) = (db, Inr ev)"
      "safe_result_summary (c_env c) oc summary = Inr safe" "is_jdict safe" "json_wf safe"
      "find_worker wid db = Some (store_result safe f (w\<lparr>w_last_event_at := Some ?now\<rparr>))"
      "map er_type (events_of wid db) = map er_type (events_of wid (s_db s)) @ [''result.received'']"
    using record_result_succeeds [OF ok_store [OF ok] w ok_next [OF ok] j f] by blast
  have "store_call (c_env c) 1 (\<lambda>i. c_id c (s_draws s + i)) (s_db s) (fst (db, Inr ev :: event_record res))"
    unfolding r(1) [symmetric]
    using store_calls'(7) [OF j(2), of "c_env c" "\<lambda>i. c_id c (s_draws s + i)" "s_db s" wid oc f ?now] by simp
  then have "sup_ok c (s\<lparr>s_db := db, s_draws := s_draws s + 1\<rparr>)" by (intro sup_ok_store [OF ok]) simp
  then have "logs c wid [''result.received''] (store_result safe f (w\<lparr>w_last_event_at := Some ?now\<rparr>)) s
      (s\<lparr>s_db := db, s_draws := s_draws s + 1\<rparr>)" using r by (simp add: logs_def)
  moreover have "on_store c 1 (\<lambda>now ids. record_result (c_env c) wid oc summary f now (ids 0)) s
      = (s\<lparr>s_db := db, s_draws := s_draws s + 1\<rparr>, Inr ev)" using r(1) by (simp add: on_store_def)
  ultimately show ?thesis using r by blast
qed

text \<open>The result as it is stored: with the warnings the worker already had before its own.\<close>

definition merged_result :: "worker_row \<Rightarrow> run_result \<Rightarrow> run_result" where
  "merged_result w r = with_warnings (dedup (w_warnings w @ r_warnings (base_result r))) r"

lemma with_warnings_fields [simp]:
  "r_warnings (base_result (with_warnings ws r)) = ws" "r_outcome (base_result (with_warnings ws r)) = r_outcome (base_result r)"
  by (cases r; simp add: worker_result.defs)+

lemma summary_outcome:
  assumes "safe_result_summary env oc v = Inr safe" and "is_jdict safe" and "json_wf safe"
    and "w_result_summary w = Some (json_text True True safe)" and "find_worker wid db = Some w"
  shows "get_worker wid db = Inr (Some \<lparr>wr_row = w, wr_result_summary = Some (sort_keys safe)\<rparr>)
     \<and> jget (sort_keys safe) ''outcome'' = Some (JStr (outcome_name oc))"
proof -
  obtain d where "safe = JDict (assoc_put ''outcome'' (JStr (outcome_name oc)) d)"
    using assms(1) by (rule summary_cases)
  then have "jget safe ''outcome'' = Some (JStr (outcome_name oc))" by simp
  moreover have "is_jdict (sort_keys safe)" using assms(2) by (cases safe) simp_all
  ultimately show ?thesis
    using assms(3-5) by (simp add: jget_sort_keys get_worker_def worker_from_row_def load_json_object_def
        json_roundtrip_sorted)
qed

lemma persist_succeeds:
  assumes ok: "sup_ok c s" and w: "find_worker wid (s_db s) = Some w" "w_attempt w = n"
    and live: "map_of (s_live s) wid = Some n" and ask: "w_state w = RequiresAction \<longrightarrow> pending_of wid n s \<noteq> []"
    and valid: "validate_result_fields (result_fields_of (base_result (merged_result w r))) = Inr ()"
    and fin: "fin = final_state ((wid, n) \<in> set (s_stop_requests s)) preceded (r_outcome (base_result r))"
    and st: "\<not> terminal_state (w_state w)" "w_state w = Starting \<longrightarrow> fin \<noteq> Completed"
  shows "\<exists>t v summary tys. persist_accepted_result c wid n r inited preceded s = (t, Inr ()) \<and> sup_ok c t
     \<and> released wid n s t \<and> s_stop_requests t = filter (\<lambda>k. k \<noteq> (wid, n)) (s_stop_requests s)
     \<and> get_worker wid (s_db t) = Inr (Some \<lparr>wr_row = v, wr_result_summary = Some summary\<rparr>)
     \<and> jget summary ''outcome'' = Some (JStr (outcome_name (r_outcome (base_result r))))
     \<and> w_attempt v = n \<and> w_state v = fin \<and> w_health v = (if inited then Exited else w_health w)
     \<and> w_warnings v = dedup (w_warnings w @ r_warnings (base_result r))
     \<and> map er_type (events_of wid (s_db t)) = map er_type (events_of wid (s_db s)) @ tys
          @ [''result.received'']
          @ map (\<lambda>_. ''worker.warning'') (filter (\<lambda>x. x \<notin> set (w_warnings w)) (r_warnings (base_result r)))
          @ (if inited then [''worker.health_changed''] else []) @ [''worker.state_changed'']"
proof -
  let ?oc = "r_outcome (base_result r)" and ?m = "merged_result w r"
  let ?new = "filter (\<lambda>x. x \<notin> set (w_warnings w)) (r_warnings (base_result r))"
  obtain t1 v where a: "complete_live_attempt c wid n s = (t1, Inr ())" "sup_ok c t1" "find_worker wid (s_db t1) = Some v"
      "let_go w v" "released wid n s t1" "s_stop_requests t1 = s_stop_requests s"
    using complete_succeeds [OF ok w live ask] by blast
  obtain tys where tys: "map er_type (events_of wid (s_db t1)) = map er_type (events_of wid (s_db s)) @ tys"
  proof -
    have "(store_step (c_env c))\<^sup>*\<^sup>* (s_db s) (s_db t1)"
      using sup_db.keeps_complete [of c wid n] a(1) by (auto simp: keeps_def db_steps_def dest: spec [of _ s])
    then show ?thesis using event_log.steps_grow [OF _ ok_store [OF ok], of "s_db t1" wid] that
      by (auto simp: prefix_def)
  qed
  obtain sm where b: "require_worker wid t1 = (t1, Inr \<lparr>wr_row = v, wr_result_summary = sm\<rparr>)"
    using worker_found [OF ok_store [OF a(2)] a(3)]
    by (auto simp: require_worker_def act_bind_def reading_def from_res_def ret_def)
  have v: "w_warnings v = w_warnings w" "w_attempt v = n" "w_health v = w_health w" "w_state v \<in> {Starting, Running}"
      "w_state v = Starting \<longrightarrow> fin \<noteq> Completed"
    using a(4) w(2) st by (cases "w_state w"; simp add: let_go_def)+
  obtain t2 ev safe now where d: "on_store c 1 (\<lambda>now ids. record_result (c_env c) wid ?oc (result_json ?m)
        (result_fields_of (base_result ?m)) now (ids 0)) t1 = (t2, Inr ev)"
      "safe_result_summary (c_env c) ?oc (result_json ?m) = Inr safe" "is_jdict safe" "json_wf safe"
      "logs c wid [''result.received''] (store_result safe (result_fields_of (base_result ?m))
         (v\<lparr>w_last_event_at := Some now\<rparr>)) t1 t2"
    using result_act [OF a(2,3) result_json_wf(2,1) valid] by blast
  define v2 where "v2 = store_result safe (result_fields_of (base_result ?m)) (v\<lparr>w_last_event_at := Some now\<rparr>)"
  have v2: "w_warnings v2 = dedup (w_warnings w @ r_warnings (base_result r))" "w_attempt v2 = n"
      "w_state v2 = w_state v" "w_health v2 = w_health w" "w_result_summary v2 = Some (json_text True True safe)"
    using v by (simp_all add: v2_def store_result_def result_fields_of_def merged_result_def)
  have "\<forall>x \<in> set ?new. safe_metadata_text x"
    using valid by (auto simp: validate_result_fields_def Let_def result_fields_of_def merged_result_def
        list_all_iff safe_metadata_def require_def split: if_splits)
  then obtain t3 l where e: "for_each (\<lambda>x. append_event_act c wid ''worker.warning'' (warning_payload x)) ?new t2 = (t3, Inr ())"
      "logs c wid (map (\<lambda>_. ''worker.warning'') ?new) (v2\<lparr>w_last_event_at := l\<rparr>) t2 t3"
    using known_warnings_act [OF logs_ok [OF d(5) [folded v2_def]], of ?new] v2(1) by auto
  obtain t4 v4 where g: "(if inited then append_event_act c wid ''worker.health_changed'' (health_payload Exited) else ret ()) t3
        = (t4, Inr ())" "logs c wid (if inited then [''worker.health_changed''] else []) v4 t3 t4"
      "w_health v4 = (if inited then Exited else w_health w) \<and> w_state v4 = w_state v \<and> w_attempt v4 = n
       \<and> w_warnings v4 = w_warnings v2 \<and> w_result_summary v4 = w_result_summary v2"
  proof (cases inited)
    case True
    obtain t4 now' where "append_event_act c wid ''worker.health_changed'' (health_payload Exited) t3 = (t4, Inr ())"
      "logs c wid [''worker.health_changed'']
        (v2\<lparr>w_last_event_at := l\<rparr>\<lparr>w_last_event_at := Some now', w_health := Exited\<rparr>) t3 t4"
      using health_act [OF logs_ok [OF e(2)]] by blast
    with that True v2 show ?thesis by simp
  next
    case False
    show ?thesis by (rule that [of t3 "v2\<lparr>w_last_event_at := l\<rparr>"])
        (use False v2 e(2) in \<open>simp_all add: ret_def logs_def\<close>)
  qed
  have "fin \<in> {Cancelled, Failed, Completed}" using fin by (simp add: final_state_def)
  then have tr: "fin \<in> set (transitions (w_state v4))" "fin \<noteq> Starting" using v(4,5) g(3) by auto
  obtain t5 now' where h: "append_event_act c wid ''worker.state_changed'' (state_payload fin) t4 = (t5, Inr ())"
      "logs c wid [''worker.state_changed''] (moved fin now' v4) t4 t5"
    using state_act [OF logs_ok [OF g(2)] tr] by blast
  let ?t = "t5\<lparr>s_stop_requests := filter (\<lambda>k. k \<noteq> (wid, n)) (s_stop_requests t5)\<rparr>"
  note all = logs_trans [OF d(5) [folded v2_def] logs_trans [OF e(2) logs_trans [OF g(2) h(2)]]]
  have stops: "s_stop_requests t4 = s_stop_requests s" "s_stop_requests t5 = s_stop_requests s"
    "s_stop_requests t3 = s_stop_requests s"
    using logs_fields [OF d(5)] logs_fields [OF e(2)] logs_fields [OF g(2)] logs_fields [OF h(2)] a(6) by simp_all
  have "persist_accepted_result c wid n r inited preceded s = (?t, Inr ())"
    unfolding persist_accepted_result_def act_then_def act_bind_def a(1) b prod.case sum.case Let_def worker_record.select_convs
      v(1) with_warnings_fields
    using d(1) [unfolded merged_result_def] e(1) g(1) h(1) stops fin
    by (simp add: act_then_def act_bind_def reading_def discard_stop_def modify_def)
  moreover have "released wid n s ?t" using logs_released [OF a(5) all] by (simp add: released_def pending_of_def)
  moreover have "sup_ok c ?t" using logs_ok(1) [OF all] by (simp add: sup_ok_def undrawn_def)
  moreover have "get_worker wid (s_db ?t) = Inr (Some \<lparr>wr_row = moved fin now' v4, wr_result_summary = Some (sort_keys safe)\<rparr>)
      \<and> jget (sort_keys safe) ''outcome'' = Some (JStr (outcome_name ?oc))"
    using summary_outcome [OF d(2-4), of "moved fin now' v4" wid "s_db ?t"] g(3) v2(5) logs_ok(2) [OF h(2)] by simp
  moreover have "map er_type (events_of wid (s_db t5)) = map er_type (events_of wid (s_db s)) @ tys
      @ [''result.received''] @ map (\<lambda>_. ''worker.warning'') ?new
      @ (if inited then [''worker.health_changed''] else []) @ [''worker.state_changed'']"
    using all tys by (simp add: logs_def)
  ultimately show ?thesis using g(3) v2 stops
    by (intro exI [of _ ?t] exI [of _ "moved fin now' v4"] exI [of _ "sort_keys safe"] exI [of _ tys]) simp
qed

end
