(* ===== verification/Run_Properties.thy ===== *)
theory Run_Properties
  imports Run_End
begin

text \<open>
  What the supervisor promises about the attempts it runs: every run that was initialized ends, in
  the state its outcome calls for; steering reaches a live attempt only. And the histories in which
  the code does not keep the first promise.
\<close>

section \<open>The end of a run\<close>

text \<open>The result a run leaves to be stored.\<close>

definition run_leaves :: "worker_contract \<Rightarrow> run_result res \<Rightarrow> run_result option" where
  "run_leaves wc outcome =
     (case outcome of
        Inl e \<Rightarrow> if e = CancelledError \<or> lost_transport e then None else Some (execution_failure wc)
      | Inr r \<Rightarrow> if ''result_missing'' \<in> set (r_errors (base_result r)) then None else Some r)"

definition run_end_state :: "worker_id \<Rightarrow> nat \<Rightarrow> worker_contract \<Rightarrow> bool \<Rightarrow> run_result res \<Rightarrow> sup \<Rightarrow> worker_state" where
  "run_end_state wid n wc preceded outcome s =
     (case run_leaves wc outcome of
        None \<Rightarrow> missing_state wid n s
      | Some r \<Rightarrow> final_state ((wid, n) \<in> set (s_stop_requests s)) preceded (r_outcome (base_result r)))"

lemma run_end_terminal: "terminal_state (run_end_state wid n wc preceded outcome s)"
  by (simp add: run_end_state_def missing_state_def final_state_def split: option.split)

lemma finish_run_cases:
  "finish_run c wid n wc inited preceded outcome =
     (case run_leaves wc outcome of
        Some r \<Rightarrow> persist_accepted_result c wid n r inited preceded
      | None \<Rightarrow> if outcome = Inl CancelledError then act_then (finalize_missing c wid n) (raise_exn CancelledError)
          else finalize_missing c wid n)"
  by (simp add: finish_run_def run_leaves_def split: sum.split)


lemma sample_running_row: "find_worker ''w'' sample_running = Some (moved Running 11 sample_row)"
proof -
  have "Running \<in> set (transitions (w_state sample_row))" by (simp add: sample_row_def new_row_def)
  from append_state [OF reachable_ok [OF sample_reachable] _ _ this, of "''w''" "''e2''" 11] sample_created
  obtain db' ev where "append_event no_env ''w'' ''worker.state_changed'' (state_payload Running) 11 ''e2'' sample_db
      = (db', Inr ev)" "find_worker ''w'' db' = Some (moved Running 11 sample_row)"
    by (auto simp: logged_def advanced_def)
  then show ?thesis by (simp add: sample_running_def)
qed

lemma sample_running_read:
  "get_worker ''w'' (s_db sample_live) = Inr (Some \<lparr>wr_row = moved Running 11 sample_row, wr_result_summary = None\<rparr>)"
  using sample_running_row
  by (simp add: get_worker_def worker_from_row_def load_json_object_def) (simp add: sample_row_def new_row_def)

definition sample_done :: run_result where
  "sample_done = CoderRun \<lparr>r_outcome = OutCompleted, r_summary = ''Go?'', r_files = [], r_validation = [],
     r_risks = [], r_requested_model = ''w'', r_resolved_model = Some ''w'', r_actual_models = [''w''],
     r_session_id = Some ''w'', r_nested_state = NestedNone, r_warnings = [''w''], r_errors = []\<rparr>"

lemma sample_done_valid:
  "validate_result_fields (result_fields_of (base_result (merged_result (moved Running 11 sample_row) sample_done))) = Inr ()"
  using sample_metadata(1)
  by (simp add: merged_result_def sample_done_def sample_row_def new_row_def validate_result_fields_def Let_def
      result_fields_of_def require_def dedup_def add_once_def)


section \<open>Steering\<close>

lemma live_attempt_eq:
  assumes "sup_ok c s" and "find_worker wid (s_db s) = Some w"
  shows "require_live_attempt wid s =
     (s, if s_closed s then Inl supervisor_closed
         else if map_of (s_live s) wid = Some (w_attempt w) \<and> w_state w \<in> {Running, RequiresAction} then Inr (w_attempt w)
         else Inl (sup_error ''worker_not_live'' ''Worker has no live attempt.''))"
proof -
  obtain sm where "get_worker wid (s_db s) = Inr (Some \<lparr>wr_row = w, wr_result_summary = sm\<rparr>)"
    using worker_found [OF ok_store [OF assms(1)] assms(2)] by blast
  then show ?thesis
    by (auto simp: require_live_attempt_def act_bind_def act_then_def reading_def guard_act_def ret_def raise_exn_def
        require_worker_def from_res_def split: option.split)
qed

text \<open>C23: A steering message is accepted exactly for a worker that runs (or waits for action) on the transport of
  its current attempt, on an open supervisor, when it is not empty, has a known priority and names no nested
  agent. Then its event, with the identifier the transport is given, is stored before anything is sent;
  otherwise nothing is stored and nothing is sent.\<close>

theorem steering_recorded_first:
  assumes "sup_ok c s" and "find_worker wid (s_db s) = Some w" and "safe_metadata_text (c_uuid c (s_draws s))"
  shows "if message \<noteq> [] \<and> priority \<in> set steering_priorities \<and> agent = None \<and> \<not> s_closed s
       \<and> map_of (s_live s) wid = Some (w_attempt w) \<and> w_state w \<in> {Running, RequiresAction}
     then \<exists>t ev. steer_begin c wid message priority agent s = (t, Inr (c_uuid c (s_draws s)))
       \<and> events_since wid (int (latest_event_cursor wid (s_db s))) (s_db t) = Inr [ev] \<and> e_type ev = ''steer.queued''
       \<and> jget (e_payload ev) ''message_id'' = Some (JStr (c_uuid c (s_draws s)))
       \<and> jget (e_payload ev) ''priority'' = Some (JStr priority) \<and> e_attempt ev = w_attempt w
     else \<exists>e. steer_begin c wid message priority agent s = (s, Inl e)"
proof (cases "message \<noteq> [] \<and> priority \<in> set steering_priorities \<and> agent = None \<and> \<not> s_closed s
       \<and> map_of (s_live s) wid = Some (w_attempt w) \<and> w_state w \<in> {Running, RequiresAction}")
  case False
  then show ?thesis
    using live_attempt_eq [OF assms(1,2)]
    by (auto simp: steer_begin_def act_then_def act_bind_def guard_act_def ret_def raise_exn_def)
next
  case True
  let ?id = "c_uuid c (s_draws s)"
  let ?p = "JDict [(''schema_version'', JInt 1), (''message_id'', JStr ?id), (''priority'', JStr priority)]"
  have wf: "json_wf ?p" by simp
  have pr: "priority \<in> set [''now'', ''next'', ''later'']" using True by (simp add: steering_priorities_def)
  have v: "validated_payload (c_env c) ''steer.queued'' ?p = Inr (sort_keys ?p)"
    using assms(3) pr by (simp only: validated_payload_iff [OF wf])
      (simp add: event_schemas_def schema_def conforms_def one_of_def invalid_field_def safe_metadata_def)
  have ty: "''steer.queued'' \<notin> set projecting" by (simp add: projecting_def)
  obtain db ev where a: "append_event (c_env c) wid ''steer.queued'' ?p (c_now c (s_draws s)) (c_id c (s_draws s)) (s_db s)
      = (db, Inr ev)" "logged (c_env c) wid w ''steer.queued'' (sort_keys ?p) (c_now c (s_draws s)) (c_id c (s_draws s))
        (s_db s) db ev (w\<lparr>w_last_event_at := Some (c_now c (s_draws s))\<rparr>)"
    using append_plain [OF ok_store [OF assms(1)] assms(2) ok_next [OF assms(1)] v wf ty] by blast
  have "steer_begin c wid message priority agent s = (s\<lparr>s_db := db, s_draws := s_draws s + 1\<rparr>, Inr ?id)"
    using True a(1) live_attempt_eq [OF assms(1,2)]
    by (simp add: steer_begin_def act_then_def act_bind_def guard_act_def ret_def reading_def append_event_act_def
        sup_append_def on_store_def)
  moreover have "jget (sort_keys ?p) ''message_id'' = Some (JStr ?id)" "jget (sort_keys ?p) ''priority'' = Some (JStr priority)"
    by (simp_all add: jget_sort_keys [OF wf])
  ultimately show ?thesis
    using logged_find [OF ok_store [OF assms(1)] a(2)] True
    by (subst if_P, blast, intro exI [of _ "s\<lparr>s_db := db, s_draws := s_draws s + 1\<rparr>"] exI [of _ ev]) simp
qed

theorem steering_recorded_first_witness:
  "\<exists>t. steer_begin sample_conf ''w'' ''Go?'' ''now'' None sample_live = (t, Inr ''u'')
     \<and> (\<exists>e. steer_begin sample_conf ''w'' [] ''now'' None sample_live = (sample_live, Inl e))"
proof -
  have w: "find_worker ''w'' (s_db sample_live) = Some (moved Running 11 sample_row)"
    using sample_running_row by simp
  have u: "safe_metadata_text (c_uuid sample_conf (s_draws sample_live))" using sample_prompt(3) by simp
  have att: "w_attempt sample_row = 1" by (simp add: sample_row_def new_row_def)
  note st = steering_recorded_first [OF sample_live_ok w u]
  show ?thesis
    using st [of "''Go?''" "''now''" None] st [of "[]" "''now''" None] att by (auto simp: steering_priorities_def)
qed

section \<open>Attempts that do not end\<close>

text \<open>Histories that the hypotheses of \<open>run_always_ends\<close> exclude, and what the code does in them.\<close>

lemma state_act_refused:
  assumes "sup_ok c s" and "find_worker wid (s_db s) = Some w" and "st \<notin> set (transitions (w_state w))" "st \<noteq> Starting"
  shows "\<exists>m t. append_event_act c wid ''worker.state_changed'' (state_payload st) s = (t, Inl (ValueError m))
     \<and> s_db t = s_db s"
proof -
  have pos: "0 < w_attempt w" using store_okD [OF ok_store [OF assms(1)] assms(2)] by (simp add: view_ok_def)
  obtain p where "validated_payload (c_env c) ''worker.state_changed'' (state_payload st) = Inr p"
    using state_payload_valid [of "c_env c" st] by auto
  then obtain d ev where "append_row (c_env c) wid (w_attempt w) ''worker.state_changed'' (state_payload st)
      (c_now c (s_draws s)) (c_id c (s_draws s)) (s_db s) = Inr (d, ev)"
    using append_row_total [OF _ _ pos ok_next [OF assms(1)]] assms(2) event_log.numbered [OF ok_store [OF assms(1)]]
    by blast
  from append_state_refused [OF assms(2-4) this] show ?thesis
    by (auto simp: append_event_act_def sup_append_def act_bind_def on_store_def)
qed

text \<open>A worker that loses its connection before it was initialized cannot become lost: the table has no such
  edge, the event is refused, and the worker stays in \<open>starting\<close> with its health at \<open>exited\<close>.\<close>

lemma lost_before_initialized_raises:
  assumes ok: "sup_ok c s" and g: "get_worker wid (s_db s) = Inr (Some \<lparr>wr_row = w, wr_result_summary = None\<rparr>)"
    and w: "w_attempt w = n" "w_state w = Starting" and live: "map_of (s_live s) wid = Some n"
    and stop: "(wid, n) \<notin> set (s_stop_requests s)"
  shows "\<exists>t m v. finish_run c wid n wc False preceded (Inl (EOFError e)) s = (t, Inl (ValueError m))
     \<and> find_worker wid (s_db t) = Some v \<and> w_state v = Starting \<and> w_health v = Exited"
proof -
  have f: "find_worker wid (s_db s) = Some w" using found_worker [OF g] by simp
  obtain t1 v where a: "complete_live_attempt c wid n s = (t1, Inr ())" "sup_ok c t1" "find_worker wid (s_db t1) = Some v"
      "let_go w v" using complete_succeeds [OF ok f w(1) live] w(2) by auto
  have v: "w_result_summary v = w_result_summary w" "w_attempt v = n" "w_state v = Starting" "w_health v = w_health w"
    using a(4) w by (simp_all add: let_go_def)
  have r1: "require_worker wid t1 = (t1, Inr \<lparr>wr_row = v, wr_result_summary = None\<rparr>)"
    using require_found [OF g a(3)] v(1) by simp
  obtain t2 v2 where h: "(if w_health v \<noteq> Exited then append_event_act c wid ''worker.health_changed'' (health_payload Exited)
        else ret ()) t1 = (t2, Inr ())" "sup_ok c t2" "find_worker wid (s_db t2) = Some v2"
        "w_health v2 = Exited \<and> w_state v2 = Starting \<and> w_attempt v2 = n \<and> w_result_summary v2 = w_result_summary w"
  proof (cases "w_health v = Exited")
    case True
    then show ?thesis using that [of t1 v] a(2,3) v by (simp add: ret_def)
  next
    case False
    obtain t2 now where "append_event_act c wid ''worker.health_changed'' (health_payload Exited) t1 = (t2, Inr ())"
      "logs c wid [''worker.health_changed''] (v\<lparr>w_last_event_at := Some now, w_health := Exited\<rparr>) t1 t2"
      using health_act [OF a(2,3)] by blast
    then show ?thesis using that [of t2 "v\<lparr>w_last_event_at := Some now, w_health := Exited\<rparr>"] False v
      by (simp add: logs_def)
  qed
  have r2: "require_worker wid t2 = (t2, Inr \<lparr>wr_row = v2, wr_result_summary = None\<rparr>)"
    using require_found [OF g h(3)] h(4) by simp
  obtain m t3 where e: "append_event_act c wid ''worker.state_changed'' (state_payload Lost) t2 = (t3, Inl (ValueError m))"
      "s_db t3 = s_db t2"
    using state_act_refused [OF h(2,3), of Lost] h(4) by auto
  have "finish_run c wid n wc False preceded (Inl (EOFError e)) s = (t3, Inl (ValueError m))"
    using a(1) r1 h(1,4) r2 e(1) v stop
    by (simp add: finish_run_def finalize_missing_def missing_state_def finalize_without_result_def act_then_def
        act_bind_def reading_def Let_def)
  with e(2) h(3,4) show ?thesis by (intro exI [of _ t3] exI [of _ m] exI [of _ v2]) simp
qed

text \<open>A worker that waits for an approval nobody awaits any more (its callback was cancelled) cannot complete: its
  result is stored, the state change is refused, and it stays in \<open>requires_action\<close>.\<close>

lemma abandoned_approval_strands:
  assumes ok: "sup_ok c s" and w: "find_worker wid (s_db s) = Some w" "w_attempt w = n" "w_state w = RequiresAction"
    and live: "map_of (s_live s) wid = Some n" and none: "pending_of wid n s = []"
    and valid: "validate_result_fields (result_fields_of (base_result (merged_result w r))) = Inr ()"
    and r: "r_warnings (base_result r) = []" "r_outcome (base_result r) \<noteq> OutFailed"
    and stop: "(wid, n) \<notin> set (s_stop_requests s)"
  shows "\<exists>t m v. persist_accepted_result c wid n r False preceded s = (t, Inl (ValueError m))
     \<and> find_worker wid (s_db t) = Some v \<and> w_state v = RequiresAction \<and> w_result_summary v \<noteq> None"
proof -
  let ?t1 = "s\<lparr>s_live := assoc_pop wid (s_live s)\<rparr>" and ?m = "merged_result w r"
  have a: "complete_live_attempt c wid n s = (?t1, Inr ())" using live none by (simp add: complete_eq)
  have ok1: "sup_ok c ?t1" "find_worker wid (s_db ?t1) = Some w" using ok w(1) by (simp_all add: sup_ok_def undrawn_def)
  obtain sm where b: "require_worker wid ?t1 = (?t1, Inr \<lparr>wr_row = w, wr_result_summary = sm\<rparr>)"
    using worker_found [OF ok_store [OF ok1(1)] ok1(2)]
    by (auto simp: require_worker_def act_bind_def reading_def from_res_def ret_def)
  obtain t2 ev safe now where d: "on_store c 1 (\<lambda>now ids. record_result (c_env c) wid (r_outcome (base_result r)) (result_json ?m)
        (result_fields_of (base_result ?m)) now (ids 0)) ?t1 = (t2, Inr ev)"
      "logs c wid [''result.received''] (store_result safe (result_fields_of (base_result ?m))
         (w\<lparr>w_last_event_at := Some now\<rparr>)) ?t1 t2"
    using result_act [OF ok1 result_json_wf(2,1) valid] by blast
  have stops: "s_stop_requests t2 = s_stop_requests s" using logs_fields [OF d(2)] by simp
  have fin: "final_state ((wid, n) \<in> set (s_stop_requests t2)) preceded (r_outcome (base_result r)) = Completed"
    using stop r(2) stops by (simp add: final_state_def)
  obtain m t3 where e: "append_event_act c wid ''worker.state_changed'' (state_payload Completed) t2 = (t3, Inl (ValueError m))"
      "s_db t3 = s_db t2"
    using state_act_refused [OF logs_ok [OF d(2)], of Completed] w(3) by (auto simp: store_result_def)
  have "persist_accepted_result c wid n r False preceded s = (t3, Inl (ValueError m))"
    unfolding persist_accepted_result_def act_then_def act_bind_def a b prod.case sum.case Let_def worker_record.select_convs
      with_warnings_fields
    using d(1) [unfolded merged_result_def] e(1) fin r(1)
    by (simp add: act_then_def act_bind_def reading_def ret_def)
  moreover have "find_worker wid (s_db t3) = Some (store_result safe (result_fields_of (base_result ?m))
         (w\<lparr>w_last_event_at := Some now\<rparr>))" using logs_ok(2) [OF d(2)] e(2) by simp
  ultimately show ?thesis using w(3)
    by (intro exI [of _ t3] exI [of _ m] exI [of _ "store_result safe (result_fields_of (base_result ?m))
         (w\<lparr>w_last_event_at := Some now\<rparr>)"]) (simp add: store_result_def)
qed

text \<open>A result whose metadata the store refuses (a model name with a space, say) leaves a running worker: the
  transport is given up, the error is raised, and nothing ends the attempt.\<close>

lemma unsafe_metadata_strands:
  assumes ok: "sup_ok c s" and w: "find_worker wid (s_db s) = Some w" "w_attempt w = n" "w_state w = Running"
    and live: "map_of (s_live s) wid = Some n"
    and bad: "validate_result_fields (result_fields_of (base_result (merged_result w r))) = Inl e"
  shows "\<exists>t v. persist_accepted_result c wid n r inited preceded s = (t, Inl e) \<and> map_of (s_live t) wid = None
     \<and> find_worker wid (s_db t) = Some v \<and> w_state v = Running"
proof -
  obtain t1 v where a: "complete_live_attempt c wid n s = (t1, Inr ())" "sup_ok c t1" "find_worker wid (s_db t1) = Some v"
      "let_go w v" "released wid n s t1"
    using complete_succeeds [OF ok w(1,2) live] w(3) by auto
  obtain sm where b: "require_worker wid t1 = (t1, Inr \<lparr>wr_row = v, wr_result_summary = sm\<rparr>)"
    using worker_found [OF ok_store [OF a(2)] a(3)]
    by (auto simp: require_worker_def act_bind_def reading_def from_res_def ret_def)
  have v: "w_warnings v = w_warnings w" "w_state v = Running" using a(4) w(3) by (simp_all add: let_go_def)
  let ?m = "merged_result w r"
  obtain safe where s: "safe_result_summary (c_env c) (r_outcome (base_result r)) (result_json ?m) = Inr safe"
    using summary_total [OF result_json_wf(2) wf_acceptable [OF result_json_wf(1)]] by blast
  have d: "on_store c 1 (\<lambda>now ids. record_result (c_env c) wid (r_outcome (base_result r)) (result_json ?m)
        (result_fields_of (base_result ?m)) now (ids 0)) t1 = (t1\<lparr>s_draws := s_draws t1 + 1\<rparr>, Inl e)"
    using s bad by (simp add: on_store_def record_result_def)
  have "persist_accepted_result c wid n r inited preceded s = (t1\<lparr>s_draws := s_draws t1 + 1\<rparr>, Inl e)"
    unfolding persist_accepted_result_def act_then_def act_bind_def a(1) b prod.case sum.case Let_def worker_record.select_convs
      v(1) with_warnings_fields
    using d [unfolded merged_result_def] by simp
  then show ?thesis using a(3,5) v(2) by (simp add: released_def)
qed

end
