(* ===== verification/Rpc_Supervisor.thy ===== *)
theory Rpc_Supervisor
  imports Rpc_Properties Watch Run_Properties
begin

text \<open>
  The RPC seam over the supervisor of this development. A handler that awaits is composed with what
  it awaited: the answers of the transports, what other handlers did while a stop waited, and what
  they did between the rounds of a watch, are arguments. What holds of every peer: whatever bytes it
  sends, the supervisor only takes its own steps.
\<close>

section \<open>The served supervisor\<close>

record awaited =
  aw_steer :: "string \<Rightarrow> unit res"
  aw_cancel :: "string \<Rightarrow> bool res"
  aw_stop :: "worker_id \<Rightarrow> nat \<Rightarrow> sup \<Rightarrow> sup"
  aw_turns :: "(sup \<Rightarrow> sup) list"

definition spawn_call :: "sup_conf \<Rightarrow> worker_contract \<Rightarrow> (string \<times> json) list act" where
  "spawn_call c wc = act_bind (spawn_admission c wc) (\<lambda>(wc, v). spawn_accept c wc v)"

definition resume_call :: "sup_conf \<Rightarrow> worker_id \<Rightarrow> (string \<times> json) list act" where
  "resume_call c wid = act_bind (resume c wid) (\<lambda>(response, _). ret response)"

definition steer_call ::
    "sup_conf \<Rightarrow> awaited \<Rightarrow> worker_id \<Rightarrow> string \<Rightarrow> string \<Rightarrow> string option \<Rightarrow> (string \<times> json) list act" where
  "steer_call c aw wid message priority agent_id =
     act_bind (steer_begin c wid message priority agent_id) (\<lambda>mid. steer_end c wid mid priority (aw_steer aw mid))"

definition cancel_call :: "sup_conf \<Rightarrow> awaited \<Rightarrow> worker_id \<Rightarrow> string \<Rightarrow> (string \<times> json) list act" where
  "cancel_call c aw wid mid = act_bind (cancel_begin wid mid) (\<lambda>_. cancel_end c wid mid (aw_cancel aw mid))"

definition stop_call ::
    "sup_conf \<Rightarrow> awaited \<Rightarrow> worker_id \<Rightarrow> bool \<Rightarrow> string option \<Rightarrow> (string \<times> json) list act" where
  "stop_call c aw wid force agent_id =
     act_bind (stop_begin c wid force agent_id) (\<lambda>started.
     case started of
       StopAnswered response \<Rightarrow> ret response
     | StopRequested n \<Rightarrow>
         act_then (modify (aw_stop aw wid n)) (act_then (stop_attempt_end c wid n) (stop_response c wid force)))"

definition live_call :: "sup_conf \<Rightarrow> awaited \<Rightarrow> rpc_call \<Rightarrow> json act" where
  "live_call c aw call =
     (case call of
        CallSpawn wc \<Rightarrow> act_bind (spawn_call c wc) (\<lambda>d. ret (JDict d))
      | CallList \<Rightarrow> sup_list_workers c
      | CallStatus wid \<Rightarrow> act_bind (status c wid) (\<lambda>d. ret (JDict d))
      | CallResult wid \<Rightarrow> act_bind (sup_result wid) (\<lambda>r. ret (case r of None \<Rightarrow> JNull | Some v \<Rightarrow> v))
      | CallResume wid \<Rightarrow> act_bind (resume_call c wid) (\<lambda>d. ret (JDict d))
      | CallSteer wid message priority agent_id \<Rightarrow>
          act_bind (steer_call c aw wid message priority agent_id) (\<lambda>d. ret (JDict d))
      | CallCancelMessage wid mid \<Rightarrow> act_bind (cancel_call c aw wid mid) (\<lambda>d. ret (JDict d))
      | CallStop wid force agent_id \<Rightarrow> act_bind (stop_call c aw wid force agent_id) (\<lambda>d. ret (JDict d))
      | CallRespond wid rid response \<Rightarrow> act_bind (respond c wid rid response) (\<lambda>d. ret (JDict d)))"

text \<open>A watch that is still suspended after the last turn is cancelled with its connection.\<close>

definition live_watch ::
    "sup_conf \<Rightarrow> awaited \<Rightarrow> worker_id \<Rightarrow> int \<Rightarrow> bool \<Rightarrow> sup \<Rightarrow> sup \<times> json list \<times> unit res" where
  "live_watch c aw wid since follow s =
     (let (t, evs, ended) = watch_generator wid since follow (aw_turns aw) s
      in (t, map (event_json c) evs, (case ended of None \<Rightarrow> Inl CancelledError | Some r \<Rightarrow> r)))"

definition live_served :: "sup_conf \<Rightarrow> awaited \<Rightarrow> sup served" where
  "live_served c aw = \<lparr>sv_call = live_call c aw, sv_watch = live_watch c aw\<rparr>"

section \<open>Whatever a peer sends\<close>

text \<open>What every call of a served object keeps, a connection keeps.\<close>

locale served_relation =
  fixes sv :: "'s served" and rel :: "'s \<Rightarrow> 's \<Rightarrow> bool"
  assumes refl: "rel s s"
    and trans: "rel s t \<Longrightarrow> rel t u \<Longrightarrow> rel s u"
    and call_kept: "rel s (fst (sv_call sv call s))"
    and watch_kept: "rel s (fst (sv_watch sv wid since follow s))"
begin

lemma dispatch_kept: "rel s (fst (dispatch sv method params s))"
  by (simp add: dispatch_def refl call_kept split: sum.split)

lemma watch_frames_kept: "rel s (fst (watch_frames sv rid wid since follow s))"
proof -
  obtain s1 evs ended where w: "sv_watch sv wid since follow s = (s1, evs, ended)" by (metis prod_cases3)
  obtain s2 st where c: "sv_call sv (CallStatus wid) s1 = (s2, st)" by force
  have "rel s s1" using watch_kept [of s wid since follow] w by simp
  moreover from this have "rel s s2" using call_kept [of s1 "CallStatus wid"] c by (auto intro: trans)
  ultimately show ?thesis by (simp add: watch_frames_def w c refl split_beta split: sum.split)
qed

lemma stream_watch_kept: "rel s (fst (stream_watch sv rid params s))"
proof (cases "parse_watch params")
  case (Inr p)
  obtain wid since follow where p: "p = (wid, since, follow)" by (cases p)
  obtain s1 r where c: "sv_call sv (CallStatus wid) s = (s1, r)" by force
  have "rel s s1" using call_kept [of s "CallStatus wid"] c by simp
  then have "rel s (fst (watch_frames sv rid wid since follow s1))" by (rule trans) (rule watch_frames_kept)
  then show ?thesis using \<open>rel s s1\<close> by (simp add: stream_watch_def Inr p c split: sum.split)
qed (simp add: stream_watch_def refl)

lemma serve_line_kept: "rel s (fst (serve_line sv line s))"
proof (cases "decode_request line")
  case (Inr rq)
  obtain s1 out r where w: "stream_watch sv (rq_id rq) (rq_params rq) s = (s1, out, r)" by (metis prod_cases3)
  obtain s2 q where d: "dispatch sv (rq_method rq) (rq_params rq) s = (s2, q)" by force
  have "rel s s1" "rel s s2"
    using stream_watch_kept [of s "rq_id rq" "rq_params rq"] dispatch_kept [of s "rq_method rq" "rq_params rq"] w d
    by simp_all
  then show ?thesis by (simp add: serve_line_def Inr w d split_beta split: sum.split)
qed (simp add: serve_line_def refl)

lemma serve_kept: "rel s (fst (serve sv bytes s))"
proof (induction "length bytes" arbitrary: bytes s rule: less_induct)
  case less
  show ?case
  proof (cases "read_frame JNull bytes")
    case (Frame line rest)
    obtain s1 out next' where l: "serve_line sv line s = (s1, out, next')" by (metis prod_cases3)
    have one: "rel s s1" using serve_line_kept [of s line] l by simp
    have "rel s1 (fst (serve sv rest s1))" using less read_frame_shrinks [OF Frame] by blast
    then have "rel s (fst (serve sv rest s1))" using one trans by blast
    with one show ?thesis
      by (subst serve.simps) (simp add: Frame l split_beta split: conn_next.split)
  qed (subst serve.simps, simp add: refl)+
qed

end

section \<open>The supervisor only takes its own steps\<close>

text \<open>What is awaited is itself made of steps.\<close>

definition awaited_steps :: "sup_conf \<Rightarrow> awaited \<Rightarrow> bool" where
  "awaited_steps c aw \<longleftrightarrow> (\<forall>wid n s. (sup_step c)\<^sup>*\<^sup>* s (aw_stop aw wid n s))
     \<and> (\<forall>turn \<in> set (aw_turns aw). \<forall>s. (sup_step c)\<^sup>*\<^sup>* s (turn s))"

definition stepping :: "sup_conf \<Rightarrow> 'a act \<Rightarrow> bool" where
  "stepping c m \<longleftrightarrow> (\<forall>s. (sup_step c)\<^sup>*\<^sup>* s (fst (m s)))"

lemma stepping_bind: "stepping c m \<Longrightarrow> (\<And>x. stepping c (f x)) \<Longrightarrow> stepping c (act_bind m f)"
  unfolding stepping_def act_bind_def by (auto split: prod.split sum.split) (metis fst_conv rtranclp_trans)+

lemma stepping_then: "stepping c m \<Longrightarrow> stepping c n \<Longrightarrow> stepping c (act_then m n)"
  by (simp add: act_then_def stepping_bind)

lemma stepping_still:
  "stepping c (ret x)" "stepping c (raise_exn e)" "stepping c (reading g)" "stepping c (from_res r)"
  "stepping c (guard_act b e)" "stepping c (require_worker wid)"
  by (simp_all add: stepping_def ret_def raise_exn_def reading_def from_res_def guard_act_def require_worker_def act_bind_def
      split: sum.split option.split)

lemma stepping_one: "(\<And>s. sup_step c s (fst (m s))) \<Longrightarrow> stepping c m"
  by (simp add: stepping_def r_into_rtranclp)

lemmas stepping_rules = stepping_bind stepping_then stepping_still

lemma stepping_handlers:
  "stepping c (spawn_accept c wc v)" "stepping c (resume c wid)"
  "stepping c (steer_begin c wid message priority agent)" "stepping c (steer_end c wid mid priority sent)"
  "stepping c (cancel_end c wid mid sent')" "stepping c (respond c wid rid response)"
  "stepping c (stop_begin c wid force agent)" "stepping c (stop_attempt_end c wid n)"
  by (rule stepping_one, rule sup_step.intros)+

lemma status_still: "stepping c (status c wid)"
  by (simp add: status_def stepping_rules)

lemma admission_still: "stepping c (spawn_admission c wc)"
  by (simp add: spawn_admission_def stepping_rules)

lemma live_call_steps:
  assumes "awaited_steps c aw"
  shows "stepping c (live_call c aw call)"
proof -
  have settle: "stepping c (modify (aw_stop aw wid n))" for wid n
    using assms by (simp add: stepping_def modify_def awaited_steps_def)
  have "stepping c (spawn_call c wc)" for wc
    by (simp add: spawn_call_def stepping_bind admission_still stepping_handlers split: prod.split)
  moreover have "stepping c (resume_call c wid)" for wid
    by (simp add: resume_call_def stepping_bind stepping_still stepping_handlers split: prod.split)
  moreover have "stepping c (steer_call c aw wid message priority agent)" for wid message priority agent
    by (simp add: steer_call_def stepping_bind stepping_handlers)
  moreover have "stepping c (cancel_call c aw wid mid)" for wid mid
    by (simp add: cancel_call_def cancel_begin_def require_live_attempt_def stepping_rules stepping_handlers split: option.split)
  moreover have "stepping c (stop_call c aw wid force agent)" for wid force agent
    by (simp add: stop_call_def stop_response_def stepping_rules stepping_handlers status_still settle split: stop_start.split)
  ultimately show ?thesis
    by (cases call) (simp_all add: live_call_def stepping_rules stepping_handlers status_still sup_list_workers_def sup_result_def)
qed

lemma watch_rounds_steps:
  assumes "\<forall>turn \<in> set turns. \<forall>s. (sup_step c)\<^sup>*\<^sup>* s (turn s)"
  shows "(sup_step c)\<^sup>*\<^sup>* s (fst (watch_rounds wid cursor follow turns s))"
proof -
  have still: "\<exists>r. watch_round wid cursor follow s = (s, r)" for wid cursor follow s
    by (simp add: watch_round_def act_bind_def reading_def from_res_def ret_def require_worker_def raise_exn_def
        split: sum.split option.split)
  show ?thesis
    using assms
  proof (induction wid cursor follow turns s rule: watch_rounds.induct)
    case (1 wid cursor follow s)
    obtain r where "watch_round wid cursor follow s = (s, r)" using still by blast
    then show ?case by (cases follow) (auto split: sum.split watch_outcome.split)
  next
    case (2 wid cursor follow turn turns s)
    obtain r where r: "watch_round wid cursor follow s = (s, r)" using still by blast
    have "(sup_step c)\<^sup>*\<^sup>* s (turn s)" using "2.prems" by simp
    note go = rtranclp_trans [OF this]
    show ?case
      using 2 r by (auto simp: split_beta split: sum.split watch_outcome.split intro!: go)
  qed
qed

lemma live_watch_steps:
  assumes "awaited_steps c aw"
  shows "(sup_step c)\<^sup>*\<^sup>* s (fst (live_watch c aw wid since follow s))"
proof -
  have "stepping c (watch_start wid since)" by (simp add: watch_start_def stepping_rules)
  then have "(sup_step c)\<^sup>*\<^sup>* s (fst (watch_start wid since s))" by (simp add: stepping_def)
  moreover have "(sup_step c)\<^sup>*\<^sup>* t (fst (watch_rounds wid since follow (aw_turns aw) t))" for t
    using assms by (intro watch_rounds_steps) (simp add: awaited_steps_def)
  ultimately have "(sup_step c)\<^sup>*\<^sup>* s (fst (watch_generator wid since follow (aw_turns aw) s))"
    by (auto simp: watch_generator_def split: prod.split sum.split) (metis fst_conv rtranclp_trans)+
  then show ?thesis by (simp add: live_watch_def split_beta)
qed

text \<open>The steps of a served supervisor.\<close>

definition served_steps :: "sup_conf \<Rightarrow> awaited \<Rightarrow> sup \<Rightarrow> sup \<Rightarrow> bool" where
  "served_steps c aw s t \<longleftrightarrow> (awaited_steps c aw \<longrightarrow> (sup_step c)\<^sup>*\<^sup>* s t)"

interpretation live_steps: served_relation "live_served c aw" "served_steps c aw" for c aw
  by unfold_locales
    (use live_call_steps live_watch_steps in
      \<open>auto simp: served_steps_def live_served_def stepping_def intro: rtranclp_trans\<close>)


section \<open>A watch over the socket\<close>

lemma event_json_wf:
  assumes "store_ok env db" and "events_since wid since db = Inr evs" and "0 \<le> since" and "e \<in> set evs"
  shows "json_wf (event_json c e) \<and> is_jdict (event_json c e)"
proof -
  obtain row where row: "row \<in> set (events_of wid db)" "e = record_of row"
    using assms events_since_eq [OF assms(1,3), of wid] in_set_dropD by fastforce
  obtain q where q: "json_wf q" "sort_keys q = q" "er_payload row = json_text True True q"
    using events_row_ok [OF assms(1) row(1)] by (auto simp: row_ok_def)
  then have "e_payload e = q" using row(2) by (simp add: record_of_def json_roundtrip_sorted)
  then show ?thesis using q(1) by (simp add: event_json_def)
qed

lemma status_read:
  assumes "store_ok env (s_db s)" and "find_worker wid (s_db s) = Some w"
  shows "\<exists>d. status c wid s = (s, Inr d) \<and> map_of d ''state'' = Some (JStr (state_name (w_state w)))
     \<and> map_of d ''event_cursor'' = Some (JInt (int (latest_event_cursor wid (s_db s))))"
proof -
  obtain sm where "get_worker wid (s_db s) = Inr (Some \<lparr>wr_row = w, wr_result_summary = sm\<rparr>)"
    using worker_found [OF assms] by blast
  then show ?thesis
    by (simp add: status_def act_bind_def require_worker_def reading_def from_res_def ret_def worker_json_def)
qed

lemma worker_stays:
  assumes "store_ok env db" and "(store_step env)\<^sup>*\<^sup>* db db'" and "find_worker wid db = Some w"
  shows "\<exists>w'. find_worker wid db' = Some w'"
proof -
  note g = event_log.steps_grow [OF assms(2,1), of wid]
  have "events_of wid db \<noteq> []" using store_okD [OF assms(1,3)] by (auto simp: view_ok_def events_ok_def)
  then have "events_of wid db' \<noteq> []" using g by (auto simp: prefix_def)
  then show ?thesis using g by (cases "find_worker wid db'") (auto simp: store_ok_def view_ok_def dest!: spec [of _ wid])
qed

lemma terminal_names_iff: "state_name st \<in> set terminal_names \<longleftrightarrow> terminal_state st"
  by (cases st) (simp_all add: terminal_names_def terminal_state_def)

definition watch_params :: "worker_id \<Rightarrow> int \<Rightarrow> bool \<Rightarrow> (string \<times> json) list" where
  "watch_params wid since follow = [(''worker_id'', JStr wid), (''since'', JInt since), (''follow'', JBool follow)]"

lemma watch_params_parsed: "wid \<noteq> [] \<Longrightarrow> 0 \<le> since \<Longrightarrow> parse_watch (watch_params wid since follow) = Inr (wid, since, follow)"
  by (simp add: parse_watch_def watch_params_def validate_fields_def string_field_def natural_field_def boolean_field_def)

text \<open>The frames of a watch stay within the limit.\<close>

definition watch_fits :: "sup_conf \<Rightarrow> string \<Rightarrow> worker_id \<Rightarrow> int \<Rightarrow> bool \<Rightarrow> event_record list \<Rightarrow> nat \<Rightarrow> bool" where
  "watch_fits c rid wid since follow evs cursor \<longleftrightarrow>
     frame_fits (request_frame rid ''watch'' (watch_params wid since follow))
     \<and> frame_fits (success (JStr rid) (JDict (watch_params wid since follow)))
     \<and> (\<forall>e \<in> set evs. frame_fits (event_frame rid (event_json c e)))
     \<and> (\<forall>st why. why \<in> {''terminal'', ''replay_complete''} \<longrightarrow> frame_fits (success (JStr rid) (JDict [(''end'',
           JDict [(''reason'', JStr why), (''cursor'', JInt (int cursor)), (''state'', JStr (state_name st))])])))"

text \<open>C10: A client that watches a worker over the socket gets the worker's log from its cursor on: every event
  that is in the log when the watch ends, once, in order, and rendered as the supervisor renders it,
  whatever other handlers did meanwhile. A follower's watch ends without an error exactly when the
  worker is terminal then.\<close>

theorem rpc_watch_delivers_log:
  assumes "reachable (c_env c) (s_db s)" and "find_worker wid (s_db s) = Some w" and "wid \<noteq> []" and "0 \<le> since"
    and "valid_request_id (JStr rid)" and "store_turns (c_env c) (aw_turns aw)"
    and "watch_generator wid since follow (aw_turns aw) s = (t, evs, Some (Inr ()))"
    and "watch_fits c rid wid since follow evs (latest_event_cursor wid (s_db t))"
  shows "events_since wid since (s_db t) = Inr evs
     \<and> (\<exists>w'. find_worker wid (s_db t) = Some w'
        \<and> client_watch (Some (served_bytes (live_served c aw) s)) rid (watch_params wid since follow)
          = (map (event_json c) evs,
             (if follow \<and> \<not> terminal_state (w_state w')
              then Some (client_error ''worker_not_live'' ''Follow watch ended before worker termination.'') else None)))"
proof -
  note ok = reachable_ok [OF assms(1)]
  have start: "watch_rounds wid since follow (aw_turns aw) s = (t, evs, Some (Inr ()))"
    using watch_started [OF assms(1,2,4)] assms(7) by (simp add: watch_generator_def)
  note log = watch_rounds_log [OF assms(1,4,6) start]
  have ok': "store_ok (c_env c) (s_db t)" using reachable_steps [OF assms(1)] log reachable_ok by blast
  have evs: "events_since wid since (s_db t) = Inr evs" using log events_since_eq [OF ok' assms(4)] by auto
  obtain w' where w': "find_worker wid (s_db t) = Some w'" using worker_stays [OF ok _ assms(2)] log by blast
  obtain d where d: "status c wid s = (s, Inr d)" using status_read [OF ok assms(2)] by blast
  obtain d' where d': "status c wid t = (t, Inr d')" "map_of d' ''state'' = Some (JStr (state_name (w_state w')))"
    "map_of d' ''event_cursor'' = Some (JInt (int (latest_event_cursor wid (s_db t))))" using status_read [OF ok' w'] by blast
  let ?sv = "live_served c aw" and ?close = "watch_close rid follow (Inr ()) (Inr (JDict d'))"
  have close: "?close = (if follow \<and> \<not> terminal_state (w_state w')
      then Inl (sup_error ''worker_not_live'' ''Follow watch ended before worker termination.'')
      else Inr (success (JStr rid) (JDict [(''end'', JDict [(''reason'', JStr (if follow then ''terminal'' else ''replay_complete'')),
        (''cursor'', JInt (int (latest_event_cursor wid (s_db t)))), (''state'', JStr (state_name (w_state w')))])])))"
    using d'(2,3) terminal_names_iff by (auto simp: watch_close_def end_frame_def)
  have "client_watch (Some (served_bytes ?sv s)) rid (watch_params wid since follow)
      = (map (event_json c) evs, (case ?close of Inr f \<Rightarrow> None | Inl e \<Rightarrow> Some (seen_error e)))"
  proof (rule rpc_watch_transparent [OF assms(5)])
    show "parse_watch (watch_params wid since follow) = Inr (wid, since, follow)" by (rule watch_params_parsed [OF assms(3,4)])
    show "sv_call ?sv (CallStatus wid) s = (s, Inr (JDict d))"
      by (simp add: live_served_def live_call_def act_bind_def d ret_def)
    show "sv_call ?sv (CallStatus wid) t = (t, Inr (JDict d'))"
      by (simp add: live_served_def live_call_def act_bind_def d' ret_def)
    show "sv_watch ?sv wid since follow s = (t, map (event_json c) evs, Inr ())"
      using assms(7) by (simp add: live_served_def live_watch_def)
    show "\<forall>e \<in> set (map (event_json c) evs). json_wf e \<and> is_jdict e \<and> frame_fits (event_frame rid e)"
      using event_json_wf [OF ok' evs assms(4)] assms(8) by (auto simp: watch_fits_def)
    show "\<forall>f. ?close = Inr f \<longrightarrow> frame_fits f" using assms(8) by (auto simp: close watch_fits_def)
    show "\<forall>e. ?close = Inl e \<longrightarrow> portable (Inl e) \<and> error_fits rid e"
      using error_frame_fits [OF assms(5)] by (auto simp: close sup_error_def portable_def normalize_preflight_warnings_def
          error_fits_def error_reply_def)
  qed (use assms(8) d'(3) in \<open>auto simp: watch_fits_def watch_params_def\<close>)
  then have "client_watch (Some (served_bytes ?sv s)) rid (watch_params wid since follow)
      = (map (event_json c) evs, (if follow \<and> \<not> terminal_state (w_state w')
          then Some (client_error ''worker_not_live'' ''Follow watch ended before worker termination.'') else None))"
    by (simp add: close seen_error_def sup_error_def client_error_def)
  with evs w' show ?thesis by blast
qed

section \<open>At concrete inputs\<close>

text \<open>Handlers that wait for nothing: the supervisor served alone.\<close>

definition alone :: awaited where
  "alone = \<lparr>aw_steer = (\<lambda>_. Inr ()), aw_cancel = (\<lambda>_. Inr True), aw_stop = (\<lambda>_ _ s. s), aw_turns = []\<rparr>"

lemma alone_steps: "awaited_steps c alone"
  by (simp add: awaited_steps_def alone_def)

theorem rpc_call_transparent_witness:
  "client_call (Some (served_bytes (live_served sample_conf alone) sample_live)) ''r'' ''result'' [(''worker_id'', JStr ''w'')]
     = Inr JNull"
proof -
  have d: "dispatch (live_served sample_conf alone) ''result'' [(''worker_id'', JStr ''w'')] sample_live = (sample_live, Inr JNull)"
    using sample_running_read
    by (simp add: dispatch_def parse_call_def parse_worker_call_def validate_fields_def string_field_def live_served_def
        live_call_def sup_result_def require_worker_def act_bind_def reading_def from_res_def ret_def)
  have fits: "frame_fits (request_frame ''r'' ''result'' [(''worker_id'', JStr ''w'')])" "frame_fits (success (JStr ''r'') JNull)"
    by (simp_all add: frame_fits_def request_frame_def success_def max_frame_bytes_def string_text_def escape_char_def
        code_point_def)
  show ?thesis
    using rpc_call_transparent [OF _ _ _ fits(1) d] fits(2)
    by (simp add: seen_result_def portable_def max_request_id_chars_def)
qed

lemma string_text_longer: "length s \<le> length (string_text True s)"
proof -
  have one: "1 \<le> length (escape_char True c)" for c by (cases rule: escape_shape [of c]) (simp_all add: u_escape_def)
  have "length s \<le> length (concat (map (escape_char True) s))"
  proof (induction s)
    case (Cons c s)
    with one [of c] show ?case by simp
  qed simp
  then show ?thesis by (simp add: string_text_def)
qed

theorem oversize_request_refused_witness:
  "client_call (Some (served_bytes (live_served sample_conf alone) sample_live)) ''r'' ''result''
      [(''worker_id'', JStr (replicate max_frame_bytes CHR ''w''))] = Inl frame_too_large
   \<and> fst (serve (live_served sample_conf alone)
      (frame_line (request_frame ''r'' ''result'' [(''worker_id'', JStr (replicate max_frame_bytes CHR ''w''))])) sample_live) = sample_live"
proof -
  let ?s = "replicate max_frame_bytes CHR ''w''"
  have "json_text True False (JDict (request_frame ''r'' ''result'' [(''worker_id'', JStr ?s)]))
    = ''{'' @ string_text True ''request_id'' @ '':'' @ string_text True ''r'' @ '','' @ string_text True ''method'' @ '':''
      @ string_text True ''result'' @ '','' @ string_text True ''params'' @ '':{'' @ string_text True ''worker_id'' @ '':''
      @ string_text True ?s @ ''}}''"
    by (simp add: request_frame_def)
  then have "\<not> frame_fits (request_frame ''r'' ''result'' [(''worker_id'', JStr ?s)])"
    using string_text_longer [of ?s] by (simp add: frame_fits_def del: json_text.simps)
  then show ?thesis
    using oversize_request_refused [of "''r''" "[(''worker_id'', JStr ?s)]" "''result''"
        "served_bytes (live_served sample_conf alone) sample_live" "live_served sample_conf alone" "[]" sample_live]
    by (simp add: max_request_id_chars_def del: json_text.simps)
qed


lemma sample_db_events: "length (events_of ''w'' sample_db) = 1"
proof -
  have ok: "store_ok no_env sample_db" by (rule reachable_ok [OF sample_reachable])
  have "set (map er_event_id (events sample_db)) = {''e1''}"
    using sample_created by (auto simp: fresh_event_def)
  moreover have "distinct (map er_event_id (events sample_db))" using ok by (simp add: store_ok_def)
  ultimately have "length (events sample_db) = 1" by (metis distinct_card length_map card_1_singleton_iff One_nat_def)
  moreover have "events_of ''w'' sample_db \<noteq> []"
    using store_okD [OF ok] sample_created by (auto simp: view_ok_def events_ok_def)
  moreover have "length (events_of ''w'' sample_db) \<le> length (events sample_db)" by (simp add: events_of_def)
  ultimately show ?thesis by (metis One_nat_def le_antisym length_0_conv less_one not_less)
qed

lemma sample_watch_fits:
  "watch_fits sample_conf ''r'' ''w'' 1 False [\<lparr>e_sequence = 2, e_event_id = ''e2'', e_worker_id = ''w'', e_attempt = 1,
     e_timestamp = 11, e_type = ''worker.state_changed'', e_payload = state_payload Running\<rparr>] 2"
proof -
  have "length (state_name st) \<le> 128" for st by (cases st) simp_all
  then have st: "length (string_text True (state_name st)) \<le> 6 * 128 + 2" for st
    using string_text_length [of "state_name st"] by (meson add_le_mono1 le_trans mult_le_mono2)
  have "frame_fits (success (JStr ''r'') (JDict [(''end'',
       JDict [(''reason'', JStr why), (''cursor'', JInt (int 2)), (''state'', JStr (state_name st))])]))"
    if "why \<in> {''terminal'', ''replay_complete''}" for st why
    using that st [of st] by (auto simp: frame_fits_def success_def max_frame_bytes_def int_text_def nat_text.simps)
      (auto simp: string_text_def escape_char_def code_point_def)
  moreover have "c_iso sample_conf = (\<lambda>_. [])" by (simp add: sample_conf_def)
  ultimately show ?thesis
    by (simp add: watch_fits_def)
      (simp add: frame_fits_def success_def request_frame_def event_frame_def event_json_def watch_params_def
        max_frame_bytes_def int_text_def nat_text.simps state_payload_def string_text_def escape_char_def code_point_def)
qed

theorem rpc_watch_delivers_log_witness:
  "\<exists>ev. events_since ''w'' 1 (s_db sample_live) = Inr [ev] \<and> e_type ev = ''worker.state_changed''
     \<and> client_watch (Some (served_bytes (live_served sample_conf alone) sample_live)) ''r'' (watch_params ''w'' 1 False)
       = ([event_json sample_conf ev], None)"
proof -
  obtain ev w where l: "logged no_env ''w'' sample_row ''worker.state_changed'' (state_payload Running) 11 ''e2''
     sample_db sample_running ev w" using sample_running_logged by blast
  obtain v where v: "find_worker ''w'' sample_running = Some v" and r: "reachable no_env sample_running"
    using sample_running_state by blast
  note ok = reachable_ok [OF r]
  have one: "length (events_of ''w'' sample_db) = 1" by (rule sample_db_events)
  obtain row where row: "events_of ''w'' sample_running = events_of ''w'' sample_db @ [row]" "record_of row = ev"
    using l by (auto simp: logged_def advanced_def)
  have ev: "ev = \<lparr>e_sequence = 2, e_event_id = ''e2'', e_worker_id = ''w'', e_attempt = 1, e_timestamp = 11,
      e_type = ''worker.state_changed'', e_payload = state_payload Running\<rparr>"
    using l one by (cases ev) (auto simp: logged_def advanced_def sample_row_def new_row_def)
  have evs: "events_since ''w'' 1 sample_running = Inr [ev]" using events_since_eq [OF ok, of 1 "''w''"] row one by simp
  have gen: "watch_generator ''w'' 1 False (aw_turns alone) sample_live = (sample_live, [ev], Some (Inr ()))"
    using watch_started [of no_env sample_live "''w''" v 1] r v evs
    by (simp add: watch_generator_def alone_def watch_round_def act_bind_def reading_def from_res_def ret_def)
  have cursor: "latest_event_cursor ''w'' sample_running = 2" using latest_cursor_eq [OF ok, of "''w''"] row one by simp
  have fits: "watch_fits sample_conf ''r'' ''w'' 1 False [ev] 2" unfolding ev by (rule sample_watch_fits)
  show ?thesis
    using rpc_watch_delivers_log [of sample_conf sample_live "''w''" v 1 "''r''" alone False sample_live "[ev]"]
      r v gen cursor fits evs by (simp add: max_request_id_chars_def store_turns_def alone_def ev)
qed

end
