(* ===== verification/Json_Values.thy ===== *)
theory Json_Values
  imports Json_Codec
begin

text \<open>
  What \<open>json.loads\<close> builds is well formed, so a value that was read can always be written and read
  again: the parsed numbers are number tokens, the parsed objects have distinct keys.
\<close>

section \<open>Number tokens\<close>

definition digit_free :: "string \<Rightarrow> bool" where
  "digit_free s = (case s of [] \<Rightarrow> True | c # _ \<Rightarrow> \<not> is_digit c)"

lemma takeWhile_digits_again:
  "digit_free x \<Longrightarrow> takeWhile is_digit (takeWhile is_digit s @ x) = takeWhile is_digit s"
  by (induction s) (auto simp: digit_free_def split: list.splits)

lemma int_part_again: "digit_free x \<Longrightarrow> int_part s \<noteq> [] \<Longrightarrow> int_part (int_part s @ x) = int_part s"
proof (cases s)
  case (Cons c t)
  assume x: "digit_free x" and ne: "int_part s \<noteq> []"
  show ?thesis
  proof (cases "c = CHR ''0''")
    case False
    with Cons ne have "is_digit c" by (auto simp: int_part_def split: if_splits)
    then show ?thesis
      using False Cons takeWhile_digits_again [OF x, of t] by (simp add: int_part_def)
  qed (simp add: Cons int_part_def)
qed (simp add: int_part_def)

lemma exp_part_shape:
  "exp_part s = [] \<or> (\<exists>c g ds. exp_part s = c # g @ ds \<and> (c = CHR ''e'' \<or> c = CHR ''E'')
     \<and> (g = [] \<or> g = ''-'' \<or> g = ''+'') \<and> ds \<noteq> [] \<and> (\<forall>d \<in> set ds. is_digit d))"
proof (cases s)
  case (Cons c t)
  let ?g = "exp_sign t" and ?ds = "takeWhile is_digit (drop (length (exp_sign t)) t)"
  have "?g = [] \<or> ?g = ''-'' \<or> ?g = ''+''" by (auto simp: exp_sign_def split: list.split)
  moreover have "\<forall>d \<in> set ?ds. is_digit d" by (auto dest: set_takeWhileD)
  moreover have "exp_part s = (if (c = CHR ''e'' \<or> c = CHR ''E'') \<and> ?ds \<noteq> [] then c # ?g @ ?ds else [])"
    by (simp add: Cons exp_part_def Let_def)
  ultimately show ?thesis by (metis (no_types, lifting))
qed (simp add: exp_part_def)

lemma not_digits: "\<not> is_digit CHR ''e''" "\<not> is_digit CHR ''E''" "\<not> is_digit CHR ''.''" "\<not> is_digit CHR ''-''" "\<not> is_digit CHR ''+''"
  by (simp_all add: is_digit_def code_point_def)

lemma exp_part_free: "digit_free (exp_part s)" "frac_part (exp_part s) = []"
  using exp_part_shape [of s] not_digits by (auto simp: digit_free_def frac_part_def)

lemma all_digits: "\<forall>d \<in> set ds. is_digit d \<Longrightarrow> takeWhile is_digit ds = ds"
  by (simp add: takeWhile_eq_all_conv)

lemma exp_sign_digits: "ds \<noteq> [] \<Longrightarrow> \<forall>d \<in> set ds. is_digit d \<Longrightarrow> exp_sign ds = []"
  using not_digits by (cases ds) (auto simp: exp_sign_def)

lemma exp_part_again: "exp_part (exp_part s) = exp_part s"
proof -
  consider (none) "exp_part s = []"
    | (some) c g ds where "exp_part s = c # g @ ds" "c = CHR ''e'' \<or> c = CHR ''E''"
      "g = [] \<or> g = ''-'' \<or> g = ''+''" "ds \<noteq> []" "\<forall>d \<in> set ds. is_digit d"
    using exp_part_shape [of s] by blast
  then show ?thesis
  proof cases
    case none
    then show ?thesis by (simp add: exp_part_def)
  next
    case some
    then have "exp_sign (g @ ds) = g" using exp_sign_digits by (auto simp: exp_sign_def)
    then show ?thesis using some unfolding some(1) by (simp add: exp_part_def Let_def all_digits)
  qed
qed

lemma frac_part_shape:
  "frac_part s = [] \<or> (\<exists>ds. frac_part s = CHR ''.'' # ds \<and> ds \<noteq> [] \<and> (\<forall>d \<in> set ds. is_digit d))"
  by (auto simp: frac_part_def dest: set_takeWhileD split: list.splits)

lemma frac_part_again: "frac_part (frac_part s @ exp_part t) = frac_part s"
proof -
  consider (none) "frac_part s = []"
    | (some) ds where "frac_part s = CHR ''.'' # ds" "ds \<noteq> []" "\<forall>d \<in> set ds. is_digit d"
    using frac_part_shape [of s] by blast
  then show ?thesis
  proof cases
    case none
    then show ?thesis using exp_part_free by simp
  next
    case some
    then have "takeWhile is_digit (ds @ exp_part t) = ds"
      using takeWhile_digits_again [OF exp_part_free(1), of ds t] all_digits by simp
    then show ?thesis using some by (simp add: frac_part_def)
  qed
qed

lemma parsed_float_literal:
  assumes "parse_number s = Some (JFloat f, r)"
  shows "\<exists>l. f = FiniteFloat l \<and> float_literal l"
proof -
  obtain sg s1 where s1: "split_sign s = (sg, s1)" by force
  define ip s2 where "ip = int_part s1" and "s2 = drop (length ip) s1"
  define fp s3 where "fp = frac_part s2" and "s3 = drop (length fp) s2"
  define ep where "ep = exp_part s3"
  note parts = ip_def s2_def fp_def s3_def ep_def
  have f: "f = FiniteFloat (sg @ ip @ fp @ ep)" and ne: "ip \<noteq> []" and some: "\<not> (fp = [] \<and> ep = [])"
    using assms by (auto simp: parse_number_def s1 parts Let_def split: if_splits)
  have free: "digit_free (fp @ ep)"
    using frac_part_shape [of s2] exp_part_free(1) [of s3] not_digits unfolding fp_def [symmetric] ep_def [symmetric]
    by (auto simp: digit_free_def)
  obtain c t where c: "ip = c # t" "is_digit c"
    using ne by (cases s1) (auto simp: ip_def int_part_def is_digit_def code_point_def split: if_splits)
  have sign: "split_sign (sg @ ip @ fp @ ep) = (sg, ip @ fp @ ep)"
    using s1 c not_digits by (cases s) (auto simp: split_sign_def split: if_splits)
  have again: "int_part (ip @ fp @ ep) = ip" "frac_part (fp @ ep) = fp" "exp_part ep = ep"
    using int_part_again [OF free, of s1] ne frac_part_again [of s2 s3] exp_part_again [of s3] by (simp_all add: ip_def fp_def ep_def)
  have "parse_number (sg @ ip @ fp @ ep) = Some (JFloat (FiniteFloat (sg @ ip @ fp @ ep)), [])"
    unfolding parse_number_def sign Let_def prod.case again using ne some by (simp add: again)
  with f show ?thesis by (simp add: float_literal_def)
qed

section \<open>Parsed values\<close>

lemma dict_of_keys: "distinct (map fst (dict_of ps)) \<and> set (dict_of ps) \<subseteq> set ps"
proof -
  have "distinct (map fst d) \<Longrightarrow> distinct (map fst (fold (\<lambda>(k, v) d. assoc_put k v d) ps d))
      \<and> set (fold (\<lambda>(k, v) d. assoc_put k v d) ps d) \<subseteq> set ps \<union> set d" for d
  proof (induction ps arbitrary: d)
    case (Cons p ps)
    obtain k v where p: "p = (k, v)" by force
    show ?case using Cons.IH [of "assoc_put k v d"] Cons.prems set_assoc_put_subset [of k v d] p by auto
  qed simp
  from this [of "[]"] show ?thesis by (simp add: dict_of_def)
qed

lemma parse_literal_wf: "parse_literal s = Some (v, r) \<Longrightarrow> json_wf v"
  by (auto simp: parse_literal_def literals_def split: if_splits)

lemma parse_number_wf: "parse_number s = Some (v, r) \<Longrightarrow> json_wf v"
  using parsed_float_literal [of s] by (cases v) (auto simp: parse_number_def Let_def split: if_splits prod.splits)

lemma parsed_wf:
  "parse_value f s = Some (v, r) \<Longrightarrow> json_wf v"
  "parse_items f s = Some (vs, r) \<Longrightarrow> \<forall>v \<in> set vs. json_wf v"
  "parse_members f s = Some (d, r) \<Longrightarrow> \<forall>kv \<in> set d. json_wf (snd kv)"
proof (induction f s and f s and f s arbitrary: v r and vs r and d r rule: parse_value_parse_items_parse_members.induct)
  case (3 f c s)
  show ?case
  proof (cases "c = CHR 0x22 \<or> c = CHR ''{'' \<or> c = CHR ''[''")
    case False
    then show ?thesis
      using 3 by (auto split: option.splits dest: parse_number_wf parse_literal_wf)
  next
    case True
    have dict: "json_wf (JDict (dict_of d))" if "\<forall>kv \<in> set d. json_wf (snd kv)" for d
      using that dict_of_keys [of d] by auto
    have empty: "json_wf (JDict [])" by simp
    show ?thesis
      using True 3
      by (auto split: list.splits if_splits option.splits simp del: json_wf.simps(4) intro!: dict empty)
  qed
next
  case (5 f s)
  then show ?case by (auto split: option.splits list.splits if_splits)
next
  case (8 f c s)
  then show ?case by (auto split: option.splits list.splits if_splits prod.splits) fastforce
qed simp_all

text \<open>Every value that was read is well formed.\<close>

lemma json_loads_wf: "json_loads s = Some v \<Longrightarrow> json_wf v"
  using parsed_wf(1) by (auto simp: json_loads_def split: option.splits if_splits)

end
