(* ===== verification/Cli.thy ===== *)
theory Cli
  imports Rpc_Supervisor Json_Values
begin

text \<open>
  The command line, \<open>src/qworker/cli.py\<close>: from parsed arguments to requests, the start of a
  supervisor that is not running, and the lines and exit code of every outcome.

  The argument parser is standard: its namespace is the input (\<open>cli_command\<close> and the option
  \<open>--no-start-supervisor\<close>), or the message it rejects the arguments with. Files and standard input
  are what reading them gives; connections, the launch of the supervisor and the doctor are
  arguments.
\<close>

section \<open>Commands\<close>

datatype text_input = InputText string | InputUnreadable | InputUndecodable string

datatype cli_command =
    CmdDoctor
  | CmdSpawn string string "string option" text_input
  | CmdList
  | CmdStatus worker_id
  | CmdResult worker_id
  | CmdResume worker_id
  | CmdWatch worker_id int bool
  | CmdSteer worker_id string "string option" text_input
  | CmdCancelMessage worker_id string
  | CmdStop worker_id bool "string option"
  | CmdRespond worker_id string text_input

record cli_arguments =
  ca_command :: cli_command
  ca_start_supervisor :: bool

datatype cli_exn = CliInvalid string | CliClient client_exn | CliRaises py_exn

type_synonym 'a cli = "cli_exn + 'a"

definition read_required_text :: "text_input \<Rightarrow> string \<Rightarrow> string cli" where
  "read_required_text input label =
     (case input of
        InputUnreadable \<Rightarrow> Inl (CliInvalid (''unable to read '' @ label))
      | InputUndecodable m \<Rightarrow> Inl (CliRaises (ValueError m))
      | InputText s \<Rightarrow>
          if py_strip s = [] then Inl (CliInvalid (label @ '' must not be empty'')) else Inr s)"

definition invalid_response :: cli_exn where
  "invalid_response = CliInvalid ''approval response must be one JSON object''"

definition agent_field :: "string option \<Rightarrow> (string \<times> json) list" where
  "agent_field agent = (case agent of None \<Rightarrow> [] | Some a \<Rightarrow> [(''agent_id'', JStr a)])"

text \<open>The request of a command; a watch first asks for the list, to have a supervisor.\<close>

definition command_request :: "cli_command \<Rightarrow> (string \<times> (string \<times> json) list) cli" where
  "command_request command =
     (case command of
        CmdSpawn role cwd model spec \<Rightarrow>
          res_bind (read_required_text spec ''spawn specification'') (\<lambda>objective.
          Inr (''spawn'', [(''role'', JStr role), (''cwd'', JStr (path_text cwd)),
            (''model'', JStr (case model of Some m \<Rightarrow> m
               | None \<Rightarrow> if role = ''coder'' then ''qwen-coder'' else ''qwen-auditor'')),
            (''objective'', JStr objective)]))
      | CmdStatus wid \<Rightarrow> Inr (''status'', [(''worker_id'', JStr wid)])
      | CmdResult wid \<Rightarrow> Inr (''result'', [(''worker_id'', JStr wid)])
      | CmdResume wid \<Rightarrow> Inr (''resume'', [(''worker_id'', JStr wid)])
      | CmdSteer wid priority agent input \<Rightarrow>
          res_bind (read_required_text input ''steering message'') (\<lambda>message.
          Inr (''steer'', [(''worker_id'', JStr wid), (''message'', JStr message), (''priority'', JStr priority)]
            @ agent_field agent))
      | CmdCancelMessage wid mid \<Rightarrow> Inr (''cancel_message'', [(''worker_id'', JStr wid), (''message_id'', JStr mid)])
      | CmdStop wid force agent \<Rightarrow>
          Inr (''stop'', [(''worker_id'', JStr wid), (''force'', JBool force)] @ agent_field agent)
      | CmdRespond wid rid input \<Rightarrow>
          res_bind (read_required_text input ''approval response'') (\<lambda>raw.
          (case json_loads raw of
             Some (JDict response) \<Rightarrow> Inr (''respond'', [(''worker_id'', JStr wid), (''request_id'', JStr rid),
               (''response'', JDict response)])
           | _ \<Rightarrow> Inl invalid_response))
      | _ \<Rightarrow> Inr (''list'', []))"

section \<open>Reaching a supervisor\<close>

definition start_attempts :: nat where
  "start_attempts = 40"

fun is_unavailable :: "client_exn \<Rightarrow> bool" where
  "is_unavailable (RPCClientError code m ws) = (code = ''supervisor_unavailable'')"
| "is_unavailable (ClientRaises e) = False"

text \<open>The loop after the launch; \<open>attempt i\<close> is the outcome of the i-th call of the command. Beside the
  result, the number of calls made so far.\<close>

fun retry_call :: "nat \<Rightarrow> (nat \<Rightarrow> json client) \<Rightarrow> nat \<Rightarrow> json client \<times> nat" where
  "retry_call 0 attempt i = (unavailable ''qworker supervisor is unavailable.'', i)"
| "retry_call (Suc k) attempt i =
     (case attempt i of
        Inl e \<Rightarrow> if is_unavailable e then retry_call k attempt (Suc i) else (Inl e, Suc i)
      | Inr v \<Rightarrow> (Inr v, Suc i))"

text \<open>\<open>_call_with_supervisor\<close>: the result, the calls made and whether a supervisor was launched; the
  launch gives \<open>False\<close> when the operating system refuses it.\<close>

definition call_with_supervisor :: "bool \<Rightarrow> bool \<Rightarrow> (nat \<Rightarrow> json client) \<Rightarrow> json client \<times> nat \<times> bool" where
  "call_with_supervisor start launched attempt =
     (case attempt 0 of
        Inr v \<Rightarrow> (Inr v, 1, False)
      | Inl e \<Rightarrow>
          if \<not> is_unavailable e \<or> \<not> start then (Inl e, 1, False)
          else if \<not> launched then (unavailable ''qworker supervisor is unavailable.'', 1, True)
          else (let (r, n) = retry_call start_attempts attempt 1 in (r, n, True)))"

section \<open>One invocation\<close>

record cli_world =
  cw_attempt :: "nat \<Rightarrow> string \<Rightarrow> (string \<times> json) list \<Rightarrow> json client"
  cw_launch :: bool
  cw_watch :: "(string \<times> json) list \<Rightarrow> json list \<times> client_exn option"
  cw_doctor :: "doctor_result res"

definition output_line :: "json \<Rightarrow> string" where
  "output_line v = json_text True True v @ [newline]"

definition error_line :: "string \<Rightarrow> string \<Rightarrow> string list \<Rightarrow> string" where
  "error_line code message warnings =
     output_line (JDict [(''ok'', JBool False), (''error'', JDict ([(''code'', JStr code), (''message'', JStr message)]
       @ (if warnings \<noteq> [] then [(''warnings'', jstrings warnings)] else [])))])"

definition exit_code :: "string \<Rightarrow> nat" where
  "exit_code code =
     (if code = ''invalid_request'' then 2 else if code = ''supervisor_unavailable'' then 3 else 1)"

text \<open>The lines written and the exit code, or the exception that leaves the program.\<close>

type_synonym cli_outcome = "string list \<times> (py_exn + nat)"

definition fail_with :: "string list \<Rightarrow> cli_exn \<Rightarrow> cli_outcome" where
  "fail_with lines e =
     (case e of
        CliInvalid m \<Rightarrow> (lines @ [error_line ''invalid_request'' m []], Inr 2)
      | CliClient (RPCClientError code m ws) \<Rightarrow> (lines @ [error_line code m ws], Inr (exit_code code))
      | CliClient (ClientRaises x) \<Rightarrow> (lines, Inl x)
      | CliRaises x \<Rightarrow> (lines, Inl x))"

definition send_request :: "cli_world \<Rightarrow> bool \<Rightarrow> string \<Rightarrow> (string \<times> json) list \<Rightarrow> json client" where
  "send_request world start method params =
     fst (call_with_supervisor start (cw_launch world) (\<lambda>i. cw_attempt world i method params))"

definition cli_run :: "cli_world \<Rightarrow> string + cli_arguments \<Rightarrow> cli_outcome" where
  "cli_run world parsed =
     (case parsed of
        Inl message \<Rightarrow> fail_with [] (CliInvalid message)
      | Inr arguments \<Rightarrow>
          if ca_command arguments = CmdDoctor then
            (case cw_doctor world of
               Inl e \<Rightarrow> fail_with [] (CliRaises e)
             | Inr d \<Rightarrow> ([output_line (doctor_json d)], Inr (if dr_ok d then 0 else 1)))
          else
            (case command_request (ca_command arguments) of
               Inl e \<Rightarrow> fail_with [] e
             | Inr (method, params) \<Rightarrow>
                 (case send_request world (ca_start_supervisor arguments) method params of
                    Inl e \<Rightarrow> fail_with [] (CliClient e)
                  | Inr v \<Rightarrow>
                      (case ca_command arguments of
                         CmdWatch wid since follow \<Rightarrow>
                           (let (evs, ended) = cw_watch world [(''worker_id'', JStr wid), (''since'', JInt since),
                                  (''follow'', JBool follow)]
                            in case ended of
                                 None \<Rightarrow> (map output_line evs, Inr 0)
                               | Some e \<Rightarrow> fail_with (map output_line evs) (CliClient e))
                       | _ \<Rightarrow> ([output_line v], Inr 0)))))"

section \<open>Paths are sent in their normal form\<close>

lemma split_on_join:
  "ps \<noteq> [] \<Longrightarrow> \<forall>p \<in> set ps. d \<notin> set p \<Longrightarrow> split_on d (py_join [d] ps) = ps"
proof (induction ps rule: induct_list012)
  case (2 p)
  have "d \<notin> set s \<Longrightarrow> split_on d s = [s]" for s by (induction s) auto
  then show ?case using 2 by simp
next
  case (3 p q ps)
  have "d \<notin> set s \<Longrightarrow> split_on d (s @ d # t) = s # split_on d t" for s t by (induction s) auto
  then show ?case using 3 by simp
qed simp

lemma split_on_parts: "p \<in> set (split_on d s) \<Longrightarrow> d \<notin> set p"
  by (induction s arbitrary: p) (auto split: if_splits list.splits)

lemma path_text_idem: "path_text (path_text s) = path_text s"
proof -
  define ps where "ps = filter (\<lambda>p. p \<noteq> [] \<and> p \<noteq> ''.'') (split_on CHR ''/'' s)"
  define root where "root = (if starts_with ''//'' s \<and> \<not> starts_with ''///'' s then ''//'' else if starts_with ''/'' s then ''/'' else [])"
  have norm: "path_text s = (if root @ py_join ''/'' ps = [] then ''.'' else root @ py_join ''/'' ps)"
    by (simp only: path_text_def ps_def root_def Let_def)
  have parts: "\<forall>p \<in> set ps. CHR ''/'' \<notin> set p \<and> p \<noteq> [] \<and> p \<noteq> ''.''"
    using split_on_parts [of _ "CHR ''/''" s] by (auto simp: ps_def)
  have root: "root = [] \<or> root = ''/'' \<or> root = ''//''" by (simp add: root_def)
  show ?thesis
  proof (cases ps)
    case Nil
    show ?thesis using root unfolding norm Nil by (auto simp: path_text_def)
  next
    case (Cons p rest)
    obtain c t where p: "p = c # t" "c \<noteq> CHR ''/''" using parts Cons by (cases p) auto
    obtain u where u: "py_join ''/'' ps = c # u" using Cons p by (cases rest) auto
    have split: "split_on CHR ''/'' (c # u) = ps" using split_on_join [of ps "CHR ''/''"] parts Cons u by auto
    have keep: "filter (\<lambda>p. p \<noteq> [] \<and> p \<noteq> ''.'') ps = ps" using parts by (simp add: filter_id_conv)
    show ?thesis
      using root unfolding norm u
      by (elim disjE) (use split keep p(2) u in \<open>simp_all add: path_text_def del: split_on.simps(2), simp_all\<close>)
  qed
qed

section \<open>The server understands every command\<close>

text \<open>What the argument parser and the server agree on: choices and identifiers that are not empty.\<close>

definition accepted_text :: "text_input \<Rightarrow> string option" where
  "accepted_text input = (case input of InputText s \<Rightarrow> if py_strip s = [] then None else Some s | _ \<Rightarrow> None)"

fun command_call :: "cli_command \<Rightarrow> rpc_call option" where
  "command_call CmdDoctor = None"
| "command_call (CmdSpawn role cwd model spec) =
     map_option (\<lambda>objective.
       let k = \<lparr>k_objective = objective, k_cwd = path_text cwd,
             k_requested_model = (case model of Some m \<Rightarrow> m
                | None \<Rightarrow> if role = ''coder'' then ''qwen-coder'' else ''qwen-auditor''),
             k_context = [], k_constraints = [], k_acceptance = []\<rparr>
       in CallSpawn (if role = ''coder'' then CoderContract k else AuditorContract k)) (accepted_text spec)"
| "command_call CmdList = Some CallList"
| "command_call (CmdStatus wid) = Some (CallStatus wid)"
| "command_call (CmdResult wid) = Some (CallResult wid)"
| "command_call (CmdResume wid) = Some (CallResume wid)"
| "command_call (CmdWatch wid since follow) = Some CallList"
| "command_call (CmdSteer wid priority agent input) =
     map_option (\<lambda>message. CallSteer wid message priority agent) (accepted_text input)"
| "command_call (CmdCancelMessage wid mid) = Some (CallCancelMessage wid mid)"
| "command_call (CmdStop wid force agent) = Some (CallStop wid force agent)"
| "command_call (CmdRespond wid rid input) =
     (case Option.bind (accepted_text input) json_loads of
        Some (JDict response) \<Rightarrow> Some (CallRespond wid rid response) | _ \<Rightarrow> None)"

fun well_typed :: "cli_command \<Rightarrow> bool" where
  "well_typed (CmdSpawn role cwd model spec) = (role \<in> {''auditor'', ''coder''} \<and> model \<noteq> Some [])"
| "well_typed (CmdStatus wid) = (wid \<noteq> [])"
| "well_typed (CmdResult wid) = (wid \<noteq> [])"
| "well_typed (CmdResume wid) = (wid \<noteq> [])"
| "well_typed (CmdSteer wid priority agent input) =
     (wid \<noteq> [] \<and> priority \<in> {''now'', ''next'', ''later''} \<and> agent \<noteq> Some [])"
| "well_typed (CmdCancelMessage wid mid) = (wid \<noteq> [] \<and> mid \<noteq> [])"
| "well_typed (CmdStop wid force agent) = (wid \<noteq> [] \<and> agent \<noteq> Some [])"
| "well_typed (CmdRespond wid rid input) = (wid \<noteq> [] \<and> rid \<noteq> [])"
| "well_typed command = (command \<noteq> CmdDoctor)"

lemma read_required_Inr: "read_required_text input label = Inr s \<longleftrightarrow> accepted_text input = Some s"
  by (auto simp: read_required_text_def accepted_text_def split: text_input.split)

lemma accepted_not_empty: "accepted_text input = Some s \<Longrightarrow> s \<noteq> []"
  by (auto simp: accepted_text_def py_strip_def split: text_input.splits if_splits)

lemma path_text_not_empty: "path_text s \<noteq> []"
  by (simp add: path_text_def Let_def)

lemmas field_readers = validate_fields_def string_field_def optional_string_def string_or_none_def string_tuple_def
  boolean_field_def

lemma agent_field_simps:
  "map_of (agent_field agent) ''agent_id'' = map_option JStr agent"
  "k \<noteq> ''agent_id'' \<Longrightarrow> map_of (agent_field agent) k = None"
  "has_key k (agent_field agent) \<longleftrightarrow> k = ''agent_id'' \<and> agent \<noteq> None"
  "fst ` set (agent_field agent) = (if agent = None then {} else {''agent_id''})"
  by (auto simp: agent_field_def has_key_def split: option.split)

lemma agent_read:
  "agent \<noteq> Some [] \<Longrightarrow> has_key ''agent_id'' d = (agent \<noteq> None) \<Longrightarrow> map_of d ''agent_id'' = map_option JStr agent \<Longrightarrow>
   string_or_none d ''agent_id'' = Inr agent"
  by (cases agent) (auto simp: string_or_none_def string_field_def)

lemma command_parsed:
  assumes "well_typed command" and "command_request command = Inr (method, params)"
  shows "\<exists>call. command_call command = Some call \<and> parse_call method params = Inr call"
  using assms
proof (cases command)
  case (CmdSpawn role cwd model spec)
  then obtain objective where o: "accepted_text spec = Some objective" "objective \<noteq> []"
    using assms(2) accepted_not_empty by (auto simp: command_request_def res_simps read_required_Inr)
  let ?model = "case model of Some m \<Rightarrow> m | None \<Rightarrow> if role = ''coder'' then ''qwen-coder'' else ''qwen-auditor''"
  have e: "method = ''spawn''" "params = [(''role'', JStr role), (''cwd'', JStr (path_text cwd)), (''model'', JStr ?model),
      (''objective'', JStr objective)]"
    using CmdSpawn assms(2) o(1) by (auto simp: command_request_def res_simps read_required_Inr)
  have "role = ''auditor'' \<or> role = ''coder''" "?model \<noteq> []" using CmdSpawn assms(1) by (auto split: option.split)
  then show ?thesis
    using o unfolding CmdSpawn e
    by (elim disjE) (simp_all add: parse_call_def parse_spawn_def field_readers path_text_not_empty path_text_idem
        del: option.case_eq_if split del: option.split)
next
  case (CmdSteer wid priority agent input)
  then obtain message where m: "accepted_text input = Some message" "message \<noteq> []"
    using assms(2) accepted_not_empty by (auto simp: command_request_def res_simps read_required_Inr)
  have e: "method = ''steer''" "params = [(''worker_id'', JStr wid), (''message'', JStr message), (''priority'', JStr priority)]
      @ agent_field agent"
    using CmdSteer assms(2) m(1) by (auto simp: command_request_def res_simps read_required_Inr)
  have "string_or_none params ''agent_id'' = Inr agent"
    using CmdSteer assms(1) unfolding e by (intro agent_read) (auto simp: has_key_def agent_field_simps split: option.split)
  then show ?thesis
    using CmdSteer assms(1) m unfolding e
    by (cases agent) (auto simp: parse_call_def parse_steer_def validate_fields_def string_field_def optional_string_def agent_field_def)
next
  case (CmdStop wid force agent)
  have e: "method = ''stop''" "params = [(''worker_id'', JStr wid), (''force'', JBool force)] @ agent_field agent"
    using CmdStop assms(2) by (auto simp: command_request_def)
  have "string_or_none params ''agent_id'' = Inr agent"
    using CmdStop assms(1) unfolding e by (intro agent_read) (auto simp: has_key_def agent_field_simps split: option.split)
  then show ?thesis
    using CmdStop assms(1) unfolding e
    by (cases agent) (auto simp: parse_call_def parse_stop_def validate_fields_def string_field_def boolean_field_def agent_field_def)
next
  case (CmdRespond wid rid input)
  then obtain raw where raw: "accepted_text input = Some raw"
    using assms(2) by (auto simp: command_request_def res_simps read_required_Inr)
  then have "(case json_loads raw of Some (JDict response) \<Rightarrow> Inr (''respond'', [(''worker_id'', JStr wid),
      (''request_id'', JStr rid), (''response'', JDict response)]) | _ \<Rightarrow> Inl invalid_response) = Inr (method, params)"
    using CmdRespond assms(2) by (auto simp: command_request_def res_simps read_required_Inr)
  then obtain response where r: "json_loads raw = Some (JDict response)" "method = ''respond''"
    "params = [(''worker_id'', JStr wid), (''request_id'', JStr rid), (''response'', JDict response)]"
    by (auto split: option.splits json.splits)
  then show ?thesis
    using CmdRespond assms(1) raw by (simp add: parse_call_def parse_respond_def field_readers)
next
  case CmdList
  then have e: "method = ''list''" "params = []" using assms(2) by (simp_all add: command_request_def)
  then show ?thesis
    using CmdList assms(1) by (simp add: parse_call_def parse_worker_call_def parse_cancel_def field_readers)
next
  case (CmdStatus wid)
  then have e: "method = ''status''" "params = [(''worker_id'', JStr wid)]" using assms(2) by (simp_all add: command_request_def)
  then show ?thesis
    using CmdStatus assms(1) by (simp add: parse_call_def parse_worker_call_def parse_cancel_def field_readers)
next
  case (CmdResult wid)
  then have e: "method = ''result''" "params = [(''worker_id'', JStr wid)]" using assms(2) by (simp_all add: command_request_def)
  then show ?thesis
    using CmdResult assms(1) by (simp add: parse_call_def parse_worker_call_def parse_cancel_def field_readers)
next
  case (CmdResume wid)
  then have e: "method = ''resume''" "params = [(''worker_id'', JStr wid)]" using assms(2) by (simp_all add: command_request_def)
  then show ?thesis
    using CmdResume assms(1) by (simp add: parse_call_def parse_worker_call_def parse_cancel_def field_readers)
next
  case (CmdWatch wid since follow)
  then have e: "method = ''list''" "params = []" using assms(2) by (simp_all add: command_request_def)
  then show ?thesis
    using CmdWatch assms(1) by (simp add: parse_call_def parse_worker_call_def parse_cancel_def field_readers)
next
  case (CmdCancelMessage wid mid)
  then have e: "method = ''cancel_message''" "params = [(''worker_id'', JStr wid), (''message_id'', JStr mid)]" using assms(2) by (simp_all add: command_request_def)
  then show ?thesis
    using CmdCancelMessage assms(1) by (simp add: parse_call_def parse_worker_call_def parse_cancel_def field_readers)
next
  case CmdDoctor
  with assms(1) show ?thesis by simp
qed

lemma command_wf:
  assumes "command_request command = Inr (method, params)"
  shows "json_wf (JDict params) \<and> method \<notin> {[], ''watch''}"
proof (cases command)
  case (CmdRespond wid rid input)
  then obtain raw where "accepted_text input = Some raw"
    using assms by (auto simp: command_request_def res_simps read_required_Inr)
  then have "(case json_loads raw of Some (JDict response) \<Rightarrow> Inr (''respond'', [(''worker_id'', JStr wid),
      (''request_id'', JStr rid), (''response'', JDict response)]) | _ \<Rightarrow> Inl invalid_response) = Inr (method, params)"
    using CmdRespond assms by (auto simp: command_request_def res_simps read_required_Inr)
  then show ?thesis using json_loads_wf [of raw] by (auto split: option.splits json.splits)
qed (use assms in \<open>auto simp: command_request_def res_simps agent_field_def split: option.splits\<close>)



section \<open>Reaching a supervisor\<close>

text \<open>The i-th call finds no supervisor.\<close>

definition down :: "(nat \<Rightarrow> json client) \<Rightarrow> nat \<Rightarrow> bool" where
  "down attempt i = (case attempt i of Inl e \<Rightarrow> is_unavailable e | Inr v \<Rightarrow> False)"

lemma retry_call_result:
  assumes "retry_call k attempt i = (r, n)"
  shows "(\<exists>j. i \<le> j \<and> j < i + k \<and> n = Suc j \<and> r = attempt j \<and> \<not> down attempt j \<and> (\<forall>l. i \<le> l \<and> l < j \<longrightarrow> down attempt l))
     \<or> (n = i + k \<and> r = unavailable ''qworker supervisor is unavailable.'' \<and> (\<forall>l. i \<le> l \<and> l < i + k \<longrightarrow> down attempt l))"
  using assms
proof (induction k arbitrary: i)
  case (Suc k)
  show ?case
  proof (cases "down attempt i")
    case True
    then have "retry_call k attempt (Suc i) = (r, n)" using Suc.prems by (auto simp: down_def split: sum.splits)
    from Suc.IH [OF this] show ?thesis
    proof (elim disjE exE conjE)
      fix j assume j: "Suc i \<le> j" "j < Suc i + k" "n = Suc j" "r = attempt j" "\<not> down attempt j"
        "\<forall>l. Suc i \<le> l \<and> l < j \<longrightarrow> down attempt l"
      have "\<forall>l. i \<le> l \<and> l < j \<longrightarrow> down attempt l" using j(6) True by (metis le_eq_less_or_eq Suc_le_eq)
      with j show ?thesis by (intro disjI1 exI [of _ j]) simp
    next
      assume n: "n = Suc i + k" "r = unavailable ''qworker supervisor is unavailable.''"
        "\<forall>l. Suc i \<le> l \<and> l < Suc i + k \<longrightarrow> down attempt l"
      have "\<forall>l. i \<le> l \<and> l < i + Suc k \<longrightarrow> down attempt l"
        using n(3) True by (metis le_eq_less_or_eq Suc_le_eq add_Suc add_Suc_right)
      with n show ?thesis by simp
    qed
  next
    case False
    then have "(r, n) = (attempt i, Suc i)" using Suc.prems by (auto simp: down_def split: sum.splits)
    with False show ?thesis by (intro disjI1 exI [of _ i]) auto
  qed
qed auto

text \<open>A command makes at most 41 calls, and its outcome is that of the first call that reached a
  supervisor, later calls being made only after earlier ones found none. A supervisor is launched only
  when the first call found none and starting one was not forbidden, at most once; when none can be
  reached the command fails as \<open>supervisor_unavailable\<close>.\<close>

lemma supervisor_started_on_demand:
  assumes "call_with_supervisor start launchable attempt = (r, n, launched)"
  shows "0 < n \<and> n \<le> 41 \<and> (launched \<longleftrightarrow> start \<and> down attempt 0) \<and> (\<forall>l. Suc l < n \<longrightarrow> down attempt l)
     \<and> (if launched \<and> (launchable \<longrightarrow> (\<forall>l \<le> 40. down attempt l))
        then r = unavailable ''qworker supervisor is unavailable.'' \<and> (n = 41 \<or> \<not> launchable)
        else r = attempt (n - 1) \<and> (down attempt (n - 1) \<longrightarrow> n = 1 \<and> \<not> start))"
proof (cases "down attempt 0 \<and> start \<and> launchable")
  case True
  then have retry: "retry_call 40 attempt 1 = (r, n)" "launched"
    using assms by (auto simp: call_with_supervisor_def start_attempts_def down_def split: prod.splits sum.splits)
  have zero: "down attempt l" if "\<And>l. 1 \<le> l \<Longrightarrow> l < m \<Longrightarrow> down attempt l" "l < m" for l m
    using that True by (cases "l = 0") auto
  from retry_call_result [OF retry(1)] show ?thesis
  proof (elim disjE exE conjE)
    fix j assume j: "1 \<le> j" "j < 1 + 40" "n = Suc j" "r = attempt j" "\<not> down attempt j" "\<forall>l. 1 \<le> l \<and> l < j \<longrightarrow> down attempt l"
    have "\<forall>l < j. down attempt l" using zero [of j] j(6) by blast
    moreover have "j \<le> 40" using j(2) by simp
    then have "\<not> (\<forall>l \<le> 40. down attempt l)" using j(5) by blast
    ultimately show ?thesis using j True retry(2) by auto
  next
    assume n: "n = 1 + 40" "r = unavailable ''qworker supervisor is unavailable.''" "\<forall>l. 1 \<le> l \<and> l < 1 + 40 \<longrightarrow> down attempt l"
    have "\<forall>l < 41. down attempt l" using zero [of 41] n(3) by simp
    then show ?thesis using n True retry(2) by auto
  qed
next
  case False
  then show ?thesis using assms
    by (auto simp: call_with_supervisor_def down_def split: sum.splits if_splits prod.splits)
qed

definition third_try :: "nat \<Rightarrow> json client" where
  "third_try i = (if i < 3 then unavailable [] else Inr (JInt (int i)))"

lemma third_try_down: "down third_try i = (i < 3)"
  by (simp add: down_def third_try_def unavailable_def client_error_def)

section \<open>The command line shows what the supervisor answered\<close>

lemma send_constant:
  assumes "\<And>i. cw_attempt world i method params = r" and "\<forall>e. r = Inl e \<longrightarrow> \<not> is_unavailable e"
  shows "send_request world start method params = r"
  using assms by (auto simp: send_request_def call_with_supervisor_def split: sum.split)


text \<open>One supervisor answers every attempt.\<close>

definition steady_world :: "cli_world" where
  "steady_world = \<lparr>cw_attempt = (\<lambda>i. client_call (Some (served_bytes (live_served sample_conf alone) sample_live)) ''r''),
     cw_launch = True, cw_watch = (\<lambda>_. ([], None)), cw_doctor = Inl CancelledError\<rparr>"


end
