(* ===== verification/Sdk_Options.thy ===== *)
theory Sdk_Options
  imports Adapter Preflight Control
begin

text \<open>
  How \<open>src/qworker/qoder_sdk.py\<close> sets up a run: the options of auditors and coders, their
  construction from configuration and environment, the preflight backend, and the permission and
  elicitation callbacks bound to a client.

  The SDK's authentication helpers and its client, the subprocess that runs a runtime command and
  the file system are arguments.
\<close>

section \<open>Options\<close>

datatype credential_input = CredentialText string | CredentialVariable string | NoCredential

text \<open>The options the SDK's helpers build; \<open>OtherAuth\<close> is any object they do not build.\<close>

datatype sdk_auth =
    AccessTokenAuth credential_input
  | ServiceAccountAuth credential_input
  | QoderCliAuth
  | OtherAuth

datatype tool_set = ToolList "string list" | ToolsPreset string

record tool_context =
  tc_agent_id :: "string option"
  tc_title :: "string option"
  tc_display_name :: "string option"
  tc_description :: "string option"

datatype permission_result = PermissionAllow json | PermissionDeny string

type_synonym tool_policy = "string \<Rightarrow> json \<Rightarrow> tool_context \<Rightarrow> permission_result res"

text \<open>\<open>None\<close> is a field left to the SDK's default. An MCP server is the list of its tools.\<close>

record sdk_options =
  op_auth :: "sdk_auth option"
  op_cwd :: string
  op_cli_path :: "string option"
  op_resume :: "string option"
  op_setting_sources :: "string list"
  op_tools :: tool_set
  op_allowed_tools :: "string list option"
  op_mcp_servers :: "(string \<times> string list) list option"
  op_allowed_mcp_server_names :: "string list option"
  op_strict_mcp_config :: "bool option"
  op_disallowed_tools :: "string list"
  op_permission_mode :: permission_mode
  op_allow_skip_permissions :: "bool option"
  op_max_turns :: nat
  op_control_request_timeout_ms :: nat
  op_load_timeout_ms :: nat
  op_max_buffer_size :: nat
  op_can_use_tool :: "tool_policy option"

definition checked_auth :: "sdk_auth option \<Rightarrow> unit res" where
  "checked_auth auth = require (auth \<noteq> Some OtherAuth) (TypeError ''Use a qoder_agent_sdk SDK auth helper.'')"

definition audit_report_server :: string where
  "audit_report_server = ''qworker_audit''"

definition submit_audit_name :: string where
  "submit_audit_name = ''submit_audit''"

definition auditor_can_use_tool :: tool_policy where
  "auditor_can_use_tool tool_name tool_input ctx =
     (let d = decide tool_name (tc_agent_id ctx)
      in Inr (if allowed d then PermissionAllow tool_input else PermissionDeny (reason d)))"

text \<open>The tool behind \<open>submit_audit\<close>: the capture it leaves and its answer.\<close>

definition tool_text :: "string \<Rightarrow> (string \<times> json) list" where
  "tool_text m = [(''content'', JList [JDict [(''type'', JStr ''text''), (''text'', JStr m)]])]"

definition submit_audit :: "report_capture \<Rightarrow> json \<Rightarrow> report_capture \<times> json" where
  "submit_audit capture arguments =
     (case record_report capture arguments of
        (after, False) \<Rightarrow> (after, JDict (tool_text ''Audit report was rejected.'' @ [(''is_error'', JBool True)]))
      | (after, True) \<Rightarrow> (after, JDict (tool_text ''Audit report accepted.'')))"

text \<open>\<open>reporting\<close>: a report capture is given.\<close>

definition build_auditor_options ::
    "string \<Rightarrow> sdk_auth option \<Rightarrow> string option \<Rightarrow> string option \<Rightarrow> bool \<Rightarrow> sdk_options res" where
  "build_auditor_options cwd auth cli_path resume reporting =
     res_bind (checked_auth auth) (\<lambda>_. Inr
       \<lparr>op_auth = auth, op_cwd = cwd, op_cli_path = cli_path, op_resume = resume, op_setting_sources = [],
        op_tools = ToolList (visible_tools @ (if reporting then [submit_audit_tool] else [])),
        op_allowed_tools = Some visible_tools,
        op_mcp_servers = Some (if reporting then [(audit_report_server, [submit_audit_name])] else []),
        op_allowed_mcp_server_names = Some (if reporting then [audit_report_server] else []),
        op_strict_mcp_config = Some reporting, op_disallowed_tools = denied_tools, op_permission_mode = DontAsk,
        op_allow_skip_permissions = None, op_max_turns = 24, op_control_request_timeout_ms = 30000,
        op_load_timeout_ms = 30000, op_max_buffer_size = 16 * 1024 * 1024,
        op_can_use_tool = Some auditor_can_use_tool\<rparr>)"

definition build_coder_options ::
    "string \<Rightarrow> sdk_auth option \<Rightarrow> string option \<Rightarrow> string option \<Rightarrow> permission_mode \<Rightarrow> string list \<Rightarrow> sdk_options res"
where
  "build_coder_options cwd auth cli_path resume mode disallowed =
     res_bind (checked_auth auth) (\<lambda>_. Inr
       \<lparr>op_auth = auth, op_cwd = cwd, op_cli_path = cli_path, op_resume = resume, op_setting_sources = [],
        op_tools = ToolsPreset ''qodercli'', op_allowed_tools = None, op_mcp_servers = None,
        op_allowed_mcp_server_names = None, op_strict_mcp_config = None, op_disallowed_tools = disallowed,
        op_permission_mode = mode, op_allow_skip_permissions = Some False, op_max_turns = 24,
        op_control_request_timeout_ms = 30000, op_load_timeout_ms = 30000, op_max_buffer_size = 16 * 1024 * 1024,
        op_can_use_tool = None\<rparr>)"

section \<open>Options of a configuration\<close>

text \<open>Three helpers of the SDK, and the file system: the resolved bundled runtime, strict resolution
  of a path (\<open>None\<close> where it raises \<open>OSError\<close>) and whether a path is an executable file.\<close>

record auth_lib =
  al_access_token_from_env :: "string \<Rightarrow> sdk_auth res"
  al_service_account_from_env :: "string \<Rightarrow> sdk_auth res"
  al_qodercli_auth :: "sdk_auth res"

record runtime_files =
  rf_bundled :: "string option"
  rf_resolve :: "string \<Rightarrow> string option"
  rf_executable :: "string \<Rightarrow> bool"

definition sdk_auth_of :: "auth_lib \<Rightarrow> auth_selection \<Rightarrow> sdk_auth res" where
  "sdk_auth_of lib auth =
     (case au_source auth of
        PersonalAccessToken \<Rightarrow>
          (case au_env_var auth of
             None \<Rightarrow> Inl (PreflightFailure ''auth_required'' ''Personal access-token environment is missing.'')
           | Some v \<Rightarrow> al_access_token_from_env lib v)
      | ServiceAccount \<Rightarrow>
          (case au_env_var auth of
             None \<Rightarrow> Inl (PreflightFailure ''auth_required'' ''Service-account environment is missing.'')
           | Some v \<Rightarrow> al_service_account_from_env lib v)
      | QoderCli \<Rightarrow> al_qodercli_auth lib)"

definition bundled_runtime_path :: "runtime_files \<Rightarrow> string res" where
  "bundled_runtime_path fs =
     (case rf_bundled fs of
        None \<Rightarrow> Inl (PreflightFailure ''runtime_not_found'' ''Bundled Qoder runtime was not found.'')
      | Some p \<Rightarrow> Inr p)"

definition resolved_path :: "runtime_files \<Rightarrow> string \<Rightarrow> string res" where
  "resolved_path fs p =
     (case rf_resolve fs p of
        None \<Rightarrow> Inl (PreflightFailure ''runtime_not_found'' ''Configured Qoder runtime was not found.'')
      | Some q \<Rightarrow> Inr q)"

definition executable_path :: "runtime_files \<Rightarrow> string \<Rightarrow> unit res" where
  "executable_path fs p = require (rf_executable fs p)
     (PreflightFailure ''runtime_not_found'' ''Configured Qoder runtime is not executable.'')"

text \<open>A bundled runtime is not tested for being executable here.\<close>

definition configured_runtime :: "runtime_files \<Rightarrow> effective_config \<Rightarrow> string res" where
  "configured_runtime fs config =
     (case cfg_runtime_path config of
        None \<Rightarrow> bundled_runtime_path fs
      | Some p \<Rightarrow> res_bind (resolved_path fs p) (\<lambda>q. res_bind (executable_path fs q) (\<lambda>_. Inr q)))"

fun configuration_error :: "py_exn \<Rightarrow> py_exn" where
  "configuration_error (ConfigError m) = AdapterDiagnostic ''invalid_request'' m"
| "configuration_error (PreflightFailure code m) =
     AdapterDiagnostic (if code \<in> {''auth_required'', ''runtime_not_found'', ''runtime_incompatible''} then code
       else ''sdk_protocol_error'') m"
| "configuration_error e = e"

text \<open>What both builders read before they build: configuration, authentication and runtime.\<close>

definition configured ::
    "runtime_files \<Rightarrow> effective_config res \<Rightarrow> environ \<Rightarrow> (effective_config \<times> auth_selection \<times> string) res" where
  "configured fs loaded env =
     (case res_bind loaded (\<lambda>config. res_bind (select_auth config env) (\<lambda>auth.
           res_bind (configured_runtime fs config) (\<lambda>runtime. Inr (config, auth, runtime)))) of
        Inl e \<Rightarrow> Inl (configuration_error e)
      | Inr r \<Rightarrow> Inr r)"

definition build_configured_auditor_options ::
    "auth_lib \<Rightarrow> runtime_files \<Rightarrow> effective_config res \<Rightarrow> environ \<Rightarrow> string \<Rightarrow> string option \<Rightarrow> bool \<Rightarrow> sdk_options res"
where
  "build_configured_auditor_options lib fs loaded env cwd resume reporting =
     res_bind (configured fs loaded env) (\<lambda>(config, auth, runtime).
     res_bind (sdk_auth_of lib auth) (\<lambda>a.
     build_auditor_options cwd (Some a) (Some runtime) resume reporting))"

definition build_configured_coder_options ::
    "auth_lib \<Rightarrow> runtime_files \<Rightarrow> effective_config res \<Rightarrow> environ \<Rightarrow> string \<Rightarrow> string option \<Rightarrow> sdk_options res"
where
  "build_configured_coder_options lib fs loaded env cwd resume =
     res_bind (configured fs loaded env) (\<lambda>(config, auth, runtime).
     res_bind (sdk_auth_of lib auth) (\<lambda>a.
     build_coder_options cwd (Some a) (Some runtime) resume (coder_permission_mode (cfg_policy config))
       (coder_denied_tools (cfg_policy config))))"

text \<open>The transports of a run: the options of its client and its report capture.\<close>

definition create_auditor_transport ::
    "auth_lib \<Rightarrow> runtime_files \<Rightarrow> effective_config res \<Rightarrow> environ \<Rightarrow> string \<Rightarrow> string option
     \<Rightarrow> (sdk_options \<times> report_capture option) res" where
  "create_auditor_transport lib fs loaded env cwd session =
     res_bind (build_configured_auditor_options lib fs loaded env cwd session True) (\<lambda>options.
     Inr (options, Some new_capture))"

definition create_coder_transport ::
    "auth_lib \<Rightarrow> runtime_files \<Rightarrow> effective_config res \<Rightarrow> environ \<Rightarrow> string \<Rightarrow> string option
     \<Rightarrow> (sdk_options \<times> report_capture option) res" where
  "create_coder_transport lib fs loaded env cwd session =
     res_bind (build_configured_coder_options lib fs loaded env cwd session) (\<lambda>options. Inr (options, None))"

section \<open>Credentials a client holds\<close>

definition auth_input_value :: "environ \<Rightarrow> credential_input \<Rightarrow> string option" where
  "auth_input_value env credential =
     (case credential of CredentialText t \<Rightarrow> Some t | CredentialVariable v \<Rightarrow> env v | NoCredential \<Rightarrow> None)"

definition direct_credential_values :: "environ \<Rightarrow> sdk_options option \<Rightarrow> string list" where
  "direct_credential_values env options =
     (case Option.bind options op_auth of
        Some (AccessTokenAuth credential) \<Rightarrow>
          (case auth_input_value env credential of None \<Rightarrow> [] | Some v \<Rightarrow> if v = [] then [] else [v])
      | Some (ServiceAccountAuth credential) \<Rightarrow>
          (case auth_input_value env credential of None \<Rightarrow> [] | Some v \<Rightarrow> if v = [] then [] else [v])
      | _ \<Rightarrow> [])"

section \<open>The preflight backend\<close>

record command_result =
  cr_returncode :: int
  cr_stdout :: string

text \<open>What running a command comes to; a process that times out is killed. The output is decoded, with what is
  not UTF-8 replaced, by an argument.\<close>

datatype command_outcome =
    ProgramNotFound
  | CommandTimedOut
  | CommandRaised py_exn
  | CommandEnded "int option" string

definition max_command_output :: nat where
  "max_command_output = 4096"

definition run_runtime_command :: "(string \<Rightarrow> string) \<Rightarrow> command_outcome \<Rightarrow> command_result res" where
  "run_runtime_command decode outcome =
     (case outcome of
        ProgramNotFound \<Rightarrow> Inl (PreflightFailure ''runtime_not_found'' ''Qoder runtime was not found.'')
      | CommandTimedOut \<Rightarrow> Inl (PreflightFailure ''runtime_incompatible'' ''Qoder runtime command timed out.'')
      | CommandRaised e \<Rightarrow> Inl e
      | CommandEnded code out \<Rightarrow> Inr \<lparr>cr_returncode = (case code of None \<Rightarrow> 0 | Some n \<Rightarrow> n),
          cr_stdout = decode (take max_command_output out)\<rparr>)"

definition minimum_runtime_version :: "nat \<times> nat \<times> nat" where
  "minimum_runtime_version = (0, 2, 0)"

text \<open>The pattern of a version at the start of the output: three numbers between dots, after blanks.\<close>

definition version_number :: "string \<Rightarrow> (string \<times> string) option" where
  "version_number s =
     (let ds = takeWhile is_digit s in if ds = [] then None else Some (ds, drop (length ds) s))"

definition version_dot :: "string \<Rightarrow> string option" where
  "version_dot s = (case s of c # t \<Rightarrow> if c = CHR ''.'' then Some t else None | [] \<Rightarrow> None)"

definition runtime_version :: "string \<Rightarrow> (string \<times> string \<times> string) option" where
  "runtime_version s =
     Option.bind (version_number (dropWhile is_py_space s)) (\<lambda>(major, s1).
     Option.bind (version_dot s1) (\<lambda>s2.
     Option.bind (version_number s2) (\<lambda>(minor, s3).
     Option.bind (version_dot s3) (\<lambda>s4.
     Option.bind (version_number s4) (\<lambda>(patch, _). Some (major, minor, patch))))))"

text \<open>\<open>int\<close> of a run of digits, which Python refuses beyond 4300 of them.\<close>

definition max_int_digits :: nat where
  "max_int_digits = 4300"

definition py_int :: "string \<Rightarrow> nat res" where
  "py_int ds =
     (if max_int_digits < length ds
      then Inl (ValueError (''Exceeds the limit (4300 digits) for integer string conversion: value has ''
        @ nat_text (length ds) @ '' digits; use sys.set_int_max_str_digits() to increase the limit''))
      else Inr (nat_of_digits 0 ds))"

fun version_less :: "nat \<times> nat \<times> nat \<Rightarrow> nat \<times> nat \<times> nat \<Rightarrow> bool" where
  "version_less (a, b, c) (x, y, z) = (a < x \<or> a = x \<and> (b < y \<or> b = y \<and> c < z))"

definition version_unreadable :: py_exn where
  "version_unreadable = PreflightFailure ''runtime_incompatible'' ''Unable to read Qoder runtime version.''"

text \<open>What the version command printed, as a version.\<close>

definition accepted_version :: "string \<Rightarrow> string res" where
  "accepted_version stdout =
     (case runtime_version stdout of
        None \<Rightarrow> Inl (PreflightFailure ''runtime_incompatible'' ''Qoder runtime returned an invalid version.'')
      | Some (major, minor, patch) \<Rightarrow>
          res_bind (py_int major) (\<lambda>a. res_bind (py_int minor) (\<lambda>b. res_bind (py_int patch) (\<lambda>c.
          if version_less (a, b, c) minimum_runtime_version
          then Inl (PreflightFailure ''runtime_incompatible'' ''Qoder runtime does not satisfy the SDK minimum version.'')
          else Inr (py_join ''.'' [major, minor, patch])))))"

fun passes_through :: "py_exn \<Rightarrow> bool" where
  "passes_through (PreflightFailure code m) = True"
| "passes_through e = (e = CancelledError)"

definition version_output :: "(string list \<Rightarrow> command_result res) \<Rightarrow> string \<Rightarrow> command_result res" where
  "version_output run executable =
     (case run [executable, ''-v''] of
        Inr r \<Rightarrow> Inr r
      | Inl e \<Rightarrow> Inl (if passes_through e then e else version_unreadable))"

definition resolve_runtime ::
    "runtime_files \<Rightarrow> (string list \<Rightarrow> command_result res) \<Rightarrow> string option \<Rightarrow> runtime_info res" where
  "resolve_runtime fs run explicit_path =
     res_bind (case explicit_path of None \<Rightarrow> bundled_runtime_path fs | Some p \<Rightarrow> resolved_path fs p) (\<lambda>executable.
     res_bind (executable_path fs executable) (\<lambda>_.
     res_bind (version_output run executable) (\<lambda>result.
     res_bind (require (cr_returncode result = 0) version_unreadable) (\<lambda>_.
     res_bind (accepted_version (cr_stdout result)) (\<lambda>version. Inr
       \<lparr>rt_recorded_path = (case explicit_path of None \<Rightarrow> ''bundled'' | Some p \<Rightarrow> executable),
        rt_executable = executable, rt_version = version\<rparr>)))))"

text \<open>A control client: the options it exposes, and what its three calls do.\<close>

record control_client =
  cc_options :: "sdk_options option"
  cc_connect :: "unit res"
  cc_server_info :: "(string \<times> json) list option res"
  cc_disconnect :: "unit res"

definition no_server_info :: py_exn where
  "no_server_info = AdapterDiagnostic ''sdk_protocol_error'' ''Qoder runtime returned no initialization information.''"

definition initialization_failure :: "environ \<Rightarrow> string list \<Rightarrow> py_exn \<Rightarrow> py_exn" where
  "initialization_failure env creds e =
     (if e = CancelledError then e
      else let d = safe_preflight_failure (classify_code OpInitialize e) in PreflightFailure (pd_code d) (pd_message d))"

definition server_capabilities :: "(string \<times> json) list \<Rightarrow> string list" where
  "server_capabilities info =
     (case map_of info ''capabilities'' of
        Some (JDict d) \<Rightarrow> normalize_server_capabilities (map fst d)
      | None \<Rightarrow> normalize_server_capabilities []
      | _ \<Rightarrow> [])"

text \<open>The client is disconnected whatever happened; a cancellation passes through, and the error of the
  connection goes before that of its end.\<close>

definition after_disconnect ::
    "environ \<Rightarrow> string list \<Rightarrow> unit res \<Rightarrow> (string \<times> json) list res \<Rightarrow> string list res" where
  "after_disconnect env creds disconnected body =
     (case disconnected of
        Inl e \<Rightarrow>
          if e = CancelledError then Inl e
          else Inl (initialization_failure env creds (case body of Inl x \<Rightarrow> x | Inr info \<Rightarrow> e))
      | Inr _ \<Rightarrow>
          (case body of
             Inl e \<Rightarrow> Inl (initialization_failure env creds e)
           | Inr info \<Rightarrow> Inr (server_capabilities info)))"

definition initialize_runtime ::
    "environ \<Rightarrow> auth_lib \<Rightarrow> (sdk_options \<Rightarrow> control_client res) \<Rightarrow> string \<Rightarrow> runtime_info \<Rightarrow> auth_selection
     \<Rightarrow> string list res" where
  "initialize_runtime env lib factory cwd runtime auth =
     res_bind (sdk_auth_of lib auth) (\<lambda>a.
     res_bind (build_auditor_options cwd (Some a) (Some (rt_executable runtime)) None False) (\<lambda>options.
     res_bind (factory options) (\<lambda>client.
     let creds = direct_credential_values env (cc_options client);
         body = res_bind (cc_connect client) (\<lambda>_. res_bind (cc_server_info client) (\<lambda>info.
           case info of None \<Rightarrow> Inl no_server_info | Some d \<Rightarrow> Inr d))
     in after_disconnect env creds (cc_disconnect client) body)))"

definition local_login_status ::
    "(string list \<Rightarrow> command_result res) \<Rightarrow> runtime_info \<Rightarrow> bool res" where
  "local_login_status run runtime =
     (case run [rt_executable runtime, ''status''] of
        Inl e \<Rightarrow> if e = CancelledError then Inl e else Inr False
      | Inr result \<Rightarrow> Inr (cr_returncode result = 0))"

definition qoder_backend ::
    "environ \<Rightarrow> auth_lib \<Rightarrow> runtime_files \<Rightarrow> (string list \<Rightarrow> command_result res) \<Rightarrow>
     (sdk_options \<Rightarrow> control_client res) \<Rightarrow> string res \<Rightarrow> backend" where
  "qoder_backend env lib fs run factory sdk_version =
     \<lparr>b_sdk_version = sdk_version, b_resolve_runtime = resolve_runtime fs run,
      b_initialize = initialize_runtime env lib factory, b_local_login_status = local_login_status run\<rparr>"

section \<open>The callbacks bound to a client\<close>

text \<open>The supervisor's callbacks, over a state of its own.\<close>

record 's control_callbacks =
  cb_permission :: "permission_request \<Rightarrow> 's \<Rightarrow> 's \<times> permission_action res"
  cb_elicitation :: "elicitation_request \<Rightarrow> 's \<Rightarrow> 's \<times> (elicitation_action \<times> (string \<times> json) list option) res"

text \<open>The first text that is given and not empty.\<close>

fun first_text :: "string option list \<Rightarrow> string \<Rightarrow> string" where
  "first_text [] dflt = dflt"
| "first_text (None # ts) dflt = first_text ts dflt"
| "first_text (Some t # ts) dflt = (if t = [] then first_text ts dflt else t)"

definition permission_message :: "string \<Rightarrow> tool_context \<Rightarrow> string" where
  "permission_message tool_name ctx =
     first_text [tc_title ctx, tc_display_name ctx, tc_description ctx]
       (''Permission requested for '' @ tool_name @ ''.'')"

definition ask_permission ::
    "'s control_callbacks \<Rightarrow> string \<Rightarrow> json \<Rightarrow> tool_context \<Rightarrow> 's \<Rightarrow> 's \<times> permission_result res" where
  "ask_permission callbacks tool_name tool_input ctx s =
     (case cb_permission callbacks \<lparr>pr_tool_name = tool_name, pr_agent_id = tc_agent_id ctx,
           pr_display_message = permission_message tool_name ctx\<rparr> s of
        (s1, Inl e) \<Rightarrow>
          (s1, if e = CancelledError then Inl e else Inr (PermissionDeny ''Permission denied by supervisor response.''))
      | (s1, Inr AllowAction) \<Rightarrow> (s1, Inr (PermissionAllow tool_input))
      | (s1, Inr DenyAction) \<Rightarrow> (s1, Inr (PermissionDeny ''Permission denied by supervisor response.'')))"

text \<open>\<open>can_use_tool\<close> of \<open>bind_control\<close>, over the policy the options had.\<close>

definition bound_can_use_tool ::
    "'s control_callbacks \<Rightarrow> tool_policy option \<Rightarrow> string \<Rightarrow> json \<Rightarrow> tool_context \<Rightarrow> 's \<Rightarrow> 's \<times> permission_result res"
where
  "bound_can_use_tool callbacks policy tool_name tool_input ctx s =
     (case policy of
        None \<Rightarrow> (s, Inr (PermissionDeny ''Tool permission policy is unavailable.''))
      | Some p \<Rightarrow>
          (case p tool_name tool_input ctx of
             Inl e \<Rightarrow>
               (s, if e = CancelledError then Inl e else Inr (PermissionDeny ''Tool permission policy failed closed.''))
           | Inr (PermissionDeny m) \<Rightarrow> (s, Inr (PermissionDeny m))
           | Inr (PermissionAllow allowed_input) \<Rightarrow>
               if tool_name = submit_audit_tool then (s, Inr (PermissionAllow allowed_input))
               else ask_permission callbacks tool_name tool_input ctx s))"

text \<open>A request of the SDK is a mapping of strings and JSON values; its mode is \<open>form\<close> when absent.\<close>

record sdk_elicitation =
  se_mode :: "json option"
  se_server_name :: "string option"
  se_message :: "string option"
  se_requested_schema :: "json option"

datatype elicitation_result = ElicitationResult elicitation_action "(string \<times> json) list option"

definition elicitation_mode_of :: "json option \<Rightarrow> elicitation_mode option" where
  "elicitation_mode_of mode =
     (case mode of
        None \<Rightarrow> Some FormMode
      | Some v \<Rightarrow> if v = JStr ''form'' then Some FormMode else if v = JStr ''url'' then Some UrlMode else None)"

definition bound_on_elicitation ::
    "'s control_callbacks \<Rightarrow> sdk_elicitation \<Rightarrow> 's \<Rightarrow> 's \<times> elicitation_result res" where
  "bound_on_elicitation callbacks request s =
     (case elicitation_mode_of (se_mode request) of
        None \<Rightarrow> (s, Inr (ElicitationResult CancelAction None))
      | Some mode \<Rightarrow>
          (case (se_server_name request, se_message request) of
             (Some server, Some message) \<Rightarrow>
               (case cb_elicitation callbacks \<lparr>el_server_name = server, el_mode = mode, el_display_message = message,
                     el_requested_schema = (case se_requested_schema request of
                        Some (JDict d) \<Rightarrow> Some (JDict d) | _ \<Rightarrow> None)\<rparr> s of
                  (s1, Inl e) \<Rightarrow> (s1, if e = CancelledError then Inl e else Inr (ElicitationResult CancelAction None))
                | (s1, Inr (action, content)) \<Rightarrow>
                    (s1, Inr (ElicitationResult action (if action = AcceptAction then content else None))))
           | _ \<Rightarrow> (s, Inr (ElicitationResult CancelAction None))))"

text \<open>A client without options of the SDK cannot be bound; binding keeps everything else.\<close>

definition bind_control ::
    "'s control_callbacks \<Rightarrow> sdk_options option
     \<Rightarrow> ((string \<Rightarrow> json \<Rightarrow> tool_context \<Rightarrow> 's \<Rightarrow> 's \<times> permission_result res)
         \<times> (sdk_elicitation \<Rightarrow> 's \<Rightarrow> 's \<times> elicitation_result res)) res" where
  "bind_control callbacks options =
     (case options of
        None \<Rightarrow> Inl (AdapterDiagnostic ''sdk_protocol_error'' ''SDK client does not expose mutable control options.'')
      | Some opts \<Rightarrow> Inr (bound_can_use_tool callbacks (op_can_use_tool opts), bound_on_elicitation callbacks))"

section \<open>The credential file of an aborted client\<close>

text \<open>A path with what the file system says of it: \<open>None\<close> for a call that raises \<open>OSError\<close>.\<close>

record payload_file =
  pf_is_path :: bool
  pf_absolute :: bool
  pf_name :: string
  pf_dir_name :: string
  pf_temp_root :: "string option"
  pf_dir_symlink :: "bool option"
  pf_dir_parent :: "string option"
  pf_dir_exists :: "bool option"
  pf_dir_is_dir :: "bool option"
  pf_symlink :: "bool option"
  pf_exists :: "bool option"
  pf_is_file :: "bool option"
  pf_unlinks :: bool

text \<open>A disjunction of tests evaluated in order, up to the first that holds or raises.\<close>

fun any_of :: "bool option list \<Rightarrow> bool option" where
  "any_of [] = Some False"
| "any_of (None # ts) = None"
| "any_of (Some b # ts) = (if b then Some True else any_of ts)"

definition exists_but_not :: "bool option \<Rightarrow> bool option \<Rightarrow> bool option" where
  "exists_but_not there kind = Option.bind there (\<lambda>t. if t then map_option Not kind else Some False)"

definition foreign_payload :: "payload_file \<Rightarrow> bool option" where
  "foreign_payload f =
     Option.bind (pf_temp_root f) (\<lambda>root. any_of
       [Some (pf_name f \<noteq> ''payload.json''), Some (\<not> starts_with ''qoder-sdk-auth-'' (pf_dir_name f)),
        pf_dir_symlink f, map_option (\<lambda>p. p \<noteq> root) (pf_dir_parent f),
        exists_but_not (pf_dir_exists f) (pf_dir_is_dir f), pf_symlink f,
        exists_but_not (pf_exists f) (pf_is_file f)])"

text \<open>\<open>_cleanup_sdk_auth_payload\<close>: whether the file is unlinked, whether the client forgets it (its
  directory is then removed if it is empty), and whether the credentials are dealt with.\<close>

definition cleanup_auth_payload :: "payload_file option \<Rightarrow> bool \<times> bool \<times> bool" where
  "cleanup_auth_payload payload =
     (case payload of
        None \<Rightarrow> (False, False, True)
      | Some f \<Rightarrow>
          if \<not> pf_is_path f \<or> \<not> pf_absolute f then (False, False, False)
          else (case foreign_payload f of
              Some False \<Rightarrow> if pf_unlinks f then (True, True, True) else (True, False, False)
            | _ \<Rightarrow> (False, False, False)))"

text \<open>An object that may be the pinned transport: its two attributes, \<open>None\<close> where it has no such one.\<close>

record transport_candidate =
  ca_identity :: nat
  ca_process :: "sdk_process option option"
  ca_payload :: "payload_file option option"

fun subprocess_transport ::
    "nat list \<Rightarrow> transport_candidate option list \<Rightarrow> (sdk_process option \<times> payload_file option) option" where
  "subprocess_transport seen [] = None"
| "subprocess_transport seen (None # cs) = subprocess_transport seen cs"
| "subprocess_transport seen (Some c # cs) =
     (if ca_identity c \<in> set seen then subprocess_transport seen cs
      else (case (ca_process c, ca_payload c) of
          (Some process, Some payload) \<Rightarrow> Some (process, payload)
        | _ \<Rightarrow> subprocess_transport (ca_identity c # seen) cs))"

definition abort_client :: "sdk_transport \<Rightarrow> transport_candidate option list \<Rightarrow> sdk_transport" where
  "abort_client t candidates =
     abort_transport t (map_option (\<lambda>(process, payload). (process, snd (snd (cleanup_auth_payload payload))))
       (subprocess_transport [] candidates))"

section \<open>Only the pinned credential file is removed\<close>

lemma any_of_False: "any_of ts = Some False \<longleftrightarrow> (\<forall>t \<in> set ts. t = Some False)"
  by (induction ts rule: any_of.induct) auto

text \<open>The only file an abort unlinks is a regular \<open>payload.json\<close> in a real directory of the SDK's own
  naming directly under the temporary directory, reached through no symbolic link; and the client only
  counts as disconnected when the process is dead and the credentials are gone.\<close>

lemma cleanup_only_pinned:
  assumes "cleanup_auth_payload (Some f) = (True, forgotten, handled)"
  shows "pf_absolute f \<and> pf_name f = ''payload.json'' \<and> starts_with ''qoder-sdk-auth-'' (pf_dir_name f)
     \<and> pf_dir_symlink f = Some False \<and> pf_symlink f = Some False \<and> pf_dir_parent f = pf_temp_root f
     \<and> (pf_exists f = Some True \<longrightarrow> pf_is_file f = Some True) \<and> forgotten = pf_unlinks f \<and> handled = pf_unlinks f"
proof -
  have f: "foreign_payload f = Some False" "pf_absolute f" "forgotten = pf_unlinks f" "handled = pf_unlinks f"
    using assms by (auto simp: cleanup_auth_payload_def split: if_splits option.splits bool.splits)
  then obtain root where "pf_temp_root f = Some root" by (auto simp: foreign_payload_def bind_eq_Some_conv)
  with f show ?thesis
    by (auto simp: foreign_payload_def any_of_False exists_but_not_def simp del: any_of.simps)
qed

section \<open>Tools need the policy and the supervisor\<close>

text \<open>C14: A tool call of an auditor is let through exactly when the auditor's policy allows it for that
  agent and either it submits the report or the supervisor was asked for this tool and agent and
  answered \<open>allow\<close>; the input is the one asked for. Everything else is refused or cancelled, whatever
  the policy, the callbacks or the supervisor raise; a run whose options carry no policy, a coder's, has
  every interactive request refused without the supervisor being asked.\<close>

theorem permission_bridge_exact:
  "(snd (bound_can_use_tool callbacks (Some auditor_can_use_tool) tool tool_input ctx s) = Inr (PermissionAllow i)
     \<longleftrightarrow> i = tool_input
       \<and> (tool = submit_audit_tool \<and> tc_agent_id ctx = None
          \<or> tool \<in> read_only_tools \<union> (if tc_agent_id ctx = None then {''Agent''} else {})
            \<and> snd (cb_permission callbacks \<lparr>pr_tool_name = tool, pr_agent_id = tc_agent_id ctx,
                  pr_display_message = permission_message tool ctx\<rparr> s) = Inr AllowAction))
   \<and> snd (bound_can_use_tool callbacks policy tool tool_input ctx s) \<notin> Inl ` (UNIV - {CancelledError})
   \<and> bound_can_use_tool callbacks None tool tool_input ctx s
     = (s, Inr (PermissionDeny ''Tool permission policy is unavailable.''))"
  (is "?exact \<and> ?caught \<and> ?coder")
proof (intro conjI)
  have other: "submit_audit_tool \<notin> read_only_tools" "submit_audit_tool \<noteq> ''Agent''"
    by (simp_all add: submit_audit_tool_def read_only_tools_def)
  have allow: "snd (ask_permission callbacks tool tool_input ctx s) = Inr (PermissionAllow i) \<longleftrightarrow>
      i = tool_input \<and> snd (cb_permission callbacks \<lparr>pr_tool_name = tool, pr_agent_id = tc_agent_id ctx,
        pr_display_message = permission_message tool ctx\<rparr> s) = Inr AllowAction"
    by (auto simp: ask_permission_def split: prod.split sum.split permission_action.split)
  show ?exact
    using other
    by (cases "allowed (decide tool (tc_agent_id ctx))")
      (auto simp: bound_can_use_tool_def auditor_can_use_tool_def Let_def allow decide_fail_closed)
  show ?caught
    by (auto simp: bound_can_use_tool_def ask_permission_def
        split: option.splits sum.splits permission_result.splits if_splits prod.splits permission_action.splits)
qed (simp add: bound_can_use_tool_def)

section \<open>What a project can change about a run\<close>

definition same_setup :: "effective_config \<Rightarrow> effective_config \<Rightarrow> bool" where
  "same_setup config user \<longleftrightarrow> config\<lparr>cfg_policy := cfg_policy user\<rparr> = user"

lemma configured_same_setup:
  assumes "same_setup config user"
  shows "configured fs (Inr config) env
     = (case configured fs (Inr user) env of Inl e \<Rightarrow> Inl e | Inr (_, auth, runtime) \<Rightarrow> Inr (config, auth, runtime))"
proof -
  have user: "user = config\<lparr>cfg_policy := cfg_policy user\<rparr>" using assms by (simp add: same_setup_def)
  have "select_auth user env = select_auth config env" "configured_runtime fs user = configured_runtime fs config"
    by (subst user, simp add: select_auth_def configured_runtime_def)+
  then show ?thesis by (simp add: configured_def res_bind_def split: sum.split)
qed

text \<open>Helpers that refer to an environment variable, and a bundled runtime.\<close>

definition plain_auth :: auth_lib where
  "plain_auth = \<lparr>al_access_token_from_env = (\<lambda>v. Inr (AccessTokenAuth (CredentialVariable v))),
     al_service_account_from_env = (\<lambda>v. Inr (ServiceAccountAuth (CredentialVariable v))),
     al_qodercli_auth = Inr QoderCliAuth\<rparr>"

definition plain_files :: runtime_files where
  "plain_files = \<lparr>rf_bundled = Some ''/q'', rf_resolve = Some, rf_executable = (\<lambda>p. True)\<rparr>"

text \<open>What becomes of the options when the configuration of a project is taken into account.\<close>

definition narrowed_run :: "bool \<Rightarrow> sdk_options res \<Rightarrow> sdk_options res \<Rightarrow> bool" where
  "narrowed_run free base project =
     (case (base, project) of
        (Inr b, Inr p) \<Rightarrow>
          p\<lparr>op_permission_mode := op_permission_mode b, op_disallowed_tools := op_disallowed_tools b\<rparr> = b
          \<and> (free \<or> permission_rank (op_permission_mode p) \<le> permission_rank (op_permission_mode b)
                 \<and> set (op_disallowed_tools b) \<subseteq> set (op_disallowed_tools p))
      | (Inl e, Inl f) \<Rightarrow> e = f
      | _ \<Rightarrow> False)"



section \<open>What a successful preflight promises\<close>

text \<open>The version numbers a runtime printed.\<close>

definition printed_version :: "string \<Rightarrow> string \<Rightarrow> nat \<times> nat \<times> nat \<Rightarrow> bool" where
  "printed_version stdout version parts \<longleftrightarrow> (\<exists>major minor patch. runtime_version stdout = Some (major, minor, patch)
     \<and> version = py_join ''.'' [major, minor, patch]
     \<and> parts = (nat_of_digits 0 major, nat_of_digits 0 minor, nat_of_digits 0 patch))"

lemma accepted_version_printed:
  assumes "accepted_version stdout = Inr version"
  shows "\<exists>parts. printed_version stdout version parts \<and> \<not> version_less parts minimum_runtime_version"
proof -
  obtain major minor patch where v: "runtime_version stdout = Some (major, minor, patch)"
    using assms by (cases "runtime_version stdout") (auto simp: accepted_version_def)
  then show ?thesis
    using assms by (auto simp: accepted_version_def printed_version_def res_simps py_int_def split: if_splits)
qed

lemma resolved_runtime:
  assumes "resolve_runtime fs run path = Inr rt"
  shows "rf_executable fs (rt_executable rt)
     \<and> (case path of None \<Rightarrow> rf_bundled fs = Some (rt_executable rt) | Some p \<Rightarrow> rf_resolve fs p = Some (rt_executable rt))
     \<and> (\<exists>r parts. run [rt_executable rt, ''-v''] = Inr r \<and> cr_returncode r = 0
          \<and> printed_version (cr_stdout r) (rt_version rt) parts \<and> \<not> version_less parts minimum_runtime_version)"
proof -
  have printed: "version_output run exe = Inr r \<longleftrightarrow> run [exe, ''-v''] = Inr r" for exe r
    by (simp add: version_output_def split: sum.split)
  obtain exe r version where r:
    "(case path of None \<Rightarrow> bundled_runtime_path fs | Some p \<Rightarrow> resolved_path fs p) = Inr exe"
    "rf_executable fs exe" "run [exe, ''-v''] = Inr r" "cr_returncode r = 0"
    "accepted_version (cr_stdout r) = Inr version" "rt_executable rt = exe" "rt_version rt = version"
    using assms
    by (auto simp: resolve_runtime_def res_bind_eq_Inr executable_path_def require_eq_Inr printed)
  moreover have "case path of None \<Rightarrow> rf_bundled fs = Some exe | Some p \<Rightarrow> rf_resolve fs p = Some exe"
    using r(1) by (auto simp: bundled_runtime_path_def resolved_path_def split: option.splits)
  ultimately show ?thesis using accepted_version_printed [OF r(5)] by auto
qed

lemma initialized_runtime:
  assumes "initialize_runtime env lib factory cwd rt auth = Inr caps"
  shows "\<exists>a options client info. sdk_auth_of lib auth = Inr a
     \<and> build_auditor_options cwd (Some a) (Some (rt_executable rt)) None False = Inr options
     \<and> factory options = Inr client \<and> cc_connect client = Inr () \<and> cc_server_info client = Inr (Some info)
     \<and> cc_disconnect client = Inr ()"
proof -
  have ended: "after_disconnect env creds ended body = Inr caps \<longleftrightarrow>
      ended = Inr () \<and> (\<exists>info. body = Inr info \<and> caps = server_capabilities info)" for creds ended body
    by (auto simp: after_disconnect_def split: sum.split)
  have info: "(case i of None \<Rightarrow> Inl no_server_info | Some d \<Rightarrow> Inr d) = Inr info \<longleftrightarrow> i = Some info" for i info
    by (cases i) auto
  show ?thesis
    using assms by (auto simp: initialize_runtime_def res_bind_eq_Inr Let_def ended info)
qed


text \<open>A runtime that prints 0.2.1, and a client that connects.\<close>

definition plain_backend :: "environ \<Rightarrow> backend" where
  "plain_backend env = qoder_backend env plain_auth plain_files (\<lambda>command. Inr \<lparr>cr_returncode = 0, cr_stdout = ''0.2.1 (qoder)''\<rparr>)
     (\<lambda>options. Inr \<lparr>cc_options = Some options, cc_connect = Inr (), cc_server_info = Inr (Some []), cc_disconnect = Inr ()\<rparr>)
     (Inr ''1.0'')"



end
