(* ===== verification/Ulid.thy ===== *)
theory Ulid
  imports Redaction "HOL-Library.Word"
begin

text \<open>
  The identifiers of workers, events and requests: \<open>_new_ulid\<close> of \<open>src/qworker/store.py\<close> and
  \<open>new_request_id\<close> of \<open>src/qworker/control.py\<close>, which are the same function. The clock and the
  random bits are arguments. Before them, what a pattern needs to match at all.
\<close>

unbundle bit_operations_syntax

section \<open>What a pattern needs\<close>

text \<open>A pattern that cannot match without one of some characters.\<close>

primrec rx_uses :: "(char \<Rightarrow> bool) \<Rightarrow> rx \<Rightarrow> bool" where
  "rx_uses P RxEps = False"
| "rx_uses P (RxChar p) = (\<forall>c. p c \<longrightarrow> P c)"
| "rx_uses P (RxSeq a b) = (rx_uses P a \<or> rx_uses P b)"
| "rx_uses P (RxAlt a b) = (rx_uses P a \<and> rx_uses P b)"
| "rx_uses P (RxRep lo hi r) = (0 < lo \<and> rx_uses P r)"
| "rx_uses P (RxNotBehind p) = False"
| "rx_uses P (RxNotAhead p) = False"
| "rx_uses P RxBoundary = False"
| "rx_uses P RxStart = False"
| "rx_uses P RxEnd = False"

lemma rx_match_uses:
  "rx_uses P r \<Longrightarrow> (p, t) \<in> set (rx_match r prev s) \<Longrightarrow> \<exists>c \<in> set s. P c"
proof (induction r arbitrary: p t prev s)
  case (RxSeq a b)
  then obtain p' t' where a: "(p', t') \<in> set (rx_match a prev s)" "(p, t) \<in> set (rx_match b p' t')" by auto
  then have "set t' \<subseteq> set s" by (intro set_mono_suffix rx_match_suffix)
  with RxSeq a show ?case by (auto; blast)
next
  case (RxRep lo hi r)
  then obtain k where "(p, t) \<in> set (rx_repeat (rx_match r) k lo prev s)" and "0 < lo" by auto
  then obtain p' t' where "(p', t') \<in> set (rx_match r prev s)" by (cases k) auto
  with RxRep show ?case by auto
qed (auto split: list.splits if_splits)

lemma rx_search_uses:
  assumes "rx_uses P r" and "list_all (\<lambda>c. \<not> P c) s"
  shows "\<not> rx_search r s"
proof -
  have "rx_match r prev s' = []" if "list_all (\<lambda>c. \<not> P c) s'" for prev s'
    using rx_match_uses [OF assms(1), of _ _ prev s'] that by (auto simp: list_all_iff) (metis neq_Nil_conv old.prod.exhaust list.set_intros(1))
  then have "\<not> rx_search_from r prev s'" if "list_all (\<lambda>c. \<not> P c) s'" for prev s'
    using that by (induction r prev s' rule: rx_search_from.induct) simp_all
  then show ?thesis using assms(2) by (simp add: rx_search_def)
qed

lemma rx_fullmatch_uses: "rx_uses P r \<Longrightarrow> list_all (\<lambda>c. \<not> P c) s \<Longrightarrow> \<not> rx_fullmatch r s"
  by (auto simp: rx_fullmatch_def list_ex_iff list_all_iff dest!: rx_match_uses)

text \<open>A literal is found where it occurs.\<close>

lemma rx_search_alt: "rx_search (RxAlt a b) s \<longleftrightarrow> rx_search a s \<or> rx_search b s"
proof -
  have "rx_search_from (RxAlt a b) prev s \<longleftrightarrow> rx_search_from a prev s \<or> rx_search_from b prev s" for prev
    by (induction s arbitrary: prev) auto
  then show ?thesis by (simp add: rx_search_def)
qed

lemma rx_match_lit_ci: "rx_match (rx_lit_ci t) prev s \<noteq> [] \<longleftrightarrow> prefix t (map to_lower s)"
proof (induction t arbitrary: prev s rule: induct_list012)
  case (2 x)
  then show ?case by (cases s) (auto simp: rx_lit_ci_def)
next
  case (3 x y zs)
  then show ?case by (cases s) (auto simp: rx_lit_ci_def)
qed (simp add: rx_lit_ci_def)

lemma rx_search_lit_ci: "rx_search (rx_lit_ci t) s \<longleftrightarrow> contains t (map to_lower s)"
proof -
  have "rx_search_from (rx_lit_ci t) prev s \<longleftrightarrow> contains t (map to_lower s)" for prev
    by (induction s arbitrary: prev) (auto simp: rx_match_lit_ci starts_with_iff prefix_def)
  then show ?thesis by (simp add: rx_search_def)
qed

lemma contains_map: "contains t (map f s) \<longleftrightarrow> (\<exists>y. contains y s \<and> map f y = t)"
proof
  assume "contains t (map f s)"
  then obtain a b where "map f s = a @ t @ b" by (auto simp: contains_iff)
  then obtain x y z where "s = x @ y @ z" "map f y = t" by (auto simp: map_eq_append_conv append_eq_map_conv)
  then show "\<exists>y. contains y s \<and> map f y = t" by (auto simp: contains_iff)
next
  assume "\<exists>y. contains y s \<and> map f y = t"
  then show "contains t (map f s)" by (auto simp: contains_iff) blast
qed

section \<open>Identifiers\<close>

definition crockford_base32 :: string where
  "crockford_base32 = ''0123456789ABCDEFGHJKMNPQRSTVWXYZ''"

text \<open>The loop, least significant digit first; and the identifier, from the clock in nanoseconds and 80
  random bits.\<close>

fun ulid_characters :: "nat \<Rightarrow> nat \<Rightarrow> string" where
  "ulid_characters 0 v = []"
| "ulid_characters (Suc k) v = crockford_base32 ! (v AND 31) # ulid_characters k (drop_bit 5 v)"

definition ulid_value :: "nat \<Rightarrow> nat \<Rightarrow> nat" where
  "ulid_value time_ns randbits = (push_bit 80 (time_ns div 1000000) OR randbits)"

definition new_ulid :: "nat \<Rightarrow> nat \<Rightarrow> string" where
  "new_ulid time_ns randbits = rev (ulid_characters 26 (ulid_value time_ns randbits))"

definition new_request_id :: "nat \<Rightarrow> nat \<Rightarrow> string" where
  "new_request_id time_ns randbits = rev (ulid_characters 26 (ulid_value time_ns randbits))"

text \<open>Read as arithmetic: the digits of the number \<open>milliseconds * 2 ^ 80 + randbits\<close> to the base 32.\<close>

fun base32_digits :: "nat \<Rightarrow> nat \<Rightarrow> string" where
  "base32_digits 0 v = []"
| "base32_digits (Suc n) v = base32_digits n (v div 32) @ [crockford_base32 ! (v mod 32)]"

section \<open>Their order\<close>

lemma low_digit: "v AND 31 = v mod (32 :: nat)"
proof -
  have "v AND mask 5 = v mod 2 ^ 5" by (simp only: take_bit_eq_mask [symmetric] take_bit_eq_mod)
  moreover have "mask 5 = (31 :: nat)" by (simp add: mask_eq_exp_minus_1)
  ultimately show ?thesis by simp
qed

lemma high_digits: "drop_bit 5 v = v div (32 :: nat)"
  by (simp add: drop_bit_eq_div)

lemma ulid_value_eq:
  assumes "r < 2 ^ 80"
  shows "ulid_value t r = t div 1000000 * 2 ^ 80 + r"
proof -
  have "take_bit 80 r = r" using assms by (simp add: take_bit_nat_eq_self)
  then have "bit r n \<Longrightarrow> n < 80" for n by (metis bit_take_bit_iff)
  then have "push_bit 80 m OR r = push_bit 80 m + r" for m
    by (intro disjunctive_add [symmetric]) (simp add: bit_push_bit_iff, metis not_less)
  then show ?thesis by (simp add: ulid_value_def push_bit_eq_mult)
qed

lemma two_digits:
  assumes "r < b" and "r' < (b :: nat)"
  shows "a * b + r = a' * b + r' \<longleftrightarrow> a = a' \<and> r = r'"
    and "a * b + r < a' * b + r' \<longleftrightarrow> a < a' \<or> a = a' \<and> r < r'"
  using assms mult_le_mono1 [of "Suc a" a' b] mult_le_mono1 [of "Suc a'" a b]
  by (cases a a' rule: linorder_cases; simp)+

lemma length_ulid_characters [simp]: "length (ulid_characters k v) = k"
  by (induction k v rule: ulid_characters.induct) simp_all

lemma ulid_digits: "rev (ulid_characters k v) = base32_digits k v"
  by (induction k v rule: ulid_characters.induct) (simp_all add: low_digit high_digits)

lemma crockford_sorted: "sorted_wrt (<) (map code_point crockford_base32)" "length crockford_base32 = 32"
  by code_simp+

lemma crockford_less:
  assumes "i < 32" and "j < 32"
  shows "code_point (crockford_base32 ! i) < code_point (crockford_base32 ! j) \<longleftrightarrow> i < j"
proof -
  have "code_point (crockford_base32 ! k) < code_point (crockford_base32 ! l)" if "k < l" "l < 32" for k l
    using sorted_wrt_nth_less [OF crockford_sorted(1), of k l] that crockford_sorted(2) by simp
  then show ?thesis using assms by (metis less_asym not_less_iff_gr_or_eq)
qed

lemma crockford_inj: "i < 32 \<Longrightarrow> j < 32 \<Longrightarrow> crockford_base32 ! i = crockford_base32 ! j \<longleftrightarrow> i = j"
  using crockford_less [of i j] crockford_less [of j i] by (metis less_irrefl linorder_neqE_nat)

lemma ulid_characters_inj:
  "v < 32 ^ k \<Longrightarrow> w < 32 ^ k \<Longrightarrow> ulid_characters k v = ulid_characters k w \<longleftrightarrow> v = w"
proof (induction k arbitrary: v w)
  case (Suc k)
  have "v div 32 < 32 ^ k" "w div 32 < 32 ^ k" using Suc.prems by (auto simp: less_mult_imp_div_less)
  moreover have "v = w \<longleftrightarrow> v mod 32 = w mod 32 \<and> v div 32 = w div 32" by (metis div_mult_mod_eq)
  ultimately show ?case by (simp add: Suc.IH low_digit high_digits crockford_inj)
qed simp

definition char_order :: "(char \<times> char) set" where
  "char_order = {(a, b). code_point a < code_point b}"

lemma in_char_order: "(a, b) \<in> char_order \<longleftrightarrow> code_point a < code_point b"
  by (simp add: char_order_def)

lemma lexord_snoc:
  "length xs = length ys \<Longrightarrow>
   (xs @ [a], ys @ [b]) \<in> lexord r \<longleftrightarrow> (xs, ys) \<in> lexord r \<or> (xs = ys \<and> (a, b) \<in> r)"
  by (induction xs ys rule: list_induct2) auto

lemma ulid_characters_order:
  "v < 32 ^ k \<Longrightarrow> w < 32 ^ k \<Longrightarrow>
   (rev (ulid_characters k v), rev (ulid_characters k w)) \<in> lexord char_order \<longleftrightarrow> v < w"
proof (induction k arbitrary: v w)
  case (Suc k)
  have d: "v div 32 < 32 ^ k" "w div 32 < 32 ^ k" using Suc.prems by (auto simp: less_mult_imp_div_less)
  have "v < w \<longleftrightarrow> v div 32 < w div 32 \<or> v div 32 = w div 32 \<and> v mod 32 < w mod 32"
    using div_mult_mod_eq [of v 32] div_mult_mod_eq [of w 32] mod_less_divisor [of 32 v] mod_less_divisor [of 32 w]
    by (cases rule: linorder_cases [of "v div 32" "w div 32"]) linarith+
  then show ?case
    using d by (simp add: Suc.IH low_digit high_digits lexord_snoc ulid_characters_inj in_char_order crockford_less)
qed simp

section \<open>Their characters\<close>

lemma ulid_characters_set: "set (ulid_characters k v) \<subseteq> set crockford_base32"
proof (induction k v rule: ulid_characters.induct)
  case (2 k v)
  have "v AND 31 < length crockford_base32" by (simp add: low_digit crockford_sorted(2))
  then show ?case using 2 by simp
qed simp

lemma metadata_match:
  assumes "is_alnum c" and "length t \<le> 127" and "list_all (alnum_or ''._:-'') t"
  shows "rx_fullmatch rx_metadata (c # t)"
proof -
  have "\<exists>p. (p, []) \<in> set (rx_repeat (rx_match (RxChar q)) k 0 prev u)" if "list_all q u" "length u \<le> k" for q k prev u
    using that
  proof (induction u arbitrary: k prev)
    case Nil
    then show ?case by (cases k) auto
  next
    case (Cons x u)
    then obtain m where "k = Suc m" by (cases k) auto
    with Cons show ?case by auto
  qed
  from this [OF assms(3,2), of "Some c"] assms(1) show ?thesis
    by (fastforce simp: rx_metadata_def rx_fullmatch_def list_ex_iff)
qed

lemma crockford_chars:
  "list_all is_alnum crockford_base32" "list_all (alnum_or ''._:-'') crockford_base32"
  "list_all (\<lambda>c. to_lower c \<notin> set ''ilou._ -'') crockford_base32" "distinct (map to_lower crockford_base32)"
  "''secret'' = map to_lower ''SECRET''" "list_all (\<lambda>c. c \<in> set crockford_base32) ''SECRET''"
  by code_simp+

lemma to_lower_marks [simp]:
  "to_lower CHR ''-'' = CHR ''-''" "to_lower CHR ''_'' = CHR ''_''" "to_lower CHR '' '' = CHR '' ''"
  "to_lower CHR ''.'' = CHR ''.''" "to_lower CHR ''I'' = CHR ''i''"
  by code_simp+

lemma crockford_marker:
  assumes "set s \<subseteq> set crockford_base32"
  shows "rx_search rx_credential_marker s \<longleftrightarrow> contains ''SECRET'' s"
proof -
  let ?P = "\<lambda>c. to_lower c \<in> set ''ilou._ -''"
  have no: "list_all (\<lambda>c. \<not> ?P c) s" using assms crockford_chars(3) by (auto simp: list_all_iff)
  have "\<not> rx_search r s" if "rx_uses ?P r" for r using rx_search_uses [OF that no] .
  then have "rx_search rx_credential_marker s \<longleftrightarrow> rx_search (rx_lit_ci ''secret'') s"
    by (simp add: rx_credential_marker_def rx_credential_key_def Let_def rx_search_alt rx_lit_ci_def rx_class_def)
  also have "\<dots> \<longleftrightarrow> contains ''SECRET'' s"
  proof -
    have inj: "inj_on to_lower (set crockford_base32)" using crockford_chars(4) by (simp add: distinct_map)
    have "map to_lower u = ''secret'' \<longleftrightarrow> u = ''SECRET''" if "set u \<subseteq> set s" for u
    proof -
      have "set u \<union> set ''SECRET'' \<subseteq> set crockford_base32"
        using that assms crockford_chars(6) by (intro Un_least) (auto simp only: list_all_iff)
      then show ?thesis unfolding crockford_chars(5) by (intro inj_on_map_eq_map inj_on_subset [OF inj])
    qed
    then have "contains u s \<Longrightarrow> map to_lower u = ''secret'' \<longleftrightarrow> u = ''SECRET''" for u
      by (simp only: contains_set)
    then show ?thesis
      unfolding rx_search_lit_ci contains_map by (simp cong: conj_cong)
  qed
  finally show ?thesis .
qed

lemma crockford_safe:
  assumes s: "set s \<subseteq> set crockford_base32" and len: "s \<noteq> []" "length s \<le> 128"
  shows "safe_metadata_text s \<longleftrightarrow> \<not> contains ''SECRET'' s"
proof -
  obtain c u where u: "s = c # u" using len(1) by (cases s) auto
  have "rx_fullmatch rx_metadata s"
    using metadata_match [of c u] s len(2) crockford_chars(1,2) by (auto simp: u list_all_iff)
  moreover have "list_all (\<lambda>c. \<not> to_lower c \<in> set ''i.'') s" using s crockford_chars(3) by (auto simp: list_all_iff)
  then have "\<not> rx_fullmatch r s" if "rx_uses (\<lambda>c. to_lower c \<in> set ''i.'') r" for r
    using rx_fullmatch_uses [OF that] by blast
  moreover have "rx_uses (\<lambda>c. to_lower c \<in> set ''i.'') rx_jwt" "rx_uses (\<lambda>c. to_lower c \<in> set ''i.'') rx_aws_access_key"
    by (simp_all add: rx_jwt_def rx_aws_access_key_def rx_lit_def Let_def)
  ultimately show ?thesis using crockford_marker [OF s] by (simp add: safe_metadata_text_def)
qed

section \<open>Identifiers order like time, and are storable\<close>

lemma new_ulid_digits: "r < 2 ^ 80 \<Longrightarrow> new_ulid t r = base32_digits 26 (t div 1000000 * 2 ^ 80 + r)"
  by (simp add: new_ulid_def ulid_digits ulid_value_eq)

text \<open>For times below \<open>2 ^ 50\<close> ms (the year 37000) an identifier determines the millisecond it was drawn in
  and its random bits.\<close>

lemma ulid_determines_draw:
  "length (new_ulid t r) = 26 \<and> set (new_ulid t r) \<subseteq> set crockford_base32
   \<and> (if t div 1000000 < 2 ^ 50 \<and> t' div 1000000 < 2 ^ 50 \<and> r < 2 ^ 80 \<and> r' < 2 ^ 80
      then new_ulid t r = new_ulid t' r' \<longleftrightarrow> t div 1000000 = t' div 1000000 \<and> r = r' else True)"
proof -
  have "new_ulid t r = new_ulid t' r' \<longleftrightarrow> t div 1000000 = t' div 1000000 \<and> r = r'"
    if b: "t div 1000000 < 2 ^ 50" "t' div 1000000 < 2 ^ 50" "r < 2 ^ 80" "r' < 2 ^ 80"
  proof -
    have v: "ulid_value t r < 32 ^ 26" "ulid_value t' r' < 32 ^ 26"
      using b by (auto simp: ulid_value_eq)
    show ?thesis
      using ulid_characters_inj [OF v] two_digits(1) [OF b(3,4)] b(3,4) by (simp add: new_ulid_def ulid_value_eq)
  qed
  then show ?thesis using ulid_characters_set by (simp add: new_ulid_def)
qed

text \<open>C30: Identifiers are 26 characters of Crockford's alphabet that order, character by character, as the
  moments they were drawn in and within a millisecond as their random bits; so two of them are the same
  only for the same millisecond and bits. Such an identifier can be stored (it is safe metadata) exactly when
  its characters do not happen to spell \<open>SECRET\<close>. Requests are named in the same way.\<close>

theorem ulid_exact:
  assumes "t div 1000000 < 2 ^ 50" and "t' div 1000000 < 2 ^ 50" and "r < 2 ^ 80" and "r' < 2 ^ 80"
  shows "length (new_ulid t r) = 26 \<and> set (new_ulid t r) \<subseteq> set crockford_base32
     \<and> ((new_ulid t r, new_ulid t' r') \<in> lexord char_order
          \<longleftrightarrow> t div 1000000 < t' div 1000000 \<or> t div 1000000 = t' div 1000000 \<and> r < r')
     \<and> (new_ulid t r = new_ulid t' r' \<longleftrightarrow> t div 1000000 = t' div 1000000 \<and> r = r')
     \<and> (safe_metadata_text (new_ulid t r) \<longleftrightarrow> \<not> contains ''SECRET'' (new_ulid t r))
     \<and> new_request_id t r = new_ulid t r"
proof (intro conjI)
  have v: "ulid_value t r < 32 ^ 26" "ulid_value t' r' < 32 ^ 26"
    using assms by (auto simp: ulid_value_eq)
  note draw = ulid_determines_draw [of t r t' r']
  then show "length (new_ulid t r) = 26" and set: "set (new_ulid t r) \<subseteq> set crockford_base32" by blast+
  show "(new_ulid t r, new_ulid t' r') \<in> lexord char_order
          \<longleftrightarrow> t div 1000000 < t' div 1000000 \<or> t div 1000000 = t' div 1000000 \<and> r < r'"
    unfolding new_ulid_def ulid_characters_order [OF v] using two_digits(2) [OF assms(3,4)] assms
    by (simp add: ulid_value_eq)
  show "new_ulid t r = new_ulid t' r' \<longleftrightarrow> t div 1000000 = t' div 1000000 \<and> r = r'"
    using draw assms by simp
  show "safe_metadata_text (new_ulid t r) \<longleftrightarrow> \<not> contains ''SECRET'' (new_ulid t r)"
    using crockford_safe [OF set] draw by (cases "new_ulid t r") auto
qed (simp add: new_request_id_def new_ulid_def)

theorem ulid_exact_witness:
  "(new_ulid 1000000 5, new_ulid 2000000 0) \<in> lexord char_order \<and> length (new_ulid 1000000 5) = 26"
  using ulid_exact [of 1000000 2000000 5 0] by simp

end
