(* ===== verification/Approval_Grants.thy ===== *)
theory Approval_Grants
  imports Approval_Handlers Sdk_Options Ulid
begin

text \<open>
  The callbacks of the supervisor behind the permission bridge of the adapter: what a tool that runs
  leaves in the log. A decision that is not a refusal was stored before its callback could see it.
\<close>

section \<open>Entries of the log\<close>

definition log_has :: "string \<Rightarrow> nat \<Rightarrow> (string \<times> string) list \<Rightarrow> event_row list \<Rightarrow> bool" where
  "log_has ty n fs es \<longleftrightarrow> list_ex (\<lambda>ev. e_type ev = ty \<and> e_attempt ev = n
     \<and> list_all (\<lambda>(k, v). jget (e_payload ev) k = Some (JStr v)) fs) (map record_of es)"

lemma log_has_append [simp]: "log_has ty n fs (es @ es') \<longleftrightarrow> log_has ty n fs es \<or> log_has ty n fs es'"
  by (simp add: log_has_def)

lemma row_logged:
  assumes "append_row env wid n ty q now eid db = Inr (d1, ev)" and q: "json_wf q" "sort_keys q = q"
    and f: "list_all (\<lambda>(k, v). jget q k = Some (JStr v)) fs"
  shows "\<exists>rows. events_of wid d1 = events_of wid db @ rows \<and> log_has ty n fs rows"
proof -
  obtain row where row: "appended env wid n ty q now db d1 ev row"
    using append_row_appended [OF assms(1) q(1)] by blast
  then have "log_has ty n fs [row]" using f q(2) by (simp add: log_has_def appended_def)
  then show ?thesis using row by (intro exI [of _ "[row]"]) (simp add: appended_def)
qed

lemma state_appends:
  assumes "append_projected env wid n ''worker.state_changed'' (state_payload st) now eid db = Inr (db', ev)"
  shows "\<exists>rows. events_of wid db' = events_of wid db @ rows"
proof -
  obtain d where a: "append_row env wid n ''worker.state_changed'' (state_payload st) now eid db = Inr (d, ev)"
    and p: "project_event ev d = Inr db'"
    using assms by (auto simp: append_projected_def res_simps)
  have "json_wf (state_payload st)" by (simp add: own_payloads_wf)
  then obtain row where "appended env wid n ''worker.state_changed'' (state_payload st) now db d ev row"
    using append_row_appended [OF a] by blast
  then show ?thesis using project_event_ids [OF p] by (auto simp: appended_def events_of_def)
qed

text \<open>An event, and perhaps a change of state after it.\<close>

definition event_maybe_state ::
    "environ \<Rightarrow> worker_id \<Rightarrow> nat \<Rightarrow> string \<Rightarrow> json \<Rightarrow> db \<Rightarrow> db \<Rightarrow> bool" where
  "event_maybe_state env wid n ty q db db' \<longleftrightarrow>
     (\<exists>now eid eid' st d1 ev. append_row env wid n ty q now eid db = Inr (d1, ev)
        \<and> (db' = d1 \<or> (\<exists>ev'. append_projected env wid n ''worker.state_changed'' (state_payload st) now eid' d1
             = Inr (db', ev'))))"

lemma maybe_state_logged:
  assumes e: "event_maybe_state env wid n ty (sort_keys payload) db db'" and wf: "json_wf payload"
    and f: "list_all (\<lambda>(k, v). jget payload k = Some (JStr v)) fs"
  shows "\<exists>rows. events_of wid db' = events_of wid db @ rows \<and> log_has ty n fs rows"
proof -
  have "list_all (\<lambda>(k, v). jget (sort_keys payload) k = Some (JStr v)) fs"
    using f by (auto simp: list_all_iff jget_sort_keys wf)
  note row = row_logged [OF _ json_wf_sort_keys [OF wf] sort_keys_idem this]
  from e show ?thesis unfolding event_maybe_state_def
    by (elim exE conjE disjE) (auto dest!: row state_appends)
qed

lemma request_appends:
  assumes "record_approval_request env wid n payload now eid eid' db = (db', Inr evs)" and "json_wf payload"
  shows "event_maybe_state env wid n ''approval.requested'' (sort_keys payload) db db'"
  using assms validated_payload_iff [OF assms(2)] unfolding event_maybe_state_def
  by (fastforce simp: record_approval_request_def transaction_def res_simps split: sum.splits if_splits)

lemma resolution_appends:
  assumes "record_approval_resolution env wid n payload restore now eid eid' db = (db', Inr evs)" and "json_wf payload"
  shows "event_maybe_state env wid n ''approval.resolved'' (sort_keys payload) db db'"
  using assms validated_payload_iff [OF assms(2)] unfolding event_maybe_state_def
  by (fastforce simp: record_approval_resolution_def transaction_def res_simps split: sum.splits if_splits)

section \<open>A request on its way to a decision\<close>

fun decides :: "approval_request \<Rightarrow> approval_decision \<Rightarrow> bool" where
  "decides (PermissionRequest r) (PermissionDecision a) = True"
| "decides (ElicitationRequest r) (ElicitationDecision a x) = True"
| "decides _ _ = False"

definition decision_ok :: "string \<Rightarrow> nat \<Rightarrow> approval_request \<Rightarrow> event_row list \<Rightarrow> approval_decision \<Rightarrow> bool" where
  "decision_ok rid n q es d \<longleftrightarrow> decides q d \<and> (approval_status d = ''denied''
     \<or> log_has ''approval.resolved'' n [(''request_id'', rid), (''status'', approval_status d)] es)"

text \<open>What holds of the request \<open>rid\<close> of a worker's attempt from the moment the log was \<open>es\<close>.\<close>

definition grant_ok :: "sup_conf \<Rightarrow> string \<Rightarrow> worker_id \<Rightarrow> nat \<Rightarrow> approval_request \<Rightarrow> event_row list \<Rightarrow> sup \<Rightarrow> bool" where
  "grant_ok c rid wid n q es s \<longleftrightarrow>
     (\<forall>p. map_of (s_pending s) rid = Some p \<longrightarrow>
        pa_worker_id p = wid \<and> pa_attempt p = n \<and> pa_request p = kept_request q)
     \<and> (\<forall>i \<ge> s_draws s. c_id c i \<noteq> rid)
     \<and> prefix es (events_of wid (s_db s))
     \<and> (\<forall>d. map_of (s_answers s) rid = Some d \<longrightarrow> decision_ok rid n q (drop (length es) (events_of wid (s_db s))) d)"

definition grant_kept ::
    "sup_conf \<Rightarrow> string \<Rightarrow> worker_id \<Rightarrow> nat \<Rightarrow> approval_request \<Rightarrow> event_row list \<Rightarrow> sup \<Rightarrow> sup \<Rightarrow> bool" where
  "grant_kept c rid wid n q es s t \<longleftrightarrow>
     (sup_ok c s \<and> grant_ok c rid wid n q es s \<longrightarrow> sup_ok c t \<and> grant_ok c rid wid n q es t)"

lemma decision_ok_grows: "decision_ok rid n q es d \<Longrightarrow> prefix es es' \<Longrightarrow> decision_ok rid n q es' d"
  by (auto simp: decision_ok_def prefix_def)

lemma call_grows:
  assumes "sup_ok c s" and "store_call (c_env c) k (\<lambda>i. c_id c (s_draws s + i)) (s_db s) db"
  shows "prefix (events_of wid (s_db s)) (events_of wid db)"
  using event_log.grows [OF reachable_ok, of "c_env c" "s_db s" db] assms by (simp add: sup_ok_def store_call_def)

lemma prefix_drop: "prefix xs ys \<Longrightarrow> prefix (drop k xs) (drop k ys)"
  by (auto simp: prefix_def)

lemma grant_ok_store:
  assumes "sup_ok c s" and "store_call (c_env c) k (\<lambda>i. c_id c (s_draws s + i)) (s_db s) db"
    and "grant_ok c rid wid n q es s"
  shows "grant_ok c rid wid n q es (s\<lparr>s_db := db, s_draws := s_draws s + k\<rparr>)"
  using assms(3) call_grows [OF assms(1,2), of wid]
  by (auto simp: grant_ok_def intro: prefix_order.trans decision_ok_grows prefix_drop)

lemma decides_kept [simp]: "decides (kept_request q) d = decides q d"
  by (cases q; cases d) simp_all

lemma decides_parsed: "parse_approval_response lib q response snap = Inr d \<Longrightarrow> decides q d"
  by (cases q) (auto simp: parse_approval_response_def response_error_def Let_def res_simps
      split: if_splits option.splits json.splits)

lemma default_decides: "decides q (default_decision q)" "approval_status (default_decision q) = ''denied''"
  by (cases q; simp)+

lemma grant_ok_answer:
  assumes g: "grant_ok c rid wid n q es s"
    and d: "r = rid \<Longrightarrow> \<not> has_key rid (s_answers s) \<Longrightarrow> decision_ok rid n q (drop (length es) (events_of wid (s_db s))) d"
  shows "grant_ok c rid wid n q es (answer r d s)"
  using assms by (auto simp: grant_ok_def answer_def has_key_map_of)

lemma grant_ok_resolved:
  assumes ok: "sup_ok c s" and g: "grant_ok c rid wid n q es s" and p: "map_of (s_pending s) r = Some p"
    and res: "resolution_of c r p d s = (db, Inr evs)"
    and parse: "parse_approval_response (c_lib c) (pa_request p) response (pa_snapshot p) = Inr d"
  shows "grant_ok c rid wid n q es (answer r d (s\<lparr>s_db := db, s_draws := s_draws s + 2\<rparr>))"
proof (rule grant_ok_answer)
  have call: "store_call (c_env c) 2 (\<lambda>i. c_id c (s_draws s + i)) (s_db s) db"
    using resolution_call [of c s r p d] res by simp
  show "grant_ok c rid wid n q es (s\<lparr>s_db := db, s_draws := s_draws s + 2\<rparr>)"
    by (rule grant_ok_store [OF ok call g])
  assume "r = rid"
  with g p have q: "pa_worker_id p = wid" "pa_attempt p = n" "pa_request p = kept_request q"
    and pre: "prefix es (events_of wid (s_db s))" by (auto simp: grant_ok_def)
  have "event_maybe_state (c_env c) wid n ''approval.resolved'' (sort_keys (resolved_payload r d)) (s_db s) db"
    using resolution_appends [OF res [unfolded resolution_of_def] resolved_payload_wf] q by simp
  from maybe_state_logged [OF this resolved_payload_wf, of "[(''request_id'', r), (''status'', approval_status d)]"]
  obtain rows where "events_of wid db = events_of wid (s_db s) @ rows"
      "log_has ''approval.resolved'' n [(''request_id'', r), (''status'', approval_status d)] rows"
    by (auto simp: resolved_payload_def)
  moreover have "decides q d" using decides_parsed [OF parse] q by simp
  ultimately show "decision_ok rid n q
      (drop (length es) (events_of wid (s_db (s\<lparr>s_db := db, s_draws := s_draws s + 2\<rparr>)))) d"
    using pre \<open>r = rid\<close> by (auto simp: decision_ok_def prefix_def)
qed

lemma grant_ok_ask:
  assumes ok: "sup_ok c s" and g: "grant_ok c rid wid n q es s"
    and d: "approval_display (c_env c) (c_id c (s_draws s)) k (kept_request q') snap = Inr (Some d)"
  shows "grant_ok c rid wid n q es (fst (ask c u k q' snap d (c_id c (s_draws s)) s))"
proof -
  let ?rid = "c_id c (s_draws s)"
  obtain db r where a: "record_approval_request (c_env c) u k (approval_payload d) (c_now c (s_draws s))
      (c_id c (Suc (s_draws s))) (c_id c (s_draws s + 2)) (s_db s) = (db, r)" by fastforce
  have new: "\<not> has_key ?rid (s_pending s)" "?rid \<noteq> rid" using ok g by (simp_all add: sup_ok_def grant_ok_def)
  have "store_call (c_env c) 3 (\<lambda>i. c_id c (s_draws s + i)) (s_db s) db"
    using store_calls'(4) [OF display_wf [OF d], of "c_env c" "\<lambda>i. c_id c (s_draws s + i)" "s_db s" u k
        "c_now c (s_draws s)"] a by simp
  from grant_ok_store [OF ok this g] new(2) show ?thesis
    by (cases r) (auto simp: ask_eq [OF a new(1)] grant_ok_def map_add_def split: option.splits if_splits)
qed

interpretation approval_grant: handler_relation "grant_kept c rid wid n q es" c for c rid wid n q es
proof unfold_locales
  show "grant_kept c rid wid n q es s (s\<lparr>s_db := db, s_draws := s_draws s + k\<rparr>)"
    if "store_call (c_env c) k (\<lambda>i. c_id c (s_draws s + i)) (s_db s) db" for s db k
    using sup_ok_store [OF _ that] grant_ok_store [OF _ that] by (simp add: grant_kept_def)
  show "grant_kept c rid wid n q es s (fst (ask c u k q' snap d (c_id c (s_draws s)) s))"
    if "approval_display (c_env c) (c_id c (s_draws s)) k (kept_request q') snap = Inr (Some d)" for s k q' snap d u
    using sup_ok_ask [OF _ that] grant_ok_ask [OF _ _ that] by (simp add: grant_kept_def)
  show "grant_kept c rid wid n q es s (answer r (default_decision (pa_request p)) s)"
    if "(r, p) \<in> set (s_pending s) \<or> has_key r (s_answers s)" for s r p
    unfolding grant_kept_def
  proof (intro impI conjI; elim conjE)
    assume ok: "sup_ok c s" and g: "grant_ok c rid wid n q es s"
    show "sup_ok c (answer r (default_decision (pa_request p)) s)"
      using that ok by (auto simp: has_key_member intro: sup_ok_answer)
    show "grant_ok c rid wid n q es (answer r (default_decision (pa_request p)) s)"
    proof (rule grant_ok_answer [OF g])
      assume r: "r = rid" "\<not> has_key rid (s_answers s)"
      then have "map_of (s_pending s) rid = Some p" using that ok by (simp add: sup_ok_def)
      then have "pa_request p = kept_request q" using g by (simp add: grant_ok_def)
      then show "decision_ok rid n q (drop (length es) (events_of wid (s_db s))) (default_decision (pa_request p))"
        using default_decides [of "pa_request p"] by (simp add: decision_ok_def)
    qed
  qed
  show "grant_kept c rid wid n q es s (answer r d (s\<lparr>s_db := db, s_draws := s_draws s + 2\<rparr>))"
    if "map_of (s_pending s) r = Some p" "resolution_of c r p d s = (db, Inr evs)"
      "parse_approval_response (c_lib c) (pa_request p) response (pa_snapshot p) = Inr d" for s r p d db evs response
    using sup_ok_resolved [OF _ that(1,2)] grant_ok_resolved [OF _ _ that] by (simp add: grant_kept_def)
qed (simp_all add: grant_kept_def sup_ok_pop, simp_all add: grant_ok_def sup_ok_def undrawn_def)

section \<open>Waiting for a decision\<close>

text \<open>The rest of \<open>_request_approval\<close>: the request waits while other handlers run (\<open>turn\<close>); a wait that
  ends without an answer was cancelled, and takes its request with it.\<close>

definition approval_wait ::
    "sup_conf \<Rightarrow> worker_id \<Rightarrow> nat \<Rightarrow> (sup \<Rightarrow> sup) \<Rightarrow> approval_request \<Rightarrow> sup \<Rightarrow> sup \<times> approval_decision res" where
  "approval_wait c wid n turn q s =
     (case request_approval c wid n q s of
        (s1, Inl e) \<Rightarrow> (s1, Inl e)
      | (s1, Inr (Inl decision)) \<Rightarrow> (s1, Inr decision)
      | (s1, Inr (Inr rid)) \<Rightarrow>
          (case map_of (s_answers (turn s1)) rid of
             Some decision \<Rightarrow> (turn s1, Inr decision)
           | None \<Rightarrow> (fst (abandon_approval rid (turn s1)), Inl CancelledError)))"

text \<open>The callbacks that \<open>_run_worker\<close> binds to its transport. A decision of the other kind is never
  returned (\<open>wait_decides\<close>).\<close>

fun permission_of :: "approval_decision \<Rightarrow> permission_action" where
  "permission_of (PermissionDecision a) = a"
| "permission_of _ = DenyAction"

fun elicitation_of :: "approval_decision \<Rightarrow> elicitation_action \<times> (string \<times> json) list option" where
  "elicitation_of (ElicitationDecision a x) = (a, x)"
| "elicitation_of _ = (CancelAction, None)"

definition supervisor_callbacks :: "sup_conf \<Rightarrow> worker_id \<Rightarrow> nat \<Rightarrow> (sup \<Rightarrow> sup) \<Rightarrow> sup control_callbacks" where
  "supervisor_callbacks c wid n turn =
     \<lparr>cb_permission = (\<lambda>r s. map_prod id (map_sum id permission_of) (approval_wait c wid n turn (PermissionRequest r) s)),
      cb_elicitation = (\<lambda>r s. map_prod id (map_sum id elicitation_of) (approval_wait c wid n turn (ElicitationRequest r) s))\<rparr>"

fun request_fields :: "approval_request \<Rightarrow> (string \<times> string) list" where
  "request_fields (PermissionRequest r) = [(''kind'', ''tool_permission''), (''tool_name'', pr_tool_name r)]"
| "request_fields (ElicitationRequest r) = [(''kind'', ''elicitation'')]"

lemma display_fields:
  "approval_display env rid n (kept_request q) snap = Inr (Some d) \<Longrightarrow>
   list_all (\<lambda>(k, v). jget (approval_payload d) k = Some (JStr v)) ((''request_id'', rid) # request_fields q)"
  by (cases q) (auto simp: approval_display_def approval_payload_def Let_def res_simps assoc_pop_def split: if_splits)

text \<open>A request that waits is in the log, and its decision will be.\<close>

lemma request_starts:
  assumes ok: "sup_ok c s" and r: "request_approval c wid n q s = (t, Inr (Inr rid))"
  shows "sup_ok c t \<and> grant_ok c rid wid n q (events_of wid (s_db t)) t
     \<and> (\<exists>rows. events_of wid (s_db t) = events_of wid (s_db s) @ rows
          \<and> log_has ''approval.requested'' n ((''request_id'', rid) # request_fields q) rows)"
proof -
  obtain found snap d where a: "get_worker wid (s_db s) = Inr found" "can_ask wid n found s"
      "request_snapshot (c_lib c) q = Inr snap"
      "approval_display (c_env c) (c_id c (s_draws s)) n (kept_request q) snap = Inr (Some d)"
    using request_declines [OF _ r] by fastforce
  obtain db r' where b: "record_approval_request (c_env c) wid n (approval_payload d) (c_now c (s_draws s))
      (c_id c (Suc (s_draws s))) (c_id c (s_draws s + 2)) (s_db s) = (db, r')" by fastforce
  have new: "\<not> has_key (c_id c (s_draws s)) (s_pending s)" "\<not> has_key (c_id c (s_draws s)) (s_answers s)"
    using ok by (simp_all add: sup_ok_def)
  note t = request_asks [OF a] r ask_eq [OF b new(1), of q snap]
  obtain evs where e: "r' = Inr evs" using t by (cases r') (auto split: py_exn.splits)
  have rid: "rid = c_id c (s_draws s)" and tp: "s_pending t = s_pending s @ [(rid, \<lparr>pa_worker_id = wid, pa_attempt = n,
      pa_request = kept_request q, pa_snapshot = snap, pa_display = d\<rparr>)]"
    and t': "s_db t = db" "s_draws t = s_draws s + 3" "s_answers t = s_answers s"
    using t e by auto
  have okt: "sup_ok c t" using sup_ok_ask [OF ok a(4), of wid] request_asks [OF a] r by (metis fst_conv)
  have "c_id c i \<noteq> rid" if "s_draws s + 3 \<le> i" for i using ok that rid by (auto simp: sup_ok_def dest: injD)
  then have "grant_ok c rid wid n q (events_of wid (s_db t)) t"
    using new rid tp t' by (auto simp: grant_ok_def has_key_map_of)
  moreover have "event_maybe_state (c_env c) wid n ''approval.requested'' (sort_keys (approval_payload d)) (s_db s) db"
    using request_appends [OF b [unfolded e] display_wf [OF a(4)]] .
  from maybe_state_logged [OF this display_wf [OF a(4)] display_fields [OF a(4)]]
  have "\<exists>rows. events_of wid db = events_of wid (s_db s) @ rows
      \<and> log_has ''approval.requested'' n ((''request_id'', rid) # request_fields q) rows"
    by (simp add: rid)
  ultimately show ?thesis using okt t' by simp
qed

lemma wait_decides:
  assumes ok: "sup_ok c s" and turn: "\<And>u. (sup_step c)\<^sup>*\<^sup>* u (turn u)"
    and w: "approval_wait c wid n turn q s = (t, Inr d)"
  shows "decides q d \<and> (approval_status d = ''denied''
     \<or> (\<exists>rid asked decided. events_of wid (s_db t) = events_of wid (s_db s) @ asked @ decided
          \<and> log_has ''approval.requested'' n ((''request_id'', rid) # request_fields q) asked
          \<and> log_has ''approval.resolved'' n [(''request_id'', rid), (''status'', approval_status d)] decided))"
proof -
  obtain s1 r where r: "request_approval c wid n q s = (s1, r)" by fastforce
  show ?thesis
  proof (cases "\<exists>rid. r = Inr (Inr rid)")
    case True
    then obtain rid where rid: "r = Inr (Inr rid)" by blast
    from request_starts [OF ok r [unfolded rid]] obtain rows where a: "sup_ok c s1"
        "grant_ok c rid wid n q (events_of wid (s_db s1)) s1"
        "events_of wid (s_db s1) = events_of wid (s_db s) @ rows"
        "log_has ''approval.requested'' n ((''request_id'', rid) # request_fields q) rows" by blast
    have d: "t = turn s1" "map_of (s_answers t) rid = Some d"
      using w r rid by (auto simp: approval_wait_def split: option.splits)
    have "grant_ok c rid wid n q (events_of wid (s_db s1)) t"
      using approval_grant.steps_rel [OF turn [of s1]] a d by (simp add: grant_kept_def)
    then have "decision_ok rid n q (drop (length (events_of wid (s_db s1))) (events_of wid (s_db t))) d"
      and "prefix (events_of wid (s_db s1)) (events_of wid (s_db t))"
      using d by (simp_all add: grant_ok_def)
    then obtain decided where "events_of wid (s_db t) = events_of wid (s_db s1) @ decided"
      "decision_ok rid n q decided d" by (auto simp: prefix_def)
    then show ?thesis using a by (auto simp: decision_ok_def)
  next
    case False
    then have "d = default_decision q"
      using w r request_outcome [OF ok r] by (auto simp: approval_wait_def split: sum.splits)
    then show ?thesis using default_decides by simp
  qed
qed

section \<open>Tools that run\<close>

text \<open>C3: A tool of an auditor runs only with a recorded approval. When the permission bridge, bound to the
  callbacks of the supervisor, lets a tool other than the submission of the report through, the policy
  allows it for that agent, and between the call and its answer the worker's log has gained, for this
  attempt, a request for this tool and after it the resolution of that very request as allowed;
  whatever other handlers ran meanwhile.\<close>

theorem tools_need_recorded_approval:
  assumes "sup_ok c s" and "\<And>u. (sup_step c)\<^sup>*\<^sup>* u (turn u)" and "tool \<noteq> submit_audit_tool"
    and "bound_can_use_tool (supervisor_callbacks c wid n turn) (Some auditor_can_use_tool) tool tool_input ctx s
      = (t, Inr (PermissionAllow i))"
  shows "i = tool_input \<and> allowed (decide tool (tc_agent_id ctx))
     \<and> (\<exists>rid asked decided. events_of wid (s_db t) = events_of wid (s_db s) @ asked @ decided
          \<and> log_has ''approval.requested'' n
              [(''request_id'', rid), (''kind'', ''tool_permission''), (''tool_name'', tool)] asked
          \<and> log_has ''approval.resolved'' n [(''request_id'', rid), (''status'', ''allowed'')] decided)"
proof -
  have policy: "allowed (decide tool (tc_agent_id ctx))"
    and ask: "ask_permission (supervisor_callbacks c wid n turn) tool tool_input ctx s = (t, Inr (PermissionAllow i))"
    using assms(3,4) by (auto simp: bound_can_use_tool_def auditor_can_use_tool_def Let_def split: if_splits)
  define q where "q = PermissionRequest \<lparr>pr_tool_name = tool, pr_agent_id = tc_agent_id ctx,
      pr_display_message = permission_message tool ctx\<rparr>"
  obtain d where "i = tool_input" "permission_of d = AllowAction" and w: "approval_wait c wid n turn q s = (t, Inr d)"
    using ask by (cases "approval_wait c wid n turn q s"; cases "snd (approval_wait c wid n turn q s)")
      (auto simp: ask_permission_def supervisor_callbacks_def q_def split: permission_action.splits if_splits)
  then have d: "d = PermissionDecision AllowAction" by (cases d) simp_all
  from wait_decides [OF assms(1,2) w] policy \<open>i = tool_input\<close> show ?thesis by (simp add: d q_def)
qed

text \<open>An auditor reads a file, and the caller allows it.\<close>

definition sample_ctx :: tool_context where
  "sample_ctx = \<lparr>tc_agent_id = None, tc_title = None, tc_display_name = None, tc_description = None\<rparr>"

definition sample_turn :: "sup \<Rightarrow> sup" where
  "sample_turn s = fst (respond sample_conf ''w'' ''u'' [(''action'', JStr ''allow'')] s)"

definition sample_read :: approval_request where
  "sample_read = PermissionRequest \<lparr>pr_tool_name = ''Read'', pr_agent_id = None,
     pr_display_message = permission_message ''Read'' sample_ctx\<rparr>"

lemma sample_read_prompt:
  "safe_metadata_text ''Read''" "safe_display_value no_env (JStr ''Allow tool Read for this turn?'')"
proof -
  let ?t = "''Allow tool Read for this turn?''" and ?P = "\<lambda>c. to_lower c \<in> set ''kbcpz.''"
  have t: "list_all (\<lambda>c. \<not> ?P c) ?t" "single_line ?t" "to_lower CHR ''.'' = CHR ''.''" by code_simp+
  have "rx_uses ?P rx_keyed_credential" "rx_uses ?P rx_inline_credential"
    by (simp_all add: rx_keyed_credential_def rx_inline_credential_def Let_def rx_lit_ci_def rx_lit_def t(3))
  note rx_search_uses [OF this(1) t(1)] rx_search_uses [OF this(2) t(1)]
  then show "safe_display_value no_env (JStr ?t)"
    using t(2) by (simp add: safe_display_value_def env_secrets_def credential_env_vars_def no_env_def List.map_filter_def)
  show "safe_metadata_text ''Read''" by code_simp
qed


lemma sample_read_allowed:
  "\<exists>t. approval_wait sample_conf ''w'' 1 sample_turn sample_read sample_live
     = (t, Inr (PermissionDecision AllowAction))"
proof -
  define d where "d = [(''request_id'', JStr ''u''), (''attempt'', JInt (int 1)), (''kind'', JStr ''tool_permission''),
    (''tool_name'', JStr ''Read''), (''prompt'', JStr ''Allow tool Read for this turn?''), (''choices'', permission_choices)]"
  have d: "approval_display no_env ''u'' 1 (kept_request sample_read) None = Inr (Some d)"
    using sample_read_prompt(1) by (simp add: approval_display_def sample_read_def d_def)
  obtain payload where v: "validated_payload no_env ''approval.requested'' (approval_payload d) = Inr payload"
    using permission_storable [OF sample_prompt(3) sample_read_prompt(1), of "[]" no_env "int 1"
        "''Allow tool Read for this turn?''"] sample_read_prompt(2) by (auto simp: d_def)
  have "request_snapshot accept_all sample_read = Inr None" by (simp add: sample_read_def)
  from sample_asks [OF this d v] obtain t p where
      a: "request_approval sample_conf ''w'' 1 sample_read sample_live = (t, Inr (Inr ''u''))"
      "s_pending t = [(''u'', p)]" "pa_request p = kept_request sample_read" "pa_worker_id p = ''w''" "pa_attempt p = 1"
      "pa_snapshot p = None" "s_live t = [(''w'', 1)]" "s_answers t = []" by blast
  obtain w where w: "find_worker ''w'' (s_db t) = Some w" "w_attempt w = 1" "w_state w = RequiresAction"
    using request_outcome [OF sample_live_ok a(1)] by auto
  have "parse_approval_response accept_all (kept_request sample_read) [(''action'', JStr ''allow'')] None
      = Inr (PermissionDecision AllowAction)"
    by (simp add: parse_approval_response_def sample_read_def only_fields_def)
  then have "accepted_response sample_conf ''w'' ''u'' [(''action'', JStr ''allow'')] t
      = Some (PermissionDecision AllowAction)" using a w by (simp add: accepted_response_def)
  moreover have "sup_ok sample_conf t" using request_starts [OF sample_live_ok a(1)] by simp
  ultimately obtain t' where "respond sample_conf ''w'' ''u'' [(''action'', JStr ''allow'')] t
      = (t', Inr [(''request_id'', JStr ''u''), (''status'', JStr ''allowed'')])"
      "t' = answer ''u'' (PermissionDecision AllowAction) (t\<lparr>s_db := s_db t', s_draws := s_draws t + 2\<rparr>)"
    using respond_succeeds by fastforce
  moreover from arg_cong [OF this(2), of s_answers] have "map_of (s_answers t') ''u'' = Some (PermissionDecision AllowAction)"
    using a(8) by (simp add: answer_def has_key_def)
  ultimately show ?thesis unfolding approval_wait_def a(1) by (simp add: sample_turn_def)
qed

theorem tools_need_recorded_approval_witness:
  "\<exists>t asked decided. bound_can_use_tool (supervisor_callbacks sample_conf ''w'' 1 sample_turn)
        (Some auditor_can_use_tool) ''Read'' JNull sample_ctx sample_live = (t, Inr (PermissionAllow JNull))
     \<and> events_of ''w'' (s_db t) = events_of ''w'' sample_running @ asked @ decided
     \<and> log_has ''approval.resolved'' 1 [(''status'', ''allowed'')] decided"
proof -
  obtain t where "approval_wait sample_conf ''w'' 1 sample_turn sample_read sample_live
      = (t, Inr (PermissionDecision AllowAction))" using sample_read_allowed by blast
  moreover have "allowed (decide ''Read'' None)" "''Read'' \<noteq> submit_audit_tool"
    by (simp_all add: decide_def visible_tools_def submit_audit_tool_def)
  ultimately have r: "bound_can_use_tool (supervisor_callbacks sample_conf ''w'' 1 sample_turn)
      (Some auditor_can_use_tool) ''Read'' JNull sample_ctx sample_live = (t, Inr (PermissionAllow JNull))"
    by (simp add: bound_can_use_tool_def auditor_can_use_tool_def ask_permission_def supervisor_callbacks_def
        sample_read_def sample_ctx_def)
  have "(sup_step sample_conf)\<^sup>*\<^sup>* u (sample_turn u)" for u
    unfolding sample_turn_def by (intro r_into_rtranclp sup_step.responded)
  from tools_need_recorded_approval [OF sample_live_ok this \<open>''Read'' \<noteq> submit_audit_tool\<close> r] r show ?thesis
    by (fastforce simp: log_has_def list_ex_iff)
qed

end
