(* ===== verification/Report_Schema.thy ===== *)
theory Report_Schema
  imports Audit_Report
begin

text \<open>
  The JSON schema that \<open>src/qworker/audit_report.py\<close> offers to the model as the input of the
  \<open>submit_audit\<close> tool, and its agreement with the parser that later decides over a report.

  What a schema means is the JSON Schema standard, for the keywords this one uses.
\<close>

section \<open>The schema\<close>

definition audit_report_outcomes :: "string list" where
  "audit_report_outcomes = [''completed'', ''partial'', ''blocked'']"

definition string_schema :: json where
  "string_schema = JDict [(''type'', JStr ''string'')]"

definition string_array_schema :: json where
  "string_array_schema = JDict [(''type'', JStr ''array''), (''items'', string_schema)]"

definition finding_schema :: json where
  "finding_schema = JDict
     [(''type'', JStr ''object''),
      (''properties'', JDict
        [(''severity'', string_schema), (''evidence'', string_schema),
         (''affected_requirement_or_location'', JDict
            [(''anyOf'', JList [string_schema, JDict [(''type'', JStr ''null'')]])])]),
      (''required'', jstrings [''severity'', ''evidence'', ''affected_requirement_or_location'']),
      (''additionalProperties'', JBool False)]"

definition audit_report_schema :: json where
  "audit_report_schema = JDict
     [(''type'', JStr ''object''),
      (''properties'', JDict
        [(''outcome'', JDict [(''type'', JStr ''string''), (''enum'', jstrings (sort audit_report_outcomes))]),
         (''summary'', string_schema), (''files'', string_array_schema), (''validation'', string_array_schema),
         (''risks'', string_array_schema), (''verdict'', string_schema), (''confirmed'', string_array_schema),
         (''findings'', JDict [(''type'', JStr ''array''), (''items'', finding_schema)]),
         (''required_changes'', string_array_schema)]),
      (''required'', jstrings (sort audit_report_keys)),
      (''additionalProperties'', JBool False)]"

section \<open>What a schema accepts\<close>

definition type_is :: "string \<Rightarrow> json \<Rightarrow> bool" where
  "type_is t v =
     (case v of
        JNull \<Rightarrow> t = ''null''
      | JBool b \<Rightarrow> t = ''boolean''
      | JInt i \<Rightarrow> t \<in> {''integer'', ''number''}
      | JFloat f \<Rightarrow> t = ''number''
      | JStr s \<Rightarrow> t = ''string''
      | JList xs \<Rightarrow> t = ''array''
      | JDict d \<Rightarrow> t = ''object''
      | JOpaque \<Rightarrow> False)"

definition property_names :: "(string \<times> json) list \<Rightarrow> string list" where
  "property_names s = (case map_of s ''properties'' of Some (JDict ps) \<Rightarrow> map fst ps | _ \<Rightarrow> [])"

fun closed_object :: "json \<Rightarrow> string list \<Rightarrow> json \<Rightarrow> bool" where
  "closed_object (JBool False) names (JDict d) = (\<forall>k \<in> set (map fst d). k \<in> set names)"
| "closed_object _ names v = True"

fun has_required :: "json \<Rightarrow> json \<Rightarrow> bool" where
  "has_required (JList ks) (JDict d) =
     (\<forall>k \<in> set ks. (case k of JStr n \<Rightarrow> has_key n d | _ \<Rightarrow> True))"
| "has_required x v = True"

definition type_matches :: "json \<Rightarrow> json \<Rightarrow> bool" where
  "type_matches x v = (case x of JStr t \<Rightarrow> type_is t v | _ \<Rightarrow> True)"

definition in_enum :: "json \<Rightarrow> json \<Rightarrow> bool" where
  "in_enum x v = (case x of JList vs \<Rightarrow> v \<in> set vs | _ \<Rightarrow> True)"

fun schema_accepts :: "json \<Rightarrow> json \<Rightarrow> bool" where
  "schema_accepts (JDict s) v =
     (\<forall>kx \<in> set s.
        if fst kx = ''type'' then type_matches (snd kx) v
        else if fst kx = ''enum'' then in_enum (snd kx) v
        else if fst kx = ''items'' then
          (case v of JList es \<Rightarrow> \<forall>e \<in> set es. schema_accepts (snd kx) e | _ \<Rightarrow> True)
        else if fst kx = ''anyOf'' then
          (case snd kx of JList cs \<Rightarrow> \<exists>c \<in> set cs. schema_accepts c v | _ \<Rightarrow> True)
        else if fst kx = ''properties'' then
          (case snd kx of
             JDict ps \<Rightarrow> \<forall>p \<in> set ps. (case jget v (fst p) of None \<Rightarrow> True | Some e \<Rightarrow> schema_accepts (snd p) e)
           | _ \<Rightarrow> True)
        else if fst kx = ''required'' then has_required (snd kx) v
        else if fst kx = ''additionalProperties'' then closed_object (snd kx) (property_names s) v
        else True)"
| "schema_accepts _ v = True"

section \<open>Its parts\<close>

lemma string_accepted [simp]: "schema_accepts string_schema v \<longleftrightarrow> (\<exists>s. v = JStr s)"
  by (cases v) (simp_all add: string_schema_def type_matches_def type_is_def)

lemma strings_accepted [simp]: "schema_accepts string_array_schema v \<longleftrightarrow> (\<exists>ss. v = jstrings ss)"
proof (cases v)
  case (JList es)
  have "(\<forall>e \<in> set es. \<exists>s. e = JStr s) \<longleftrightarrow> (\<exists>ss. es = map JStr ss)"
    by (induction es) (auto simp: Cons_eq_map_conv)
  then show ?thesis
    by (simp add: JList string_array_schema_def type_matches_def type_is_def jstrings_def)
qed (simp_all add: string_array_schema_def type_matches_def type_is_def jstrings_def)

lemma outcome_accepted [simp]:
  "schema_accepts (JDict [(''type'', JStr ''string''), (''enum'', jstrings (sort audit_report_outcomes))]) v
     \<longleftrightarrow> (\<exists>oc. oc \<noteq> OutFailed \<and> v = JStr (outcome_name oc))"
proof -
  have ex: "(\<exists>oc. Q oc) \<longleftrightarrow> Q OutCompleted \<or> Q OutPartial \<or> Q OutBlocked \<or> Q OutFailed" for Q
    by (metis outcome.exhaust)
  show ?thesis
    unfolding ex
    by (cases v) (auto simp: type_matches_def type_is_def in_enum_def jstrings_def audit_report_outcomes_def)
qed

lemma optional_accepted [simp]:
  "schema_accepts (JDict [(''anyOf'', JList [string_schema, JDict [(''type'', JStr ''null'')]])]) v
     \<longleftrightarrow> (\<exists>a. v = opt_json a)"
  unfolding split_option_ex by (cases v) (simp_all add: type_matches_def type_is_def)

lemma object_keys:
  "(\<forall>k \<in> set ks. has_key k d) \<and> (\<forall>k \<in> set (map fst d). k \<in> set ks) \<longleftrightarrow> same_keys (JDict d) ks"
  by (auto simp: same_keys_def has_key_def)

text \<open>A closed object whose properties are all required, against its keys.\<close>

definition property_accepts :: "json \<Rightarrow> (string \<times> json) list \<Rightarrow> bool" where
  "property_accepts v ps \<longleftrightarrow>
     (\<forall>p \<in> set ps. (case jget v (fst p) of None \<Rightarrow> True | Some e \<Rightarrow> schema_accepts (snd p) e))"

lemma object_accepted:
  assumes "set ks = fst ` set ps"
  shows "schema_accepts (JDict [(''type'', JStr ''object''), (''properties'', JDict ps), (''required'', jstrings ks),
       (''additionalProperties'', JBool False)]) v
     \<longleftrightarrow> same_keys v ks \<and> (\<forall>p \<in> set ps. \<exists>e. jget v (fst p) = Some e \<and> schema_accepts (snd p) e)"
proof (cases v)
  case (JDict d)
  have keys: "same_keys v ks \<longleftrightarrow> (\<forall>k \<in> set ks. has_key k d) \<and> (\<forall>k \<in> set (map fst d). k \<in> fst ` set ps)"
    using object_keys [of ks d] assms by (simp add: JDict)
  have present: "\<exists>e. map_of d (fst p) = Some e" if "p \<in> set ps" "\<forall>k \<in> set ks. has_key k d" for p
    using that assms by (auto simp: has_key_map_of)
  show ?thesis
    unfolding keys unfolding JDict
    by (auto simp: type_matches_def type_is_def jstrings_def property_names_def) (use present in \<open>force+\<close>)
qed (simp_all add: type_matches_def type_is_def same_keys_def)

lemma finding_ex:
  "(\<exists>f. finding_of f v) \<longleftrightarrow> same_keys v audit_finding_keys
      \<and> (\<exists>s. jget v ''severity'' = Some (JStr s)) \<and> (\<exists>s. jget v ''evidence'' = Some (JStr s))
      \<and> (\<exists>a. jget v ''affected_requirement_or_location'' = Some (opt_json a))"
proof (rule iffI; elim exE conjE)
  fix s e a
  assume "same_keys v audit_finding_keys" "jget v ''severity'' = Some (JStr s)" "jget v ''evidence'' = Some (JStr e)"
    "jget v ''affected_requirement_or_location'' = Some (opt_json a)"
  then show "\<exists>f. finding_of f v"
    by (intro exI [of _ "\<lparr>severity = s, evidence = e, affected = a\<rparr>"]) (simp add: finding_of_def)
qed (auto simp: finding_of_def)

lemma finding_accepted [simp]: "schema_accepts finding_schema v \<longleftrightarrow> (\<exists>f. finding_of f v)"
  unfolding finding_schema_def finding_ex audit_finding_keys_def
  by (subst object_accepted) (auto simp del: schema_accepts.simps)

lemma findings_accepted [simp]:
  "schema_accepts (JDict [(''type'', JStr ''array''), (''items'', finding_schema)]) v
     \<longleftrightarrow> (\<exists>fs items. v = JList items \<and> list_all2 finding_of fs items)"
proof (cases v)
  case (JList items)
  have "(\<forall>e \<in> set items. \<exists>f. finding_of f e) \<longleftrightarrow> (\<exists>fs. list_all2 finding_of fs items)"
    by (induction items) (auto simp: list_all2_Cons2)
  then show ?thesis by (simp add: JList type_matches_def type_is_def)
qed (simp_all add: type_matches_def type_is_def)

section \<open>The schema and the parser agree\<close>

lemma report_ex:
  "(\<exists>r. report_of r v) \<longleftrightarrow> same_keys v audit_report_keys
      \<and> (\<exists>oc. oc \<noteq> OutFailed \<and> jget v ''outcome'' = Some (JStr (outcome_name oc)))
      \<and> (\<exists>s. jget v ''summary'' = Some (JStr s)) \<and> (\<exists>ss. jget v ''files'' = Some (jstrings ss))
      \<and> (\<exists>ss. jget v ''validation'' = Some (jstrings ss)) \<and> (\<exists>ss. jget v ''risks'' = Some (jstrings ss))
      \<and> (\<exists>s. jget v ''verdict'' = Some (JStr s)) \<and> (\<exists>ss. jget v ''confirmed'' = Some (jstrings ss))
      \<and> (\<exists>fs items. jget v ''findings'' = Some (JList items) \<and> list_all2 finding_of fs items)
      \<and> (\<exists>ss. jget v ''required_changes'' = Some (jstrings ss))" (is "_ \<longleftrightarrow> ?fields")
proof (rule iffI; elim exE conjE)
  fix oc su fi va ri ve co fs items rc
  assume "same_keys v audit_report_keys" "oc \<noteq> OutFailed" "jget v ''outcome'' = Some (JStr (outcome_name oc))"
    "jget v ''summary'' = Some (JStr su)" "jget v ''files'' = Some (jstrings fi)" "jget v ''validation'' = Some (jstrings va)"
    "jget v ''risks'' = Some (jstrings ri)" "jget v ''verdict'' = Some (JStr ve)" "jget v ''confirmed'' = Some (jstrings co)"
    "jget v ''findings'' = Some (JList items)" "list_all2 finding_of fs items"
    "jget v ''required_changes'' = Some (jstrings rc)"
  then show "\<exists>r. report_of r v"
    by (intro exI [of _ "\<lparr>p_outcome = oc, p_summary = su, p_files = fi, p_validation = va, p_risks = ri,
              p_verdict = ve, p_confirmed = co, p_findings = fs, p_required_changes = rc\<rparr>"]) (simp add: report_of_def)
qed (auto simp: report_of_def)

lemma keys_sorted: "same_keys v (sort ks) = same_keys v ks"
  by (cases v) (simp_all add: same_keys_def)

lemma schema_fields:
  "schema_accepts audit_report_schema v \<longleftrightarrow> same_keys v audit_report_keys
      \<and> (\<exists>e. jget v ''outcome'' = Some e \<and> (\<exists>oc. oc \<noteq> OutFailed \<and> e = JStr (outcome_name oc)))
      \<and> (\<exists>e. jget v ''summary'' = Some e \<and> (\<exists>s. e = JStr s)) \<and> (\<exists>e. jget v ''files'' = Some e \<and> (\<exists>ss. e = jstrings ss))
      \<and> (\<exists>e. jget v ''validation'' = Some e \<and> (\<exists>ss. e = jstrings ss))
      \<and> (\<exists>e. jget v ''risks'' = Some e \<and> (\<exists>ss. e = jstrings ss))
      \<and> (\<exists>e. jget v ''verdict'' = Some e \<and> (\<exists>s. e = JStr s))
      \<and> (\<exists>e. jget v ''confirmed'' = Some e \<and> (\<exists>ss. e = jstrings ss))
      \<and> (\<exists>e. jget v ''findings'' = Some e \<and> (\<exists>fs items. e = JList items \<and> list_all2 finding_of fs items))
      \<and> (\<exists>e. jget v ''required_changes'' = Some e \<and> (\<exists>ss. e = jstrings ss))"
  unfolding audit_report_schema_def
proof (subst object_accepted)
  show "set (sort audit_report_keys) = fst ` set
      [(''outcome'', JDict [(''type'', JStr ''string''), (''enum'', jstrings (sort audit_report_outcomes))]),
       (''summary'', string_schema), (''files'', string_array_schema), (''validation'', string_array_schema),
       (''risks'', string_array_schema), (''verdict'', string_schema), (''confirmed'', string_array_schema),
       (''findings'', JDict [(''type'', JStr ''array''), (''items'', finding_schema)]),
       (''required_changes'', string_array_schema)]"
    unfolding set_sort by (simp add: audit_report_keys_def)
qed (simp only: keys_sorted list.set ball_simps fst_conv snd_conv string_accepted strings_accepted outcome_accepted
    findings_accepted simp_thms)

text \<open>C40: The schema the model is given for \<open>submit_audit\<close> and the parser that decides over what it submits
  agree: a decoded value is valid under the schema exactly when the parser accepts it as a report.\<close>

theorem schema_agrees_with_parser:
  "schema_accepts audit_report_schema v \<longleftrightarrow> parse_audit_report_payload v \<noteq> None"
proof -
  have "parse_audit_report_payload v \<noteq> None \<longleftrightarrow> (\<exists>r. report_of r v)" using parse_payload_iff by auto
  then show ?thesis unfolding schema_fields report_ex by blast
qed

end
