(* ===== verification/Stop.thy ===== *)
theory Stop
  imports Main
begin

text \<open>
  The stop of an attempt, \<open>Supervisor.stop\<close> and \<open>_stop_attempt\<close> of \<open>src/qworker/supervisor.py\<close>: one
  operation per attempt that interrupts the run, tears its transport down and cancels its owner,
  next to the owner, which may accept a result at any moment.

  A state is what the operation and the owner share. A step is what one of them does between two
  awaits; the clock is not modelled, a wait with a deadline may end at any time. What the operation
  does to the store at its end is \<open>stop_attempt_end\<close> of \<open>Handlers\<close>, and what the owner does is
  \<open>finish_run\<close>.
\<close>

section \<open>The operation and the owner\<close>

text \<open>The owner runs the agent; it waits for the phase that commits a result, which is registered until
  it is over; it ends without a result; it is done.\<close>

datatype owner_state = Executing | Accepted | Leaving | Ending | OwnerDone

datatype join_point = JoinAtStart | JoinAfterTeardown | JoinAtEnd

text \<open>The awaits of the operation.\<close>

datatype stop_pc =
    StopStart
  | Joining join_point
  | Yielding
  | AwaitInterrupt
  | AwaitGrace
  | Disconnecting
  | CancelRound nat
  | AwaitOwner
  | Finalizing
  | StopOver

datatype stop_action = InterruptCalled | DisconnectCalled | DisconnectFailed | AbortCalled | OwnerCancelled

record stopping =
  sg_pc :: stop_pc
  sg_owner :: owner_state
  sg_cancelling :: bool
  sg_forced :: bool
  sg_live :: bool
  sg_committed :: bool
  sg_actions :: "stop_action list"

text \<open>A phase is registered while the owner waits for it.\<close>

definition result_phase :: "stopping \<Rightarrow> bool" where
  "result_phase s = (sg_owner s = Accepted)"

definition act_on :: "stop_action list \<Rightarrow> stop_pc \<Rightarrow> stopping \<Rightarrow> stopping" where
  "act_on as pc s = s\<lparr>sg_pc := pc, sg_actions := sg_actions s @ as\<rparr>"

text \<open>A call of \<open>stop\<close> starts the operation of an attempt or joins it; force escalates it.\<close>

definition request_stop :: "bool \<Rightarrow> bool \<Rightarrow> owner_state \<Rightarrow> stopping option \<Rightarrow> stopping" where
  "request_stop force live owner operation =
     (case operation of
        None \<Rightarrow> \<lparr>sg_pc = StopStart, sg_owner = owner, sg_cancelling = False, sg_forced = force, sg_live = live,
          sg_committed = (owner = Leaving), sg_actions = []\<rparr>
      | Some s \<Rightarrow> if force then s\<lparr>sg_forced := True\<rparr> else s)"

text \<open>The code between two awaits. The last look at the result phase, then the end of the attempt.\<close>

definition last_join :: "stopping \<Rightarrow> stopping" where
  "last_join s = act_on [] (if result_phase s then Joining JoinAtEnd else Finalizing) s"

text \<open>\<open>_cancel_owner\<close>, up to its first await.\<close>

definition cancel_owner :: "stopping \<Rightarrow> stopping" where
  "cancel_owner s =
     (if sg_owner s = OwnerDone then last_join s
      else act_on [OwnerCancelled] (CancelRound 0) (s\<lparr>sg_cancelling := True\<rparr>))"

text \<open>One of its three rounds, after it yielded.\<close>

definition cancel_round :: "nat \<Rightarrow> stopping \<Rightarrow> stopping" where
  "cancel_round k s =
     (if result_phase s then act_on [] (Joining JoinAfterTeardown) s
      else if sg_owner s = OwnerDone then act_on [] AwaitOwner s
      else if k < 2 then act_on [] (CancelRound (Suc k)) s
      else act_on [OwnerCancelled] AwaitOwner (s\<lparr>sg_cancelling := True\<rparr>))"

definition after_teardown :: "stopping \<Rightarrow> stopping" where
  "after_teardown s = (if result_phase s then act_on [] (Joining JoinAfterTeardown) s else cancel_owner s)"

definition teardown :: "stopping \<Rightarrow> stopping" where
  "teardown s = (if sg_live s then act_on [DisconnectCalled] Disconnecting s else after_teardown s)"

definition decide_stop :: "stopping \<Rightarrow> stopping" where
  "decide_stop s = (if \<not> sg_forced s \<and> sg_live s then act_on [InterruptCalled] AwaitInterrupt s else teardown s)"

definition begin_stop :: "stopping \<Rightarrow> stopping" where
  "begin_stop s =
     (if result_phase s then act_on [] (Joining JoinAtStart) s
      else if \<not> sg_live s \<and> \<not> sg_forced s then act_on [] Yielding s
      else decide_stop s)"

definition joined :: "join_point \<Rightarrow> stopping \<Rightarrow> stopping" where
  "joined j s = (if j = JoinAfterTeardown then last_join s else act_on [] Finalizing s)"

text \<open>Steps of the operation.\<close>

inductive stop_step :: "stopping \<Rightarrow> stopping \<Rightarrow> bool" where
  begins: "sg_pc s = StopStart \<Longrightarrow> stop_step s (begin_stop s)"
| joins: "sg_pc s = Joining j \<Longrightarrow> sg_owner s = OwnerDone \<Longrightarrow> stop_step s (joined j s)"
| yields: "sg_pc s = Yielding \<Longrightarrow> stop_step s (decide_stop (s\<lparr>sg_live := found\<rparr>))"
| interrupted: "sg_pc s = AwaitInterrupt \<Longrightarrow> \<not> sg_forced s \<Longrightarrow> stop_step s (act_on [] AwaitGrace s)"
| not_interrupted: "sg_pc s = AwaitInterrupt \<Longrightarrow> stop_step s (teardown s)"
| graceful: "sg_pc s = AwaitGrace \<Longrightarrow> sg_owner s = OwnerDone \<Longrightarrow> stop_step s (last_join s)"
| grace_over: "sg_pc s = AwaitGrace \<Longrightarrow> sg_forced s \<or> sg_owner s \<noteq> OwnerDone \<Longrightarrow> stop_step s (teardown s)"
| disconnected: "sg_pc s = Disconnecting \<Longrightarrow> stop_step s (after_teardown s)"
| not_disconnected: "sg_pc s = Disconnecting \<Longrightarrow>
    stop_step s (after_teardown (s\<lparr>sg_actions := sg_actions s @ [DisconnectFailed, AbortCalled]\<rparr>))"
| cancels: "sg_pc s = CancelRound k \<Longrightarrow> stop_step s (cancel_round k s)"
| owner_joined: "sg_pc s = AwaitOwner \<Longrightarrow> sg_owner s = OwnerDone \<Longrightarrow> stop_step s (last_join s)"
| finalizes: "sg_pc s = Finalizing \<Longrightarrow> stop_step s (act_on [] StopOver s)"

text \<open>Steps of the owner and of other callers. A cancellation ends the run, or the end of a run; the loop
  that waits for a result phase ignores it.\<close>

inductive owner_step :: "stopping \<Rightarrow> stopping \<Rightarrow> bool" where
  accepts: "sg_owner s = Executing \<Longrightarrow> owner_step s (s\<lparr>sg_owner := Accepted\<rparr>)"
| commits: "sg_owner s = Accepted \<Longrightarrow> owner_step s (s\<lparr>sg_owner := Leaving, sg_committed := True\<rparr>)"
| leaves: "sg_owner s = Leaving \<Longrightarrow> owner_step s (s\<lparr>sg_owner := OwnerDone\<rparr>)"
| loses: "sg_owner s = Executing \<Longrightarrow> owner_step s (s\<lparr>sg_owner := Ending\<rparr>)"
| ends: "sg_owner s = Ending \<Longrightarrow> owner_step s (s\<lparr>sg_owner := OwnerDone\<rparr>)"
| run_cancelled: "sg_owner s = Executing \<Longrightarrow> sg_cancelling s \<Longrightarrow>
    owner_step s (s\<lparr>sg_owner := Ending, sg_cancelling := False\<rparr>)"
| end_cancelled: "sg_owner s = Ending \<Longrightarrow> sg_cancelling s \<Longrightarrow>
    owner_step s (s\<lparr>sg_owner := OwnerDone, sg_cancelling := False\<rparr>)"
| cancel_ignored: "sg_owner s \<in> {Accepted, Leaving} \<Longrightarrow> sg_cancelling s \<Longrightarrow> owner_step s (s\<lparr>sg_cancelling := False\<rparr>)"
| escalates: "\<not> sg_forced s \<Longrightarrow> owner_step s (s\<lparr>sg_forced := True\<rparr>)"

definition stopping_step :: "stopping \<Rightarrow> stopping \<Rightarrow> bool" where
  "stopping_step s t \<longleftrightarrow> stop_step s t \<or> owner_step s t"

text \<open>The result is committed when the owner leaves its phase.\<close>

definition commit_order :: "stopping \<Rightarrow> bool" where
  "commit_order s \<longleftrightarrow> (sg_owner s = Leaving \<longrightarrow> sg_committed s) \<and> (sg_committed s \<longrightarrow> sg_owner s \<in> {Leaving, OwnerDone})"

text \<open>An operation starts with the attempt's transport, if it has one, next to an owner in any state.\<close>

definition stop_started :: "stopping \<Rightarrow> bool" where
  "stop_started s \<longleftrightarrow> sg_pc s = StopStart \<and> sg_actions s = [] \<and> \<not> sg_cancelling s
     \<and> commit_order s"

definition stop_reachable :: "stopping \<Rightarrow> bool" where
  "stop_reachable s \<longleftrightarrow> (\<exists>s0. stop_started s0 \<and> stopping_step\<^sup>*\<^sup>* s0 s)"

inductive_cases stop_stepE: "stop_step s t"
inductive_cases owner_stepE: "owner_step s t"

lemmas stop_segments = begin_stop_def decide_stop_def teardown_def after_teardown_def cancel_owner_def cancel_round_def
  last_join_def joined_def act_on_def result_phase_def

section \<open>The order of its actions\<close>

text \<open>What an operation may have done: interrupted or not; torn the transport down, with an abort when
  that failed, or not; cancelled the owner up to twice.\<close>

definition stop_actions :: "bool \<Rightarrow> stop_action list \<Rightarrow> nat \<Rightarrow> stop_action list" where
  "stop_actions interrupt teardown_actions n =
     (if interrupt then [InterruptCalled] else []) @ teardown_actions @ replicate n OwnerCancelled"

definition teardowns :: "stop_action list set" where
  "teardowns = {[], [DisconnectCalled], [DisconnectCalled, DisconnectFailed, AbortCalled]}"

fun actions_at :: "stop_pc \<Rightarrow> bool \<Rightarrow> bool \<Rightarrow> stop_action list \<Rightarrow> nat \<Rightarrow> bool" where
  "actions_at StopStart live i d n = (\<not> i \<and> d = [] \<and> n = 0)"
| "actions_at Yielding live i d n = (\<not> i \<and> d = [] \<and> n = 0)"
| "actions_at (Joining JoinAtStart) live i d n = (\<not> i \<and> d = [] \<and> n = 0)"
| "actions_at AwaitInterrupt live i d n = (live \<and> i \<and> d = [] \<and> n = 0)"
| "actions_at AwaitGrace live i d n = (live \<and> i \<and> d = [] \<and> n = 0)"
| "actions_at Disconnecting live i d n = (live \<and> d = [DisconnectCalled] \<and> n = 0)"
| "actions_at (CancelRound k) live i d n = (n = 1 \<and> live = (d \<noteq> []))"
| "actions_at AwaitOwner live i d n = (n \<in> {1, 2} \<and> live = (d \<noteq> []))"
| "actions_at pc live i d n = (n \<le> 2 \<and> (i \<longrightarrow> live) \<and> (d \<noteq> [] \<longrightarrow> live) \<and> (0 < n \<and> live \<longrightarrow> d \<noteq> []))"

definition stop_inv :: "stopping \<Rightarrow> bool" where
  "stop_inv s \<longleftrightarrow>
     (\<exists>i d n. sg_actions s = stop_actions i d n \<and> d \<in> teardowns \<and> (i \<longrightarrow> sg_live s) \<and> actions_at (sg_pc s) (sg_live s) i d n)
     \<and> (sg_pc s \<in> {Finalizing, StopOver} \<longrightarrow> sg_owner s = OwnerDone) \<and> sg_pc s \<noteq> Joining JoinAtEnd"

lemma stop_actions_simps [simp]:
  "stop_actions i d n @ [InterruptCalled] = stop_actions True [] 0 \<longleftrightarrow> \<not> i \<and> d = [] \<and> n = 0"
  by (cases i; cases d; cases n) (auto simp: stop_actions_def)

lemma started_inv: "stop_started s \<Longrightarrow> stop_inv s"
  unfolding stop_inv_def stop_started_def
  by (intro conjI exI [of _ False] exI [of _ "[]"] exI [of _ 0]) (simp_all add: stop_actions_def teardowns_def)

lemma owner_keeps_inv:
  assumes "owner_step s t" and "stop_inv s"
  shows "stop_inv t"
  using assms by (elim owner_stepE) (auto simp: stop_inv_def)

text \<open>The segments, on actions of a given shape.\<close>

lemma last_join_inv:
  assumes "sg_owner s = OwnerDone" and "sg_actions s = stop_actions i d n" and "d \<in> teardowns" and "n \<le> 2"
    and "i \<longrightarrow> sg_live s" and "d \<noteq> [] \<longrightarrow> sg_live s" and "0 < n \<and> sg_live s \<longrightarrow> d \<noteq> []"
  shows "stop_inv (last_join s)"
  using assms unfolding stop_inv_def
  by (intro conjI exI [of _ i] exI [of _ d] exI [of _ n]) (auto simp: stop_segments)

lemma after_teardown_inv:
  assumes "sg_actions s = stop_actions i d 0" and "d \<in> teardowns" and "i \<longrightarrow> sg_live s" and "sg_live s = (d \<noteq> [])"
  shows "stop_inv (after_teardown s)"
proof -
  have "stop_inv (act_on [] (Joining JoinAfterTeardown) s)"
    using assms unfolding stop_inv_def act_on_def
    by (intro conjI exI [of _ i] exI [of _ d] exI [of _ 0]) auto
  moreover have "stop_inv (cancel_owner s)"
  proof (cases "sg_owner s = OwnerDone")
    case True
    then show ?thesis using last_join_inv [OF True assms(1,2)] assms(3,4) by (simp add: cancel_owner_def)
  next
    case False
    have "stop_actions i d 0 @ [OwnerCancelled] = stop_actions i d 1" by (simp add: stop_actions_def)
    then show ?thesis
      using assms False unfolding stop_inv_def cancel_owner_def act_on_def
      by (intro conjI exI [of _ i] exI [of _ d] exI [of _ 1]) auto
  qed
  ultimately show ?thesis by (simp add: after_teardown_def)
qed

lemma teardown_inv:
  assumes "sg_actions s = stop_actions i [] 0" and "i \<longrightarrow> sg_live s"
  shows "stop_inv (teardown s)"
proof (cases "sg_live s")
  case True
  have "stop_actions i [] 0 @ [DisconnectCalled] = stop_actions i [DisconnectCalled] 0" by (simp add: stop_actions_def)
  then show ?thesis
    using assms True unfolding stop_inv_def teardown_def act_on_def
    by (intro conjI exI [of _ i] exI [of _ "[DisconnectCalled]"] exI [of _ 0]) (auto simp: teardowns_def)
next
  case False
  then show ?thesis using after_teardown_inv [of s i "[]"] assms by (auto simp: teardown_def teardowns_def)
qed

lemma decide_inv:
  assumes "sg_actions s = []"
  shows "stop_inv (decide_stop s)"
proof (cases "\<not> sg_forced s \<and> sg_live s")
  case True
  then show ?thesis
    using assms unfolding stop_inv_def decide_stop_def act_on_def
    by (intro conjI exI [of _ True] exI [of _ "[]"] exI [of _ 0]) (auto simp: teardowns_def stop_actions_def)
next
  case False
  then show ?thesis using teardown_inv [of s False] assms by (auto simp: decide_stop_def stop_actions_def)
qed

lemma round_inv:
  assumes "sg_actions s = stop_actions i d 1" and "d \<in> teardowns" and "i \<longrightarrow> sg_live s" and "sg_live s = (d \<noteq> [])"
  shows "stop_inv (cancel_round k s)"
proof -
  have "stop_actions i d 1 @ [OwnerCancelled] = stop_actions i d 2" by (simp add: stop_actions_def numeral_2_eq_2)
  then have "stop_inv (act_on [OwnerCancelled] AwaitOwner (s\<lparr>sg_cancelling := True\<rparr>))"
    using assms unfolding stop_inv_def act_on_def
    by (intro conjI exI [of _ i] exI [of _ d] exI [of _ 2]) auto
  moreover have "stop_inv (act_on [] pc s)" if "pc \<in> {Joining JoinAfterTeardown, AwaitOwner, CancelRound (Suc k)}" for pc
    using assms that unfolding stop_inv_def act_on_def
    by (intro conjI exI [of _ i] exI [of _ d] exI [of _ 1]) auto
  ultimately show ?thesis by (simp add: cancel_round_def)
qed

lemma stop_keeps_inv:
  assumes "stop_step s t" and inv: "stop_inv s"
  shows "stop_inv t"
proof -
  obtain i d n where a: "sg_actions s = stop_actions i d n" "d \<in> teardowns" "i \<longrightarrow> sg_live s"
      "actions_at (sg_pc s) (sg_live s) i d n" and end': "sg_pc s \<noteq> Joining JoinAtEnd"
    using inv by (auto simp: stop_inv_def)
  from assms(1) show ?thesis
  proof (cases rule: stop_step.cases)
    case begins
    then have none: "sg_actions s = []" using a by (simp add: stop_actions_def)
    have "stop_inv (act_on [] pc s)" if "pc \<in> {Joining JoinAtStart, Yielding}" for pc
      using none that unfolding stop_inv_def act_on_def
      by (intro conjI exI [of _ False] exI [of _ "[]"] exI [of _ 0]) (auto simp: stop_actions_def teardowns_def)
    with decide_inv [OF none] show ?thesis using begins by (simp add: begin_stop_def)
  next
    case (joins j)
    show ?thesis
    proof (cases j)
      case JoinAtStart
      then have "sg_actions s = stop_actions False [] 0" using joins a by simp
      then show ?thesis
        using joins JoinAtStart unfolding stop_inv_def
        by (intro conjI exI [of _ False] exI [of _ "[]"] exI [of _ 0]) (auto simp: joined_def act_on_def teardowns_def)
    next
      case JoinAfterTeardown
      then show ?thesis using joins a last_join_inv [OF joins(3) a(1,2)] by (auto simp: joined_def)
    next
      case JoinAtEnd
      then show ?thesis using joins end' by simp
    qed
  next
    case (yields found)
    then show ?thesis using a decide_inv [of "s\<lparr>sg_live := found\<rparr>"] by (simp add: stop_actions_def)
  next
    case interrupted
    then show ?thesis
      using a unfolding stop_inv_def act_on_def
      by (intro conjI exI [of _ True] exI [of _ "[]"] exI [of _ 0]) (auto simp: teardowns_def)
  next
    case not_interrupted
    then show ?thesis using a teardown_inv [of s i] by simp
  next
    case graceful
    then show ?thesis using a last_join_inv [OF graceful(3) a(1,2)] by simp
  next
    case grace_over
    then show ?thesis using a teardown_inv [of s i] by simp
  next
    case disconnected
    then show ?thesis using a after_teardown_inv [of s i d] by simp
  next
    case not_disconnected
    have "stop_actions i [DisconnectCalled] 0 @ [DisconnectFailed, AbortCalled]
        = stop_actions i [DisconnectCalled, DisconnectFailed, AbortCalled] 0" by (simp add: stop_actions_def)
    then show ?thesis
      using not_disconnected a
        after_teardown_inv [of "s\<lparr>sg_actions := sg_actions s @ [DisconnectFailed, AbortCalled]\<rparr>" i
          "[DisconnectCalled, DisconnectFailed, AbortCalled]"]
      by (simp add: teardowns_def)
  next
    case (cancels k)
    then show ?thesis using a round_inv [of s i d k] by simp
  next
    case owner_joined
    then show ?thesis using a last_join_inv [OF owner_joined(3) a(1,2)] by auto
  next
    case finalizes
    then show ?thesis using a inv unfolding stop_inv_def act_on_def by (intro conjI exI [of _ i] exI [of _ d] exI [of _ n]) auto
  qed
qed

lemma reachable_stop_inv: "stop_reachable s \<Longrightarrow> stop_inv s"
proof -
  have "stopping_step\<^sup>*\<^sup>* s0 s \<Longrightarrow> stop_inv s0 \<Longrightarrow> stop_inv s" for s0
    by (induction rule: rtranclp_induct) (auto simp: stopping_step_def intro: stop_keeps_inv owner_keeps_inv)
  then show "stop_reachable s \<Longrightarrow> stop_inv s" using started_inv by (auto simp: stop_reachable_def)
qed

text \<open>C39: Whenever a stop comes to the end of its attempt, the owner of the attempt is done: nothing else writes
  its end. Before that it has called the transport and the owner in this order only: at most one
  interrupt; at most one disconnect, followed by an abort exactly when it failed; at most two
  cancellations of the owner, and none before the transport it knew of was torn down. An operation that
  knows no transport calls none.\<close>

theorem stop_in_order:
  assumes "stop_reachable s"
  shows "(\<exists>interrupt d n. sg_actions s = stop_actions interrupt d n \<and> d \<in> teardowns \<and> n \<le> 2
       \<and> (interrupt \<longrightarrow> sg_live s) \<and> (d \<noteq> [] \<longrightarrow> sg_live s) \<and> (0 < n \<and> sg_live s \<longrightarrow> d \<noteq> []))
     \<and> (sg_pc s \<in> {Finalizing, StopOver} \<longrightarrow> sg_owner s = OwnerDone)"
proof -
  have inv: "stop_inv s" by (rule reachable_stop_inv [OF assms])
  then obtain i d n where a: "sg_actions s = stop_actions i d n" "d \<in> teardowns" "i \<longrightarrow> sg_live s"
      "actions_at (sg_pc s) (sg_live s) i d n" by (auto simp: stop_inv_def)
  have "n \<le> 2 \<and> (d \<noteq> [] \<longrightarrow> sg_live s) \<and> (0 < n \<and> sg_live s \<longrightarrow> d \<noteq> [])"
    using a(4) by (cases "(sg_pc s, sg_live s, i, d, n)" rule: actions_at.cases) auto
  with a inv show ?thesis by (auto simp: stop_inv_def)
qed

section \<open>An accepted result is committed\<close>

definition accepted_result :: "stopping \<Rightarrow> bool" where
  "accepted_result s \<longleftrightarrow> sg_owner s \<in> {Accepted, Leaving} \<or> sg_owner s = OwnerDone \<and> sg_committed s"

lemma segments_keep [simp]:
  "sg_owner (last_join s) = sg_owner s" "sg_committed (last_join s) = sg_committed s"
  "sg_owner (cancel_owner s) = sg_owner s" "sg_committed (cancel_owner s) = sg_committed s"
  "sg_owner (cancel_round k s) = sg_owner s" "sg_committed (cancel_round k s) = sg_committed s"
  "sg_owner (after_teardown s) = sg_owner s" "sg_committed (after_teardown s) = sg_committed s"
  "sg_owner (teardown s) = sg_owner s" "sg_committed (teardown s) = sg_committed s"
  "sg_owner (decide_stop s) = sg_owner s" "sg_committed (decide_stop s) = sg_committed s"
  "sg_owner (begin_stop s) = sg_owner s" "sg_committed (begin_stop s) = sg_committed s"
  "sg_owner (joined j s) = sg_owner s" "sg_committed (joined j s) = sg_committed s"
  by (simp_all add: stop_segments)

lemma stop_step_keeps: "stop_step s t \<Longrightarrow> sg_owner t = sg_owner s \<and> sg_committed t = sg_committed s"
  by (induction rule: stop_step.induct) (simp_all add: act_on_def)

lemma owner_keeps_accepted:
  assumes "owner_step s t" and "commit_order s"
  shows "commit_order t \<and> (accepted_result s \<longrightarrow> accepted_result t)"
  using assms by (elim owner_stepE) (auto simp: accepted_result_def commit_order_def)

lemma run_keeps_accepted:
  assumes "stopping_step\<^sup>*\<^sup>* s t" and "commit_order s"
  shows "commit_order t \<and> (accepted_result s \<longrightarrow> accepted_result t)"
  using assms
proof (induction rule: rtranclp_induct)
  case (step t u)
  show ?case
  proof (cases "owner_step t u")
    case True
    then show ?thesis using owner_keeps_accepted step by blast
  next
    case False
    then have "stop_step t u" using step.hyps by (simp add: stopping_step_def)
    then show ?thesis using stop_step_keeps [of t u] step by (auto simp: accepted_result_def commit_order_def)
  qed
qed simp

lemma reachable_on: "stop_reachable s \<Longrightarrow> stopping_step\<^sup>*\<^sup>* s t \<Longrightarrow> stop_reachable t"
  by (auto simp: stop_reachable_def intro: rtranclp_trans)


section \<open>Every stop ends\<close>

fun stop_rank :: "stop_pc \<Rightarrow> nat" where
  "stop_rank StopStart = 12"
| "stop_rank Yielding = 11"
| "stop_rank AwaitInterrupt = 10"
| "stop_rank AwaitGrace = 9"
| "stop_rank Disconnecting = 8"
| "stop_rank (CancelRound k) = 4 + (3 - k)"
| "stop_rank AwaitOwner = 3"
| "stop_rank (Joining j) = (if j = JoinAfterTeardown then 3 else 2)"
| "stop_rank Finalizing = 1"
| "stop_rank StopOver = 0"

fun owner_rank :: "owner_state \<Rightarrow> nat" where
  "owner_rank Executing = 4"
| "owner_rank Accepted = 3"
| "owner_rank Leaving = 2"
| "owner_rank Ending = 1"
| "owner_rank OwnerDone = 0"

definition run_measures :: "(stopping \<Rightarrow> nat) list" where
  "run_measures = [\<lambda>s. stop_rank (sg_pc s), \<lambda>s. owner_rank (sg_owner s), \<lambda>s. of_bool (sg_cancelling s),
     \<lambda>s. of_bool (\<not> sg_forced s)]"

lemma rank_segments:
  "stop_rank (sg_pc (last_join s)) \<le> 2" "stop_rank (sg_pc (cancel_owner s)) \<le> 7"
  "stop_rank (sg_pc (after_teardown s)) \<le> 7" "stop_rank (sg_pc (teardown s)) \<le> 8"
  "stop_rank (sg_pc (decide_stop s)) \<le> 10" "stop_rank (sg_pc (begin_stop s)) \<le> 11"
  by (simp_all add: stop_segments)

lemma stop_step_rank: "stop_step s t \<Longrightarrow> stop_rank (sg_pc t) < stop_rank (sg_pc s)"
proof (induction rule: stop_step.induct)
  case (joins s j)
  then show ?case using rank_segments(1) [of s] by (cases j) (auto simp: joined_def act_on_def)
next
  case (cancels s k)
  then show ?case by (auto simp: cancel_round_def act_on_def)
next
  case (not_disconnected s)
  then show ?case
    using rank_segments(3) [of "s\<lparr>sg_actions := sg_actions s @ [DisconnectFailed, AbortCalled]\<rparr>"] by simp
next
  case (yields s found)
  then show ?case using rank_segments(5) [of "s\<lparr>sg_live := found\<rparr>"] by simp
next
  case (begins s) then show ?case using rank_segments(6) [of s] by simp
next
  case (not_interrupted s) then show ?case using rank_segments(4) [of s] by simp
next
  case (graceful s) then show ?case using rank_segments(1) [of s] by simp
next
  case (grace_over s) then show ?case using rank_segments(4) [of s] by simp
next
  case (disconnected s) then show ?case using rank_segments(3) [of s] by simp
next
  case (owner_joined s) then show ?case using rank_segments(1) [of s] by simp
qed (simp_all add: act_on_def)

lemma step_decreases: "stopping_step s t \<Longrightarrow> (t, s) \<in> measures run_measures"
  using stop_step_rank [of s t]
  by (auto simp: stopping_step_def run_measures_def elim!: owner_stepE)

lemma stop_never_stuck: "sg_pc s = StopOver \<or> (\<exists>t. stopping_step s t)"
proof (cases "sg_owner s = OwnerDone")
  case True
  then show ?thesis
    unfolding stopping_step_def by (cases "sg_pc s") (blast intro: stop_step.intros)+
next
  case False
  then show ?thesis
    unfolding stopping_step_def by (cases "sg_owner s") (blast intro: owner_step.intros)+
qed


section \<open>A run of the machine\<close>

lemma request_started: "stop_started (request_stop force live owner None)"
  by (simp add: stop_started_def request_stop_def commit_order_def)

lemma joined_stop_reachable:
  "stop_reachable s \<Longrightarrow> stop_reachable (request_stop force live owner (Some s))"
proof (cases "force \<and> \<not> sg_forced s")
  case True
  then have "stopping_step s (s\<lparr>sg_forced := True\<rparr>)" by (simp add: stopping_step_def escalates)
  moreover assume "stop_reachable s"
  ultimately show ?thesis using True by (auto simp: request_stop_def intro: reachable_on)
next
  case False
  then have "request_stop force live owner (Some s) = s" by (cases s) (auto simp: request_stop_def)
  then show "stop_reachable s \<Longrightarrow> ?thesis" by simp
qed

text \<open>A forced stop disconnects at once; while it does, the owner accepts a result; the owner is not
  cancelled.\<close>

definition torn_down :: stopping where
  "torn_down = (decide_stop (request_stop True True Executing None))\<lparr>sg_owner := Accepted\<rparr>"

definition waiting :: stopping where
  "waiting = after_teardown (torn_down\<lparr>sg_actions := sg_actions torn_down @ [DisconnectFailed, AbortCalled]\<rparr>)"

lemma sample_stop:
  "stop_reachable torn_down" "stopping_step\<^sup>*\<^sup>* torn_down waiting"
proof -
  let ?s0 = "request_stop True True Executing None"
  have "stop_step ?s0 (decide_stop ?s0)"
    using begins [of ?s0] by (simp add: request_stop_def begin_stop_def result_phase_def)
  moreover have "owner_step (decide_stop ?s0) torn_down"
    unfolding torn_down_def by (rule accepts) (simp add: request_stop_def)
  ultimately have "stopping_step ?s0 (decide_stop ?s0)" "stopping_step (decide_stop ?s0) torn_down"
    by (simp_all add: stopping_step_def)
  then have "stopping_step\<^sup>*\<^sup>* ?s0 torn_down" by (rule converse_rtranclp_into_rtranclp [OF _ r_into_rtranclp])
  then show "stop_reachable torn_down" using request_started by (auto simp: stop_reachable_def)
  have "sg_pc torn_down = Disconnecting"
    by (simp add: torn_down_def request_stop_def stop_segments)
  then have "stop_step torn_down waiting" unfolding waiting_def by (rule not_disconnected)
  then show "stopping_step\<^sup>*\<^sup>* torn_down waiting" by (auto simp: stopping_step_def)
qed

theorem stop_in_order_witness:
  "(\<exists>interrupt d n. sg_actions waiting = stop_actions interrupt d n \<and> d \<in> teardowns \<and> n \<le> 2)
   \<and> sg_actions waiting = [DisconnectCalled, DisconnectFailed, AbortCalled] \<and> sg_pc waiting = Joining JoinAfterTeardown"
proof -
  have "stop_reachable waiting" using sample_stop reachable_on by blast
  moreover have "sg_actions waiting = [DisconnectCalled, DisconnectFailed, AbortCalled]"
    "sg_pc waiting = Joining JoinAfterTeardown"
    by (simp_all add: waiting_def torn_down_def request_stop_def stop_segments)
  ultimately show ?thesis using stop_in_order [of waiting] by blast
qed


end
