(* ===== verification/Service.thy ===== *)
theory Service
  imports Prelude
begin

text \<open>
  The service around the supervisor: how \<open>RPCServer\<close> of \<open>src/qworker/rpc.py\<close> claims and gives up its
  socket file, the foreground service \<open>run_server\<close>, and where \<open>cli.py\<close> and \<open>rpc.py\<close> look for socket
  and state by default.

  \<open>start\<close> is cut at its awaits. The operating system's side is what a process sees of it: the node at the
  path, the directory it is in, and the sockets somebody listens on. Several servers share them as steps
  of a \<open>host\<close>, where a process may also die.
\<close>

section \<open>Files\<close>

text \<open>Device and inode.\<close>

datatype identity = Inode nat nat

datatype node_kind = SocketNode | OtherNode

record file_node =
  nd_identity :: identity
  nd_kind :: node_kind
  nd_mode :: nat

datatype directory = DirMissing | DirMode nat | NotADirectory

record files =
  f_dir :: directory
  f_node :: "file_node option"
  f_listening :: "identity set"

record rpc_server =
  rs_server :: "identity option"
  rs_identity :: "identity option"

definition new_server :: rpc_server where
  "new_server = \<lparr>rs_server = None, rs_identity = None\<rparr>"

definition owner_only_dir :: nat where "owner_only_dir = 0x1C0"

definition owner_only_file :: nat where "owner_only_file = 0x180"

section \<open>Starting\<close>

text \<open>Connecting to the path, and what \<open>_socket_is_active\<close> makes of it.\<close>

datatype probe = ProbeConnected | ProbeRefused | ProbeMissing | ProbeFailed

fun socket_is_active :: "probe \<Rightarrow> bool res" where
  "socket_is_active ProbeConnected = Inr True"
| "socket_is_active ProbeRefused = Inr False"
| "socket_is_active ProbeMissing = Inr False"
| "socket_is_active ProbeFailed = Inl (RuntimeError ''Unable to verify existing RPC socket ownership.'')"

text \<open>The start up to its first await: the directory, and whether the path has to be probed.\<close>

definition claim_directory :: "bool \<Rightarrow> files \<Rightarrow> files res" where
  "claim_directory posix f =
     (case f_dir f of
        NotADirectory \<Rightarrow> Inl (OtherError ''FileExistsError'' [])
      | DirMissing \<Rightarrow> Inr (f\<lparr>f_dir := DirMode owner_only_dir\<rparr>)
      | DirMode m \<Rightarrow> Inr (if posix then f\<lparr>f_dir := DirMode owner_only_dir\<rparr> else f))"

definition start_check :: "bool \<Rightarrow> rpc_server \<Rightarrow> files \<Rightarrow> files \<times> bool res" where
  "start_check posix sv f =
     (if rs_server sv \<noteq> None then (f, Inl (RuntimeError ''RPC server is already started.''))
      else
        (case claim_directory posix f of
           Inl e \<Rightarrow> (f, Inl e)
         | Inr f1 \<Rightarrow> (f1,
             case f_node f1 of
               None \<Rightarrow> Inr False
             | Some n \<Rightarrow> if nd_kind n \<noteq> SocketNode then Inl (RuntimeError ''RPC socket path exists and is not a socket.'')
                         else Inr True)))"

text \<open>After the probe: a socket nobody listens on is removed.\<close>

definition start_remove :: "probe \<Rightarrow> files \<Rightarrow> files \<times> unit res" where
  "start_remove p f =
     (case socket_is_active p of
        Inl e \<Rightarrow> (f, Inl e)
      | Inr active \<Rightarrow>
          if active then (f, Inl (RuntimeError ''A qworker supervisor is already active.''))
          else (case f_node f of
                  None \<Rightarrow> (f, Inl (FileNotFoundError []))
                | Some n \<Rightarrow> (f\<lparr>f_node := None\<rparr>, Inr ())))"

text \<open>\<open>asyncio.start_unix_server\<close> comes to \<open>(f, r)\<close>: the files after it and the socket it listens on; then
  the rest of the start.\<close>

definition start_bound :: "bool \<Rightarrow> files \<times> identity res \<Rightarrow> rpc_server \<Rightarrow> (rpc_server \<times> files) \<times> unit res" where
  "start_bound posix b sv =
     (case b of
        (f, Inl e) \<Rightarrow> ((sv, f), Inl e)
      | (f, Inr i) \<Rightarrow>
          (case f_node f of
             None \<Rightarrow> ((sv\<lparr>rs_server := Some i\<rparr>, f), Inl (FileNotFoundError []))
           | Some n \<Rightarrow>
               ((sv\<lparr>rs_server := Some i, rs_identity := Some (nd_identity n)\<rparr>,
                 if posix then f\<lparr>f_node := Some (n\<lparr>nd_mode := owner_only_file\<rparr>)\<rparr> else f), Inr ())))"

text \<open>A start during which nothing else happens at the path.\<close>

definition start_server ::
    "bool \<Rightarrow> (files \<Rightarrow> probe) \<Rightarrow> (files \<Rightarrow> files \<times> identity res) \<Rightarrow> rpc_server \<times> files
     \<Rightarrow> (rpc_server \<times> files) \<times> unit res" where
  "start_server posix connect bind_at svf =
     (case svf of (sv, f) \<Rightarrow>
        case start_check posix sv f of
          (f1, Inl e) \<Rightarrow> ((sv, f1), Inl e)
        | (f1, Inr taken) \<Rightarrow>
            if \<not> taken then start_bound posix (bind_at f1) sv
            else
              (case start_remove (connect f1) f1 of
                 (f2, Inl e) \<Rightarrow> ((sv, f2), Inl e)
               | (f2, Inr _) \<Rightarrow> start_bound posix (bind_at f2) sv))"

section \<open>Closing\<close>

text \<open>\<open>shut i f\<close>: the files once the listening socket \<open>i\<close> is closed. The socket file is removed when it is
  the one that was bound.\<close>

definition remove_own :: "identity option \<Rightarrow> files \<Rightarrow> files" where
  "remove_own own f =
     (case (own, f_node f) of
        (Some i, Some n) \<Rightarrow> if nd_kind n = SocketNode \<and> nd_identity n = i then f\<lparr>f_node := None\<rparr> else f
      | _ \<Rightarrow> f)"

definition close_server :: "(identity \<Rightarrow> files \<Rightarrow> files) \<Rightarrow> rpc_server \<times> files \<Rightarrow> rpc_server \<times> files" where
  "close_server shut svf =
     (case svf of (sv, f) \<Rightarrow>
        (new_server, remove_own (rs_identity sv) (case rs_server sv of None \<Rightarrow> f | Some i \<Rightarrow> shut i f)))"

definition serve_forever :: "rpc_server \<Rightarrow> unit res" where
  "serve_forever sv =
     (if rs_server sv = None then Inl (RuntimeError ''RPC server is not started.'') else Inr ())"

section \<open>The service\<close>

datatype service_call =
    AddSignalHandler string | ServerStart | AwaitSignal | RemoveSignalHandler string | ServerClose | SupervisorClose

text \<open>\<open>run_server\<close>: which signals the event loop supports, and how each of its calls comes out.\<close>

definition run_server ::
    "(string \<Rightarrow> bool) \<Rightarrow> unit res \<Rightarrow> unit res \<Rightarrow> unit res \<Rightarrow> unit res \<Rightarrow> service_call list \<times> unit res" where
  "run_server supported started waited server_closed supervisor_closed =
     (let signals = [''SIGINT'', ''SIGTERM''];
          body = (if isl started then ([ServerStart], started) else ([ServerStart, AwaitSignal], waited));
          calls = map AddSignalHandler signals @ fst body
            @ map RemoveSignalHandler (filter supported signals) @ [ServerClose]
      in if isl server_closed then (calls, server_closed)
         else (calls @ [SupervisorClose], if isl supervisor_closed then supervisor_closed else snd body))"

text \<open>Default places: the directory a path starts from, and the names below it.\<close>

definition default_place ::
    "(string \<Rightarrow> string option) \<Rightarrow> string \<Rightarrow> string list \<Rightarrow> string \<Rightarrow> string list \<Rightarrow> string \<times> string list" where
  "default_place env variable below home names =
     (case env variable of
        Some d \<Rightarrow> if d = [] then (home, names) else (d, below)
      | None \<Rightarrow> (home, names))"

definition default_state_dir :: "(string \<Rightarrow> string option) \<Rightarrow> string \<Rightarrow> string \<times> string list" where
  "default_state_dir env home =
     default_place env ''XDG_STATE_HOME'' [''qworker''] home [''.local'', ''state'', ''qworker'']"

definition default_socket_path :: "(string \<Rightarrow> string option) \<Rightarrow> string \<Rightarrow> string \<times> string list" where
  "default_socket_path env home =
     default_place env ''XDG_RUNTIME_DIR'' [''qworker'', ''qworker.sock''] home
       [''.local'', ''state'', ''qworker'', ''qworker.sock'']"

text \<open>What the command line starts when no supervisor answers.\<close>

definition launch_command :: "string \<Rightarrow> string \<Rightarrow> string \<Rightarrow> string list" where
  "launch_command python socket_path state_dir =
     [python, ''-m'', ''qworker.rpc'', ''--serve'', ''--socket'', socket_path, ''--state-dir'', state_dir]"

section \<open>Servers on one path\<close>

text \<open>Processes by number. What the operating system answers: a connection is made when somebody listens
  on the socket at the path, and may fail for other reasons; a socket that is bound is new, and it is
  then the node at the path; a socket that is closed is not listened on any more, and its node may go.\<close>

record host =
  h_files :: files
  h_server :: "nat \<Rightarrow> rpc_server"

definition connects :: "(files \<Rightarrow> probe) \<Rightarrow> bool" where
  "connects connect \<longleftrightarrow> (\<forall>f. connect f = ProbeFailed \<or> connect f =
     (case f_node f of
        None \<Rightarrow> ProbeMissing
      | Some n \<Rightarrow> if nd_identity n \<in> f_listening f then ProbeConnected else ProbeRefused))"

definition binds :: "(files \<Rightarrow> files \<times> identity res) \<Rightarrow> bool" where
  "binds bind_at \<longleftrightarrow> (\<forall>f.
     (\<exists>e. bind_at f = (f, Inl e))
     \<or> (\<exists>i m. i \<notin> f_listening f \<and> bind_at f = (f\<lparr>f_node := Some \<lparr>nd_identity = i, nd_kind = SocketNode, nd_mode = m\<rparr>,
          f_listening := insert i (f_listening f)\<rparr>, Inr i)))"

definition shuts :: "(identity \<Rightarrow> files \<Rightarrow> files) \<Rightarrow> bool" where
  "shuts shut \<longleftrightarrow> (\<forall>i f.
     shut i f = f\<lparr>f_listening := f_listening f - {i}\<rparr>
     \<or> (\<exists>n. f_node f = Some n \<and> nd_identity n = i
          \<and> shut i f = f\<lparr>f_node := None, f_listening := f_listening f - {i}\<rparr>))"

inductive host_step :: "bool \<Rightarrow> host \<Rightarrow> host \<Rightarrow> bool" for posix where
  starts: "connects connect \<Longrightarrow> binds bind_at \<Longrightarrow>
    start_server posix connect bind_at (h_server h p, h_files h) = ((sv, f), r) \<Longrightarrow>
    host_step posix h (h\<lparr>h_files := f, h_server := (h_server h)(p := sv)\<rparr>)"
| closes: "shuts shut \<Longrightarrow> close_server shut (h_server h p, h_files h) = (sv, f) \<Longrightarrow>
    host_step posix h (h\<lparr>h_files := f, h_server := (h_server h)(p := sv)\<rparr>)"
| dies: "host_step posix h (h\<lparr>h_files := (h_files h)\<lparr>f_listening := f_listening (h_files h) - set_option (rs_server (h_server h p))\<rparr>,
    h_server := (h_server h)(p := new_server)\<rparr>)"

section \<open>At most one server\<close>

definition idle :: "(nat \<Rightarrow> rpc_server) \<Rightarrow> files \<Rightarrow> bool" where
  "idle servers f \<longleftrightarrow> servers = (\<lambda>_. new_server) \<and> f_listening f = {}"

definition serving :: "bool \<Rightarrow> nat \<Rightarrow> (nat \<Rightarrow> rpc_server) \<Rightarrow> files \<Rightarrow> bool" where
  "serving posix p servers f \<longleftrightarrow> (\<exists>i m. servers = (\<lambda>_. new_server)(p := \<lparr>rs_server = Some i, rs_identity = Some i\<rparr>)
     \<and> f_listening f = {i} \<and> f_node f = Some \<lparr>nd_identity = i, nd_kind = SocketNode, nd_mode = m\<rparr>
     \<and> (posix \<longrightarrow> m = owner_only_file \<and> f_dir f = DirMode owner_only_dir))"

lemma claim_directory_keeps:
  "claim_directory posix f = Inr g \<Longrightarrow>
   f_listening g = f_listening f \<and> f_node g = f_node f \<and> (posix \<longrightarrow> f_dir g = DirMode owner_only_dir)"
  by (auto simp: claim_directory_def split: directory.splits if_splits)

text \<open>Binding when nobody listens.\<close>

lemma bound_serves:
  assumes b: "binds bind_at" and f: "f_listening f = {}" and d: "posix \<longrightarrow> f_dir f = DirMode owner_only_dir"
    and r: "start_bound posix (bind_at f) new_server = ((sv, f'), r)"
  shows "(isl r \<and> sv = new_server \<and> f' = f) \<or> (r = Inr () \<and> serving posix p ((\<lambda>_. new_server)(p := sv)) f')"
proof -
  from b consider e where "bind_at f = (f, Inl e)"
    | i m where "bind_at f = (f\<lparr>f_node := Some \<lparr>nd_identity = i, nd_kind = SocketNode, nd_mode = m\<rparr>,
        f_listening := insert i (f_listening f)\<rparr>, Inr i)"
    unfolding binds_def by metis
  then show ?thesis
  proof cases
    case (2 i m)
    with r f d have "r = Inr ()" and "serving posix p ((\<lambda>_. new_server)(p := sv)) f'"
      unfolding serving_def
      by - (cases posix; simp add: start_bound_def; fail | intro exI [of _ i],
        cases posix, auto simp: start_bound_def new_server_def)+
    then show ?thesis by simp
  qed (use r in \<open>auto simp: start_bound_def\<close>)
qed

lemma start_idle:
  assumes c: "connects connect" and b: "binds bind_at" and f: "f_listening f = {}"
    and r: "start_server posix connect bind_at (new_server, f) = ((sv, f'), r)"
  shows "(isl r \<and> sv = new_server \<and> f_listening f' = {})
     \<or> (r = Inr () \<and> serving posix p ((\<lambda>_. new_server)(p := sv)) f')"
proof (cases "claim_directory posix f")
  case (Inl e)
  with r f show ?thesis by (auto simp: start_server_def start_check_def new_server_def)
next
  case (Inr g)
  then have g: "f_listening g = {}" "posix \<longrightarrow> f_dir g = DirMode owner_only_dir"
    using claim_directory_keeps [OF Inr] f by simp_all
  show ?thesis
  proof (cases "f_node g")
    case None
    with r Inr have "start_bound posix (bind_at g) new_server = ((sv, f'), r)"
      by (simp add: start_server_def start_check_def new_server_def)
    from bound_serves [OF b g this] g show ?thesis by auto
  next
    case (Some n)
    show ?thesis
    proof (cases "nd_kind n = SocketNode \<and> connect g \<noteq> ProbeFailed")
      case True
      then have "connect g = ProbeRefused" using c Some g by (auto simp: connects_def)
      with True r Inr Some have "start_bound posix (bind_at (g\<lparr>f_node := None\<rparr>)) new_server = ((sv, f'), r)"
        by (simp add: start_server_def start_check_def start_remove_def new_server_def)
      from bound_serves [OF b _ _ this] g show ?thesis by fastforce
    next
      case False
      with r Inr Some g show ?thesis
        by (auto simp: start_server_def start_check_def start_remove_def new_server_def split: if_splits)
    qed
  qed
qed

lemma start_refused:
  assumes c: "connects connect" and s: "serving posix q servers f"
    and r: "start_server posix connect bind_at (servers p, f) = ((sv, f'), r)"
  shows "isl r \<and> sv = servers p \<and> serving posix q servers f'"
proof -
  obtain i m where i: "servers = (\<lambda>_. new_server)(q := \<lparr>rs_server = Some i, rs_identity = Some i\<rparr>)" "f_listening f = {i}"
      "f_node f = Some \<lparr>nd_identity = i, nd_kind = SocketNode, nd_mode = m\<rparr>"
      "posix \<longrightarrow> m = owner_only_file \<and> f_dir f = DirMode owner_only_dir"
    using s by (auto simp: serving_def)
  show ?thesis
  proof (cases "p = q")
    case True
    with r i s show ?thesis by (auto simp: start_server_def start_check_def)
  next
    case False
    show ?thesis
    proof (cases "claim_directory posix f")
      case (Inl e)
      with r i s False show ?thesis by (auto simp: start_server_def start_check_def new_server_def)
    next
      case (Inr g)
      then have g: "f_listening g = {i}" "f_node g = f_node f" "posix \<longrightarrow> f_dir g = DirMode owner_only_dir"
        using claim_directory_keeps [OF Inr] i(2) by simp_all
      then have probe: "connect g = ProbeFailed \<or> connect g = ProbeConnected" 
        using c [unfolded connects_def, rule_format, of g] g(1,2) i(3) by simp
      have new: "servers p = new_server" using i(1) False by simp
      have check: "start_check posix new_server f = (g, Inr True)"
        using Inr g(2) i(3) by (simp add: start_check_def new_server_def)
      from probe have "\<exists>e. start_remove (connect g) g = (g, Inl e)" by (elim disjE) (simp_all add: start_remove_def)
      then have "isl r \<and> sv = new_server \<and> f' = g"
        using r [unfolded new] by (elim exE) (auto simp: start_server_def check)
      with g i new show ?thesis by (auto simp: serving_def)
    qed
  qed
qed

lemma close_idle: "close_server shut (new_server, f) = (new_server, f)"
  by (simp add: close_server_def new_server_def remove_own_def)

lemma close_serving:
  assumes "shuts shut" and "serving posix q servers f" and "close_server shut (servers p, f) = (sv, f')"
  shows "if p = q then idle (servers(p := sv)) f' else sv = servers p \<and> f' = f"
proof -
  obtain i where i: "servers = (\<lambda>_. new_server)(q := \<lparr>rs_server = Some i, rs_identity = Some i\<rparr>)" "f_listening f = {i}"
    using assms(2) by (auto simp: serving_def)
  have "f_listening (shut i f) = {}" using assms(1) [unfolded shuts_def, rule_format, of i f] i(2) by auto
  then have "f_listening (remove_own x (shut i f)) = {}" for x
    by (simp add: remove_own_def split: option.split)
  then show ?thesis
    using assms(3) i close_idle [of shut f] by (auto simp: close_server_def idle_def split: if_splits)
qed

lemma host_step_keeps:
  assumes "host_step posix h t" and "idle (h_server h) (h_files h) \<or> (\<exists>q. serving posix q (h_server h) (h_files h))"
  shows "idle (h_server t) (h_files t) \<or> (\<exists>q. serving posix q (h_server t) (h_files t))"
  using assms(2)
proof
  assume i: "idle (h_server h) (h_files h)"
  then have s: "h_server h p = new_server" "f_listening (h_files h) = {}" for p by (simp_all add: idle_def)
  from assms(1) show ?thesis
  proof cases
    case (starts connect bind_at p sv f r)
    with start_idle [of connect bind_at "h_files h" posix sv f r p] i s show ?thesis
      by (auto simp: idle_def fun_upd_def)
  next
    case (closes shut p sv f)
    with i s close_idle [of shut "h_files h"] show ?thesis by (auto simp: idle_def fun_upd_def)
  next
    case (dies p)
    with i show ?thesis by (auto simp: idle_def fun_upd_def)
  qed
next
  assume "\<exists>q. serving posix q (h_server h) (h_files h)"
  then obtain q where q: "serving posix q (h_server h) (h_files h)" by blast
  from assms(1) show ?thesis
  proof cases
    case (starts connect bind_at p sv f r)
    with start_refused [OF starts(2) q starts(4)] show ?thesis by auto
  next
    case (closes shut p sv f)
    with close_serving [OF closes(2) q closes(3)] q show ?thesis by (auto split: if_splits)
  next
    case (dies p)
    show ?thesis
    proof (cases "p = q")
      case True
      with dies q show ?thesis by (auto simp: serving_def idle_def new_server_def)
    next
      case False
      then have "h_server h p = new_server" using q by (auto simp: serving_def)
      then have "(h_server h)(p := new_server) = h_server h" "set_option (rs_server (h_server h p)) = {}"
        by (auto simp: new_server_def)
      with dies q show ?thesis by auto
    qed
  qed
qed

text \<open>C17: As long as starts do not overlap, a socket has at most one server. Whatever servers start, close
  and die at a path, in whatever order, either nobody serves and nobody listens, or exactly one process
  serves: it listens on the socket the path names, nobody else listens, and (on POSIX) only the owner can
  reach the socket and its directory. So no start takes the path from a live supervisor, and no close
  removes another's socket.\<close>

theorem one_server_per_socket:
  assumes "(host_step posix)\<^sup>*\<^sup>* h t" and "h_server h = (\<lambda>_. new_server)" and "f_listening (h_files h) = {}"
  shows "(h_server t = (\<lambda>_. new_server) \<and> f_listening (h_files t) = {})
     \<or> (\<exists>p i m. h_server t = (\<lambda>_. new_server)(p := \<lparr>rs_server = Some i, rs_identity = Some i\<rparr>)
          \<and> f_listening (h_files t) = {i}
          \<and> f_node (h_files t) = Some \<lparr>nd_identity = i, nd_kind = SocketNode, nd_mode = m\<rparr>
          \<and> (posix \<longrightarrow> m = owner_only_file \<and> f_dir (h_files t) = DirMode owner_only_dir))"
proof -
  have "idle (h_server t) (h_files t) \<or> (\<exists>q. serving posix q (h_server t) (h_files t))"
    using assms(1)
  proof (induction rule: rtranclp_induct)
    case base
    then show ?case using assms(2,3) by (simp add: idle_def)
  qed (rule host_step_keeps)
  then show ?thesis by (auto simp: idle_def serving_def)
qed

text \<open>A stale socket is left by a process that died; a second process takes the path over.\<close>

definition sample_connect :: "files \<Rightarrow> probe" where
  "sample_connect f = (case f_node f of None \<Rightarrow> ProbeMissing
     | Some n \<Rightarrow> if nd_identity n \<in> f_listening f then ProbeConnected else ProbeRefused)"

definition sample_bind :: "identity \<Rightarrow> files \<Rightarrow> files \<times> identity res" where
  "sample_bind i f = (if i \<in> f_listening f then (f, Inl (OtherError ''OSError'' []))
     else (f\<lparr>f_node := Some \<lparr>nd_identity = i, nd_kind = SocketNode, nd_mode = 0\<rparr>,
            f_listening := insert i (f_listening f)\<rparr>, Inr i))"

definition sample_host :: host where
  "sample_host = \<lparr>h_files = \<lparr>f_dir = DirMissing, f_node = Some \<lparr>nd_identity = Inode 1 1, nd_kind = SocketNode, nd_mode = 0\<rparr>,
     f_listening = {}\<rparr>, h_server = (\<lambda>_. new_server)\<rparr>"

lemma sample_system: "connects sample_connect" "binds (sample_bind i)"
  by (auto simp: connects_def sample_connect_def binds_def sample_bind_def)

theorem one_server_per_socket_witness:
  "\<exists>t. host_step True sample_host t \<and> h_server t 7 = \<lparr>rs_server = Some (Inode 1 2), rs_identity = Some (Inode 1 2)\<rparr>
     \<and> f_listening (h_files t) = {Inode 1 2} \<and> f_dir (h_files t) = DirMode owner_only_dir"
proof -
  obtain sv f r where r: "start_server True sample_connect (sample_bind (Inode 1 2)) (h_server sample_host 7, h_files sample_host)
      = ((sv, f), r)" by (metis prod.exhaust)
  let ?t = "sample_host\<lparr>h_files := f, h_server := (h_server sample_host)(7 := sv)\<rparr>"
  have sv: "sv = \<lparr>rs_server = Some (Inode 1 2), rs_identity = Some (Inode 1 2)\<rparr>"
    using r by (auto simp: start_server_def start_check_def claim_directory_def start_remove_def start_bound_def
        sample_host_def sample_connect_def sample_bind_def new_server_def)
  have st: "host_step True sample_host ?t" by (rule host_step.starts) (rule sample_system sample_system r)+
  from one_server_per_socket [OF r_into_rtranclp [of "host_step True", OF st]] sv have "f_listening (h_files ?t) = {Inode 1 2}
      \<and> f_dir (h_files ?t) = DirMode owner_only_dir"
    by (auto simp: sample_host_def new_server_def fun_eq_iff split: if_splits)
  with st sv show ?thesis by (intro exI [of _ ?t]) simp
qed

section \<open>Starts that overlap\<close>

text \<open>Two starts that both probed a stale socket before either went on: the second removes the socket the
  first already listens on, and both serve.\<close>

lemma overlapping_starts:
  fixes f :: files and a b :: identity
  defines "f1 \<equiv> fst (start_remove (sample_connect f) f)"
  defines "fa \<equiv> snd (fst (start_bound True (sample_bind a f1) new_server))"
  defines "f2 \<equiv> fst (start_remove (sample_connect f) fa)"
  defines "b_start \<equiv> start_bound True (sample_bind b f2) new_server"
  assumes "f_node f = Some n" and "nd_kind n = SocketNode" and "f_dir f = DirMode owner_only_dir"
    and "f_listening f = {}" and "a \<noteq> b"
  shows "start_check True new_server f = (f, Inr True) \<and> snd (start_remove (sample_connect f) f) = Inr ()
     \<and> snd (start_bound True (sample_bind a f1) new_server) = Inr ()
     \<and> snd (start_remove (sample_connect f) fa) = Inr () \<and> snd b_start = Inr ()
     \<and> f_listening (snd (fst b_start)) = {a, b} \<and> map_option nd_identity (f_node (snd (fst b_start))) = Some b"
  using assms(5-)
  by (auto simp: f1_def fa_def f2_def b_start_def start_check_def claim_directory_def new_server_def start_remove_def
      start_bound_def sample_bind_def sample_connect_def)

text \<open>The service closes the server, and then the supervisor unless closing the server raises.\<close>

lemma run_server_closes:
  "ServerClose \<in> set (fst (run_server supported started waited server_closed supervisor_closed))
   \<and> (SupervisorClose \<in> set (fst (run_server supported started waited server_closed supervisor_closed))
      \<longleftrightarrow> \<not> isl server_closed)"
  by (auto simp: run_server_def Let_def)

end
