(* ===== verification/Spec2Isabelle.thy ===== *)
theory Spec2Isabelle
  imports Foreground Cli Approval_Grants Report_Schema Stop Service
begin

text \<open>
  Verification of the qworker package (\<open>src/src/qworker\<close>): a supervisor that runs coding and auditing
  agents as workers, records everything they do in a SQLite database, and lets a parent agent
  steer, approve, watch and stop them.

  \<^bold>\<open>How the program is put together.\<close> A run of an agent goes through the SDK adapter
  (\<open>qoder_sdk.py\<close>), which turns SDK messages into the normalized events of \<open>events.py\<close>. A reducer
  (\<open>reducer.py\<close>, \<open>coder.py\<close>) folds the events to a result; \<open>auditor.py\<close> and \<open>coder.py\<close> drive a
  run in the foreground. \<open>supervisor.py\<close> owns the runs in the background: its handlers append
  events to the store of \<open>store.py\<close>, which projects each of them into the row of its worker under
  the transition table of \<open>lifecycle.py\<close>; approvals and elicitations go through \<open>control.py\<close>.
  Configuration (\<open>config.py\<close>), preflight (\<open>preflight.py\<close>), workspaces (\<open>workspace.py\<close>) and the two
  policies (\<open>auditor_policy.py\<close>, \<open>model_policy.py\<close>) decide what a run may do. \<open>rpc.py\<close> serves the
  supervisor over a private socket, one JSON object per line, and \<open>cli.py\<close> is its client on the
  command line.

  \<^bold>\<open>The theories.\<close> In the order of the imports:

  \<^item> \<open>Prelude\<close>: Python exceptions as values (\<open>py_exn\<close>, the sum type \<open>res\<close>), insertion-ordered
    dictionaries as association lists, and the lemma collections; \<open>Py_Text\<close> and \<open>Py_Regex\<close>: string
    operations and a backtracking matcher for the patterns the code uses; \<open>Json\<close> and \<open>Json_Codec\<close>:
    values, \<open>json.dumps\<close> and \<open>json.loads\<close>, the round trip as the locale \<open>json_codec\<close>.
  \<^item> \<open>Lifecycle\<close>: \<open>lifecycle.py\<close>. \<open>Audit_Report\<close>: the report parser of \<open>audit_report.py\<close>;
    \<open>Report_Schema\<close>: the schema offered to the model, which agrees with it. \<open>Policies\<close>:
    the model and tool policies. \<open>Redaction\<close>: the redaction functions of three modules, each an
    interpretation of \<open>secret_remover\<close>.
  \<^item> \<open>Reducer\<close>, \<open>Coder_Reducer\<close>: the two folds over events, both interpretations of \<open>stream_reducer\<close>.
    \<open>Adapter\<close>: error classification, message mapping and the stream of \<open>qoder_sdk.py\<close>.
    \<open>Foreground\<close>: the two foreground runs, as a script of what the transport does to the list of
    calls made on it and the result (\<open>settling_reducer\<close>).
  \<^item> \<open>Payloads\<close>, \<open>Sanitizer\<close>, \<open>Store\<close>: \<open>store.py\<close>. What may be persisted; the budgeted redaction of
    results; the three tables as a record \<open>db\<close> of lists, one definition per transaction.
    \<open>Store_Invariants\<close> proves the invariant \<open>store_ok\<close> over the step relation \<open>store_step\<close>,
    \<open>Store_Properties\<close> and \<open>Store_Operations\<close> what the store promises its callers
    (\<open>durable_log\<close>: a log of a worker read by cursor).
  \<^item> \<open>Control\<close>: displays, schema snapshots and responses of \<open>control.py\<close>. \<open>Config\<close>, \<open>Preflight\<close>,
    \<open>Workspace\<close>: the modules of those names.
  \<^item> \<open>Sdk_Options\<close>: how \<open>qoder_sdk.py\<close> sets up a run: options, the preflight backend, the callbacks bound to
    a client, the credential file of an aborted client.
  \<^item> \<open>Supervisor\<close>: the shared state of \<open>supervisor.py\<close> as a record \<open>sup\<close>, and its JSON. \<open>Handlers\<close>:
    the handlers, each a function on \<open>sup\<close> cut at its awaits, so that an interleaving of handlers is
    a sequence of these functions (\<open>sup_step\<close>). \<open>Handler_Shapes\<close> and \<open>Handler_Effects\<close>: what
    every handler keeps, once for each way of composing handlers, in the locales \<open>kept_relation\<close>,
    \<open>handler_base\<close>, \<open>handler_relation\<close> and \<open>blind_relation\<close>. \<open>Run_Steps\<close>: one appended event,
    exactly. \<open>Approvals\<close>, \<open>Approval_Handlers\<close>: the invariant of pending requests. \<open>Run_End\<close>,
    \<open>Run_Properties\<close>: how attempts end. \<open>Watch\<close>: the generator of a watch, round by round.
    \<open>Stop\<close>: the operation of a stop next to the owner of its attempt, cut at their awaits
    (\<open>stop_step\<close>, \<open>owner_step\<close>). \<open>Approval_Grants\<close>: the wait for a decision, the callbacks of the
    supervisor behind the permission bridge of the adapter, and what a tool that ran left in the log.
    \<open>Ulid\<close>: the identifiers of workers, events and requests.
  \<^item> \<open>Rpc\<close>: \<open>rpc.py\<close>, a connection being the bytes its peer sends: frames, decoding and dispatch, the
    watch stream, the loop of a connection, and the client. The server is a function of what it
    serves (the record \<open>served\<close> of a call and a watch). \<open>Rpc_Frames\<close>: frames read back. \<open>Rpc_Properties\<close>:
    what a client sees of a call and of a watch. \<open>Rpc_Supervisor\<close>: the served supervisor of this
    development, and what a connection keeps (\<open>served_relation\<close>). \<open>Json_Values\<close>: parsed values are
    well-formed. \<open>Cli\<close>: \<open>cli.py\<close>, from parsed arguments to the lines written and the exit code.
    \<open>Service\<close>: how servers claim and give up the socket file, as steps of the processes of a host
    (\<open>host_step\<close>), and the order of the calls of the service.

  \<^bold>\<open>What the lemmas show.\<close> Every initialized run ends in a terminal state; a response resolves a
  request entirely or not at all, a decision is final, and a request fails closed; the supervisor
  changes the database by store operations only. The store's rows are the replay of its logs,
  polling by cursor loses nothing, transactions that raise change nothing, results are bounded,
  free of the secrets of the environment and read back. A submitted report is the result of an
  audit, both reducers agree where they share a contract, and a foreground run disconnects however
  it ends. A project's configuration can only narrow the user's, for every option of a run. A tool
  call of an auditor needs its policy and the supervisor's answer, and a tool that ran has its request and
  its approval in the log; a preflight that succeeds predicts
  that a run can be set up. A stop calls transport and owner in a fixed order, never loses a result
  that was accepted, and ends. Over the wire a call is the call
  on the supervisor, a watch is the log from its cursor on, a frame that is too long is refused and
  named, and whatever bytes a peer sends the supervisor takes only its own steps. A command of the
  command line is understood by the server and shows the answer of the supervisor. A socket has at most
  one server as long as starts do not overlap. Identifiers order like the time they were drawn at.

  \<^bold>\<open>Bounds and fuel.\<close> The JSON parser runs on fuel of twice the length of the text, which
  \<open>Json_Codec\<close> shows is never what stops it. The loops of a connection and of a watch client end
  because every frame read is removed from the stream. The number of rounds of a watch is that of
  the turns given to it; a command makes at most 41 calls. Every step of a stop decreases a
  lexicographic measure of its position, the owner's, and two flags. The search for an unused result key
  (\<open>unique_result_key\<close>) has one more candidate than there are keys. The limits on results,
  schemas, displays and configuration files are the constants of the source. Integers of the code
  are Python's and are modelled as \<open>int\<close> or \<open>nat\<close>; nothing in the code has a machine width.

  \<^bold>\<open>Parameters.\<close> What is not under \<open>src\<close> is an argument of the definitions that use it: the
  environment and the file system as functions, random bytes and the clock as drawn values, the
  TOML and JSON Schema libraries, path resolution, the SDK's client as a script or a backend record.

  \<^bold>\<open>Not modelled.\<close> The argument parsers of \<open>cli.py\<close> and of the service, which are the standard
  library's; writes that the socket refuses, text beyond U+00FF on the wire, and JSON nested so deeply
  that Python's recursion limit stops it; \<open>transport.py\<close> (an interface without behaviour), the
  opening of the database file and of the runtime's subprocess, the clock (a wait with a deadline may
  end at any time), the cancellation of the stop operation itself, and the wake-ups of followers; the
  probe under \<open>spikes\<close> is a manual experiment.
\<close>

end
